theory Spec2Isabelle
  imports Complex_Main
begin

section \<open>JavaScript values\<close>

text \<open>
  The pricing engine and the version codec are JavaScript. A numeric slot of an object
  holds \<open>undefined\<close>, \<open>null\<close>, \<open>NaN\<close> or a finite number; finite numbers are
  modelled as reals and the infinities are outside the model. The arithmetic of a line item
  (\<open>js_add\<close>, \<open>js_mul\<close>) is exact. \<open>calculateQuote\<close> compares two sums it has
  computed, so the branch it takes depends on how its additions round: they are the
  additions of the runtime (\<open>dbl_add\<close>), rounded to double precision.
  Strings are lists of 8-bit characters, read as code units below 256.
\<close>

datatype jsnum = Undefined | Null | NaN | Num real

subsection \<open>Numeric slots\<close>

text \<open>Truthiness of a numeric slot: only a non-zero number is truthy.\<close>

fun truthy :: "jsnum \<Rightarrow> bool" where
  "truthy (Num x) = (x \<noteq> 0)"
| "truthy Undefined = False"
| "truthy Null = False"
| "truthy NaN = False"

text \<open>\<open>ToNumber\<close>: \<open>None\<close> stands for \<open>NaN\<close>; \<open>null\<close> converts to 0.\<close>

fun toNumber :: "jsnum \<Rightarrow> real option" where
  "toNumber (Num x) = Some x"
| "toNumber Null = Some 0"
| "toNumber Undefined = None"
| "toNumber NaN = None"

definition js_add :: "jsnum \<Rightarrow> jsnum \<Rightarrow> jsnum" where
  "js_add a b =
     (case toNumber a of None \<Rightarrow> NaN
      | Some x \<Rightarrow> (case toNumber b of None \<Rightarrow> NaN | Some y \<Rightarrow> Num (x + y)))"

definition js_mul :: "jsnum \<Rightarrow> jsnum \<Rightarrow> jsnum" where
  "js_mul a b =
     (case toNumber a of None \<Rightarrow> NaN
      | Some x \<Rightarrow> (case toNumber b of None \<Rightarrow> NaN | Some y \<Rightarrow> Num (x * y)))"

text \<open>Relational comparison: false as soon as one side is \<open>NaN\<close>.\<close>

definition js_lt :: "jsnum \<Rightarrow> jsnum \<Rightarrow> bool" where
  "js_lt a b =
     (case toNumber a of None \<Rightarrow> False
      | Some x \<Rightarrow> (case toNumber b of None \<Rightarrow> False | Some y \<Rightarrow> x < y))"

definition js_gt :: "jsnum \<Rightarrow> jsnum \<Rightarrow> bool" where
  "js_gt a b = js_lt b a"

text \<open>\<open>v || 0\<close> on a numeric slot.\<close>

definition orZero :: "jsnum \<Rightarrow> real" where
  "orZero v = (case v of Num x \<Rightarrow> x | _ \<Rightarrow> 0)"

subsection \<open>Double precision\<close>

text \<open>
  A double is \<open>k * 2 ^ e\<close> for an integer \<open>k\<close> of at most 53 bits and an exponent
  \<open>e\<close> from \<open>-1074\<close>. The sum of two doubles is the double nearest to their exact sum,
  a tie going to the even \<open>k\<close>. The exponent has no upper bound here: overflow to
  \<open>Infinity\<close> is outside the model.
\<close>

text \<open>The number of binary digits of a natural number.\<close>

fun bitLength :: "nat \<Rightarrow> nat" where
  "bitLength n = (if n = 0 then 0 else Suc (bitLength (n div 2)))"

declare bitLength.simps [simp del]

text \<open>The binade of \<open>x \<noteq> 0\<close>: the \<open>b\<close> with \<open>2 ^ b \<le> \<bar>x\<bar> < 2 ^ (b + 1)\<close>.\<close>

definition binade :: "real \<Rightarrow> int" where
  "binade x =
     (if 1 \<le> \<bar>x\<bar> then int (bitLength (nat \<lfloor>\<bar>x\<bar>\<rfloor>)) - 1
      else - int (bitLength (nat (\<lceil>1 / \<bar>x\<bar>\<rceil> - 1))))"

text \<open>
  The exponent of the last place of the doubles around \<open>x\<close>: 52 below the binade, and
  \<open>-1074\<close> for the subnormal numbers.
\<close>

definition ulpExponent :: "real \<Rightarrow> int" where
  "ulpExponent x = max (binade x) (- 1022) - 52"

text \<open>The nearest integer, the even one of the two when they are equally near.\<close>

definition nearestEven :: "real \<Rightarrow> int" where
  "nearestEven y =
     (let f = \<lfloor>y\<rfloor>
      in if y - of_int f < 1 / 2 then f
         else if 1 / 2 < y - of_int f then f + 1
         else if even f then f else f + 1)"

definition roundTo :: "int \<Rightarrow> real \<Rightarrow> real" where
  "roundTo e x = of_int (nearestEven (x / 2 powi e)) * 2 powi e"

text \<open>The double nearest to a real number.\<close>

definition double :: "real \<Rightarrow> real" where
  "double x = sgn x * roundTo (ulpExponent x) \<bar>x\<bar>"

text \<open>\<open>a + b\<close> on two numeric slots, as the runtime computes it.\<close>

definition dbl_add :: "jsnum \<Rightarrow> jsnum \<Rightarrow> jsnum" where
  "dbl_add a b =
     (case toNumber a of None \<Rightarrow> NaN
      | Some x \<Rightarrow> (case toNumber b of None \<Rightarrow> NaN | Some y \<Rightarrow> Num (double (x + y))))"

subsection \<open>Strings\<close>

text \<open>Truthiness of a string slot (\<open>None\<close> is \<open>undefined\<close>/\<open>null\<close>): a non-empty string.\<close>

definition truthyStr :: "string option \<Rightarrow> bool" where
  "truthyStr s = (case s of None \<Rightarrow> False | Some t \<Rightarrow> t \<noteq> [])"

text \<open>\<open>a || b\<close> on string slots.\<close>

definition orStr :: "string option \<Rightarrow> string option \<Rightarrow> string option" where
  "orStr a b = (if truthyStr a then a else b)"

definition dquote :: char where
  "dquote = CHR 0x22"

text \<open>The position of a character in a string, counted from \<open>k\<close>.\<close>

fun positionFrom :: "nat \<Rightarrow> char \<Rightarrow> string \<Rightarrow> nat option" where
  "positionFrom k c [] = None"
| "positionFrom k c (d # ds) = (if c = d then Some k else positionFrom (Suc k) c ds)"

section \<open>Catalog model\<close>

text \<open>
  The objects of the catalog, with the fields the source reads and writes. A field keeps
  the name of its property behind a prefix for its record (\<open>m_\<close>, \<open>pl_\<close>, \<open>p_\<close>, \<open>a_\<close>,
  \<open>aa_\<close>), since several objects share property names. A string property that may be
  absent is a \<open>string option\<close>, \<open>None\<close> standing for \<open>undefined\<close>.
\<close>

record manufacturer =
  m_id :: string
  m_name :: string

record productLine =
  pl_id :: string
  pl_manufacturerId :: string
  pl_name :: string

record sizeLimits =
  minWidth :: jsnum
  maxWidth :: jsnum
  minHeight :: jsnum
  maxHeight :: jsnum

text \<open>
  \<open>p_type\<close> and \<open>p_productLine\<close> are the fallback fields \<open>type\<close> and \<open>productLine\<close>
  that \<open>isAddonAllowed\<close> reads.
\<close>

record product =
  p_id :: string
  p_productLineId :: "string option"
  p_productLine :: "string option"
  p_productType :: "string option"
  p_type :: "string option"
  p_productTypeCode :: "string option"
  p_name :: string
  p_pricingModel :: "string option"
  p_uiRate :: jsnum
  p_flatPrice :: jsnum
  p_minimumUI :: jsnum
  p_maximumUI :: jsnum
  p_sizeLimits :: "sizeLimits option"
  p_allowedAddons :: "string list option"

record addon =
  a_id :: string
  a_name :: string
  a_pricingModel :: string
  a_uiRate :: jsnum
  a_flatPrice :: jsnum
  a_exclusiveGroup :: "string option"
  a_mandatory :: bool
  a_hiddenFromCustomer :: bool
  a_isJobBased :: bool
  a_allowedProductTypes :: "string list option"
  a_allowedProductLines :: "string list option"
  a_minSize :: jsnum
  a_maxSize :: jsnum

record appliedAddon =
  aa_id :: string
  aa_name :: string
  aa_price :: jsnum
  aa_hidden :: bool

record lineItem =
  ui :: real
  basePrice :: jsnum
  addonTotal :: jsnum
  lineItemParTotal :: jsnum
  appliedAddons :: "appliedAddon list"

text \<open>The errors the engine throws, by the message of the thrown \<open>Error\<close>.\<close>

datatype error =
    InvalidConfiguration "string option"   \<comment> \<open>\<open>Invalid pricing model: ...\<close>\<close>
  | ExclusiveGroupConflict string \<comment> \<open>\<open>Exclusive addon conflict in group: ...\<close>\<close>
  | NegativeUplift                \<comment> \<open>\<open>Sales uplift cannot be negative\<close>\<close>
  | PriceFloorViolation           \<comment> \<open>\<open>Final price cannot be below par price\<close>\<close>
  | TypeError                     \<comment> \<open>a property or method of a value that is not the expected object\<close>

section \<open>Pricing engine\<close>

subsection \<open>isAddonAllowed\<close>

text \<open>
  A restriction list applies when it is an array with at least one element; the product's
  type or line must then be truthy and a member of it.
\<close>

definition restrictionOk :: "string list option \<Rightarrow> string option \<Rightarrow> bool" where
  "restrictionOk allowed v =
     (case allowed of
        None \<Rightarrow> True
      | Some xs \<Rightarrow>
          if length xs > 0 then
            (case v of None \<Rightarrow> False | Some s \<Rightarrow> s \<noteq> [] \<and> s \<in> set xs)
          else True)"

definition isAddonAllowed :: "addon \<Rightarrow> product \<Rightarrow> real \<Rightarrow> bool" where
  "isAddonAllowed addon product u =
     (if \<not> restrictionOk (a_allowedProductTypes addon)
            (orStr (orStr (p_productType product) (p_type product)) (p_productTypeCode product))
      then False
      else if \<not> restrictionOk (a_allowedProductLines addon)
            (orStr (p_productLineId product) (p_productLine product))
      then False
      else if a_maxSize addon \<noteq> Null \<and> js_gt (Num u) (a_maxSize addon) then False
      else if a_minSize addon \<noteq> Null \<and> js_lt (Num u) (a_minSize addon) then False
      else True)"

subsection \<open>calculateUI\<close>

definition calculateUI :: "real \<Rightarrow> real \<Rightarrow> real" where
  "calculateUI width height = of_int \<lceil>width + height\<rceil>"

subsection \<open>calculateLineItem\<close>

text \<open>\<open>[...new Set(xs)]\<close>: the first occurrence of every element, in order.\<close>

fun dedupFrom :: "'a list \<Rightarrow> 'a list \<Rightarrow> 'a list" where
  "dedupFrom seen [] = []"
| "dedupFrom seen (x # xs) =
     (if x \<in> set seen then dedupFrom seen xs else x # dedupFrom (seen @ [x]) xs)"

definition dedup :: "'a list \<Rightarrow> 'a list" where
  "dedup xs = dedupFrom [] xs"

text \<open>\<open>allAddons[addonId]?.mandatory\<close>.\<close>

definition isMandatory :: "(string \<rightharpoonup> addon) \<Rightarrow> string \<Rightarrow> bool" where
  "isMandatory allAddons addonId =
     (case allAddons addonId of None \<Rightarrow> False | Some a \<Rightarrow> a_mandatory a)"

definition mandatoryAddonIds :: "product \<Rightarrow> (string \<rightharpoonup> addon) \<Rightarrow> string list" where
  "mandatoryAddonIds product allAddons =
     filter (isMandatory allAddons)
       (case p_allowedAddons product of None \<Rightarrow> [] | Some xs \<Rightarrow> xs)"

definition allAddonIds :: "product \<Rightarrow> string list \<Rightarrow> (string \<rightharpoonup> addon) \<Rightarrow> string list" where
  "allAddonIds product selectedAddonIds allAddons =
     dedup (mandatoryAddonIds product allAddons @ selectedAddonIds)"

text \<open>The price of one addon: 0 unless its pricing model is \<open>UI\<close> or \<open>FLAT\<close>.\<close>

definition addonPrice :: "real \<Rightarrow> addon \<Rightarrow> jsnum" where
  "addonPrice effectiveUI addon =
     (if a_pricingModel addon = ''UI'' then js_mul (Num effectiveUI) (a_uiRate addon)
      else if a_pricingModel addon = ''FLAT'' then a_flatPrice addon
      else Num 0)"

text \<open>The three locals the loop over the addon ids updates.\<close>

record addonAcc =
  acc_applied :: "appliedAddon list"
  acc_groups :: "string set"
  acc_total :: jsnum

definition emptyAcc :: addonAcc where
  "emptyAcc = \<lparr>acc_applied = [], acc_groups = {}, acc_total = Num 0\<rparr>"

text \<open>
  The addon loop. An unknown addon and one \<open>isAddonAllowed\<close> rejects are skipped; a
  truthy exclusive group seen before throws; otherwise the addon is priced and pushed.
\<close>

fun processAddons ::
  "product \<Rightarrow> real \<Rightarrow> real \<Rightarrow> (string \<rightharpoonup> addon) \<Rightarrow> string list \<Rightarrow> addonAcc \<Rightarrow> error + addonAcc"
where
  "processAddons product u effectiveUI allAddons [] acc = Inr acc"
| "processAddons product u effectiveUI allAddons (addonId # rest) acc =
     (case allAddons addonId of
        None \<Rightarrow> processAddons product u effectiveUI allAddons rest acc
      | Some addon \<Rightarrow>
          if \<not> isAddonAllowed addon product u
          then processAddons product u effectiveUI allAddons rest acc
          else if truthyStr (a_exclusiveGroup addon)
                  \<and> the (a_exclusiveGroup addon) \<in> acc_groups acc
          then Inl (ExclusiveGroupConflict (the (a_exclusiveGroup addon)))
          else
            processAddons product u effectiveUI allAddons rest
              \<lparr>acc_applied = acc_applied acc @
                 [\<lparr>aa_id = addonId, aa_name = a_name addon,
                   aa_price = addonPrice effectiveUI addon,
                   aa_hidden = a_hiddenFromCustomer addon\<rparr>],
               acc_groups =
                 (if truthyStr (a_exclusiveGroup addon)
                  then insert (the (a_exclusiveGroup addon)) (acc_groups acc)
                  else acc_groups acc),
               acc_total = js_add (acc_total acc) (addonPrice effectiveUI addon)\<rparr>)"

definition calculateLineItem ::
  "product \<Rightarrow> real \<Rightarrow> real \<Rightarrow> string list \<Rightarrow> (string \<rightharpoonup> addon) \<Rightarrow> error + lineItem"
where
  "calculateLineItem product width height selectedAddonIds allAddons =
     (let u = calculateUI width height;
          effectiveUI = max u (orZero (p_minimumUI product))
      in if p_pricingModel product \<noteq> Some ''UI'' \<and> p_pricingModel product \<noteq> Some ''FLAT''
         then Inl (InvalidConfiguration (p_pricingModel product))
         else
           let base = (if p_pricingModel product = Some ''UI''
                       then js_mul (Num effectiveUI) (p_uiRate product)
                       else p_flatPrice product)
           in case processAddons product u effectiveUI allAddons
                     (allAddonIds product selectedAddonIds allAddons) emptyAcc of
                Inl e \<Rightarrow> Inl e
              | Inr acc \<Rightarrow>
                  Inr \<lparr>ui = effectiveUI, basePrice = base, addonTotal = acc_total acc,
                       lineItemParTotal = js_add base (acc_total acc),
                       appliedAddons = acc_applied acc\<rparr>)"

subsection \<open>calculateQuote\<close>

record jobAddon =
  jb_price :: jsnum

record quoteTotals =
  totalParPrice :: jsnum
  jobAddonTotal :: real
  jobBasedAddons :: "jobAddon list"
  salesUplift :: real
  finalPrice :: jsnum

text \<open>
  The two sums and the final price are computed with the additions of the runtime, from
  the left; the guard compares the results.
\<close>

definition calculateQuote :: "lineItem list \<Rightarrow> jobAddon list \<Rightarrow> real \<Rightarrow> error + quoteTotals" where
  "calculateQuote lineItems jobAddons uplift =
     (if uplift < 0 then Inl NegativeUplift
      else
        let total = foldl (\<lambda>sum item. dbl_add sum (lineItemParTotal item)) (Num 0) lineItems;
            jobTotal = foldl (\<lambda>t a. double (t + orZero (jb_price a))) 0 jobAddons;
            final = dbl_add (dbl_add total (Num jobTotal)) (Num uplift)
        in if js_lt final total then Inl PriceFloorViolation
           else Inr \<lparr>totalParPrice = total, jobAddonTotal = jobTotal,
                     jobBasedAddons = jobAddons, salesUplift = uplift,
                     finalPrice = final\<rparr>)"

subsection \<open>validateSize and validateUI\<close>

text \<open>A template literal \<open>`${v}`\<close> on a numeric slot.\<close>
definition template :: "(real \<Rightarrow> string) \<Rightarrow> jsnum \<Rightarrow> string" where
  "template numToString v =
     (case v of Undefined \<Rightarrow> ''undefined'' | Null \<Rightarrow> ''null'' | NaN \<Rightarrow> ''NaN''
      | Num x \<Rightarrow> numToString x)"

record validation =
  valid :: bool
  errors :: "string list option"

definition validateSize :: "(real \<Rightarrow> string) \<Rightarrow> product \<Rightarrow> real \<Rightarrow> real \<Rightarrow> validation" where
  "validateSize numToString product width height =
     (case p_sizeLimits product of
        None \<Rightarrow> \<lparr>valid = True, errors = None\<rparr>
      | Some limits \<Rightarrow>
          let errs =
            (if truthy (minWidth limits) \<and> js_lt (Num width) (minWidth limits)
             then [''Width must be at least '' @ template numToString (minWidth limits) @ [dquote]]
             else [])
            @ (if truthy (maxWidth limits) \<and> js_gt (Num width) (maxWidth limits)
               then [''Width cannot exceed '' @ template numToString (maxWidth limits) @ [dquote]]
               else [])
            @ (if truthy (minHeight limits) \<and> js_lt (Num height) (minHeight limits)
               then [''Height must be at least '' @ template numToString (minHeight limits) @ [dquote]]
               else [])
            @ (if truthy (maxHeight limits) \<and> js_gt (Num height) (maxHeight limits)
               then [''Height cannot exceed '' @ template numToString (maxHeight limits) @ [dquote]]
               else [])
          in \<lparr>valid = (length errs = 0), errors = Some errs\<rparr>)"

definition validateUI :: "(real \<Rightarrow> string) \<Rightarrow> product \<Rightarrow> real \<Rightarrow> validation" where
  "validateUI numToString product u =
     (let errs =
        (if truthy (p_minimumUI product) \<and> js_lt (Num u) (p_minimumUI product)
         then [''UI must be at least '' @ template numToString (p_minimumUI product)]
         else [])
        @ (if truthy (p_maximumUI product) \<and> js_gt (Num u) (p_maximumUI product)
           then [''UI cannot exceed '' @ template numToString (p_maximumUI product)]
           else [])
      in \<lparr>valid = (length errs = 0), errors = Some errs\<rparr>)"

subsection \<open>createQuoteVersion\<close>

text \<open>
  \<open>createQuoteVersion\<close> clones the line items it is given, so the objects live in an
  explicit heap: an array cell holds references, a line item holds a reference to the
  array of its applied addons. \<open>fresh\<close> is the next address the runtime allocates.
\<close>

type_synonym addr = nat

record lineItemObj =
  o_ui :: real
  o_basePrice :: jsnum
  o_addonTotal :: jsnum
  o_lineItemParTotal :: jsnum
  o_appliedAddons :: addr

datatype cell = ArrayCell "addr list" | LineItemCell lineItemObj | AppliedCell appliedAddon

record heap =
  cells :: "addr \<rightharpoonup> cell"
  fresh :: addr

fun readAll :: "('r \<Rightarrow> 'v option) \<Rightarrow> 'r list \<Rightarrow> 'v list option" where
  "readAll rd [] = Some []"
| "readAll rd (r # rs) =
     (case rd r of None \<Rightarrow> None
      | Some v \<Rightarrow> (case readAll rd rs of None \<Rightarrow> None | Some vs \<Rightarrow> Some (v # vs)))"

definition readApplied :: "(addr \<rightharpoonup> cell) \<Rightarrow> addr \<Rightarrow> appliedAddon option" where
  "readApplied cs r = (case cs r of Some (AppliedCell e) \<Rightarrow> Some e | _ \<Rightarrow> None)"

definition readAppliedArray :: "(addr \<rightharpoonup> cell) \<Rightarrow> addr \<Rightarrow> appliedAddon list option" where
  "readAppliedArray cs r =
     (case cs r of Some (ArrayCell rs) \<Rightarrow> readAll (readApplied cs) rs | _ \<Rightarrow> None)"

definition readLineItem :: "(addr \<rightharpoonup> cell) \<Rightarrow> addr \<Rightarrow> lineItem option" where
  "readLineItem cs r =
     (case cs r of
        Some (LineItemCell ob) \<Rightarrow>
          (case readAppliedArray cs (o_appliedAddons ob) of
             None \<Rightarrow> None
           | Some es \<Rightarrow>
               Some \<lparr>ui = o_ui ob, basePrice = o_basePrice ob, addonTotal = o_addonTotal ob,
                     lineItemParTotal = o_lineItemParTotal ob, appliedAddons = es\<rparr>)
      | _ \<Rightarrow> None)"

definition readLineItems :: "(addr \<rightharpoonup> cell) \<Rightarrow> addr \<Rightarrow> lineItem list option" where
  "readLineItems cs r =
     (case cs r of Some (ArrayCell rs) \<Rightarrow> readAll (readLineItem cs) rs | _ \<Rightarrow> None)"

definition newCell :: "heap \<Rightarrow> cell \<Rightarrow> addr \<times> heap" where
  "newCell h c = (fresh h, \<lparr>cells = (cells h)(fresh h \<mapsto> c), fresh = Suc (fresh h)\<rparr>)"

fun allocAll :: "(heap \<Rightarrow> 'v \<Rightarrow> addr \<times> heap) \<Rightarrow> heap \<Rightarrow> 'v list \<Rightarrow> addr list \<times> heap" where
  "allocAll alloc h [] = ([], h)"
| "allocAll alloc h (v # vs) =
     (case alloc h v of (r, h1) \<Rightarrow>
        (case allocAll alloc h1 vs of (rs, h2) \<Rightarrow> (r # rs, h2)))"

definition allocApplied :: "heap \<Rightarrow> appliedAddon \<Rightarrow> addr \<times> heap" where
  "allocApplied h e = newCell h (AppliedCell e)"

definition allocLineItem :: "heap \<Rightarrow> lineItem \<Rightarrow> addr \<times> heap" where
  "allocLineItem h li =
     (case allocAll allocApplied h (appliedAddons li) of (rs, h1) \<Rightarrow>
        (case newCell h1 (ArrayCell rs) of (ra, h2) \<Rightarrow>
           newCell h2 (LineItemCell \<lparr>o_ui = ui li, o_basePrice = basePrice li,
             o_addonTotal = addonTotal li, o_lineItemParTotal = lineItemParTotal li,
             o_appliedAddons = ra\<rparr>)))"

definition allocLineItems :: "heap \<Rightarrow> lineItem list \<Rightarrow> addr \<times> heap" where
  "allocLineItems h lis =
     (case allocAll allocLineItem h lis of (rs, h1) \<Rightarrow> newCell h1 (ArrayCell rs))"

definition jsonNum :: "jsnum \<Rightarrow> jsnum" where
  "jsonNum v = (case v of NaN \<Rightarrow> Null | _ \<Rightarrow> v)"

definition jsonLineItem :: "lineItem \<Rightarrow> lineItem" where
  "jsonLineItem li =
     \<lparr>ui = ui li, basePrice = jsonNum (basePrice li), addonTotal = jsonNum (addonTotal li),
      lineItemParTotal = jsonNum (lineItemParTotal li),
      appliedAddons = map (\<lambda>e. e\<lparr>aa_price := jsonNum (aa_price e)\<rparr>) (appliedAddons li)\<rparr>"

record 'm quoteVersion =
  qv_id :: string
  qv_quoteId :: string
  qv_timestamp :: string
  qv_lineItems :: addr
  qv_totalParPrice :: jsnum
  qv_salesUplift :: real
  qv_finalPrice :: jsnum
  qv_locked :: bool
  qv_metadata :: 'm

definition createQuoteVersion ::
  "(real \<Rightarrow> string) \<Rightarrow> real \<Rightarrow> string \<Rightarrow> heap \<Rightarrow> string \<Rightarrow> addr \<Rightarrow> real \<Rightarrow> 'm
     \<Rightarrow> error + ('m quoteVersion \<times> heap)" where
  "createQuoteVersion numToString now isoNow h quoteId lineItemsRef uplift metadata =
     (case readLineItems (cells h) lineItemsRef of
        None \<Rightarrow> Inl TypeError
      | Some lineItems \<Rightarrow>
          (case calculateQuote lineItems [] uplift of
             Inl e \<Rightarrow> Inl e
           | Inr quoteCalc \<Rightarrow>
               (case allocLineItems h (map jsonLineItem lineItems) of (copy, h') \<Rightarrow>
                  Inr (\<lparr>qv_id = quoteId @ ''_v'' @ numToString now,
                        qv_quoteId = quoteId,
                        qv_timestamp = isoNow,
                        qv_lineItems = copy,
                        qv_totalParPrice = totalParPrice quoteCalc,
                        qv_salesUplift = salesUplift quoteCalc,
                        qv_finalPrice = finalPrice quoteCalc,
                        qv_locked = True,
                        qv_metadata = metadata\<rparr>, h'))))"

section \<open>Version codec\<close>

definition newline :: char where
  "newline = CHR 0x0A"

text \<open>
  The characters \<open>String.prototype.trim\<close> removes, among the code units below 256: tab,
  line feed, vertical tab, form feed, carriage return, space and the no-break space.
\<close>

definition isSpace :: "char \<Rightarrow> bool" where
  "isSpace c = (c \<in> {CHR 0x09, CHR 0x0A, CHR 0x0B, CHR 0x0C, CHR 0x0D, CHR 0x20, CHR 0xA0})"

definition trim :: "string \<Rightarrow> string" where
  "trim s = rev (dropWhile isSpace (rev (dropWhile isSpace s)))"

text \<open>\<open>s.split(sep)\<close> for a separator of one character.\<close>

fun splitOn :: "char \<Rightarrow> string \<Rightarrow> string list" where
  "splitOn sep [] = [[]]"
| "splitOn sep (c # cs) =
     (if c = sep then [] # splitOn sep cs
      else (case splitOn sep cs of [] \<Rightarrow> [[c]] | l # ls \<Rightarrow> (c # l) # ls))"

text \<open>\<open>xs.join(sep)\<close>.\<close>

fun joinWith :: "string \<Rightarrow> string list \<Rightarrow> string" where
  "joinWith sep [] = []"
| "joinWith sep [x] = x"
| "joinWith sep (x # y # ys) = x @ sep @ joinWith sep (y # ys)"

text \<open>A string slot in a template literal; an absent property prints as \<open>undefined\<close>.\<close>

definition templateStr :: "string option \<Rightarrow> string" where
  "templateStr s = (case s of None \<Rightarrow> ''undefined'' | Some t \<Rightarrow> t)"

text \<open>\<open>v || ''\<close> in a template literal, on a numeric and on a string slot.\<close>

definition numOrEmpty :: "(real \<Rightarrow> string) \<Rightarrow> jsnum \<Rightarrow> string" where
  "numOrEmpty numToString v = (if truthy v then template numToString v else [])"

definition strOrEmpty :: "string option \<Rightarrow> string" where
  "strOrEmpty s = (if truthyStr s then the s else [])"

definition yesNo :: "bool \<Rightarrow> string" where
  "yesNo b = (if b then ''YES'' else ''NO'')"

text \<open>One line of the file: every field between double quotes, commas between the fields.\<close>

definition quoted :: "string \<Rightarrow> string" where
  "quoted f = dquote # f @ [dquote]"

definition rowLine :: "string list \<Rightarrow> string" where
  "rowLine cols = joinWith '','' (map quoted cols)"

definition csvRow :: "string list \<Rightarrow> string" where
  "csvRow cols = rowLine cols @ [newline]"

text \<open>
  A version holds four collections; each is given by its \<open>Object.values\<close>, an absent
  collection by the empty list.
\<close>

record version =
  manufacturers :: "manufacturer list"
  productLines :: "productLine list"
  products :: "product list"
  addons :: "addon list"

text \<open>The fields of the row of each kind of entity, in the order of the template literal.\<close>

definition manufacturerCols :: "manufacturer \<Rightarrow> string list" where
  "manufacturerCols m = [m_id m, m_name m]"

definition productLineCols :: "productLine \<Rightarrow> string list" where
  "productLineCols pl = [pl_id pl, pl_manufacturerId pl, pl_name pl]"

definition productCols :: "(real \<Rightarrow> string) \<Rightarrow> product \<Rightarrow> string list" where
  "productCols numToString p =
            [p_id p, templateStr (p_productLineId p), templateStr (p_productType p),
             templateStr (p_productTypeCode p), p_name p, templateStr (p_pricingModel p),
             numOrEmpty numToString (p_uiRate p), numOrEmpty numToString (p_flatPrice p),
             template numToString (p_minimumUI p), numOrEmpty numToString (p_maximumUI p)]"

definition addonCols :: "(real \<Rightarrow> string) \<Rightarrow> addon \<Rightarrow> string list" where
  "addonCols numToString a =
            [a_id a, a_name a, a_pricingModel a,
             numOrEmpty numToString (a_uiRate a), numOrEmpty numToString (a_flatPrice a),
             strOrEmpty (a_exclusiveGroup a),
             yesNo (a_mandatory a), yesNo (a_hiddenFromCustomer a), yesNo (a_isJobBased a),
             joinWith ''; '' (case a_allowedProductTypes a of None \<Rightarrow> [] | Some xs \<Rightarrow> xs),
             joinWith ''; '' (case a_allowedProductLines a of None \<Rightarrow> [] | Some xs \<Rightarrow> xs),
             numOrEmpty numToString (a_minSize a), numOrEmpty numToString (a_maxSize a)]"

text \<open>The line of column titles of each section.\<close>

definition manufacturerTitles :: string where
  "manufacturerTitles = ''ID,Name''"

definition productLineTitles :: string where
  "productLineTitles = ''ID,Manufacturer ID,Name''"

definition productTitles :: string where
  "productTitles =
     ''ID,Product Line ID,Product Type,Type Code,Name,Pricing Model,UI Rate,Flat Price,Minimum UI,Maximum UI''"

definition addonTitles :: string where
  "addonTitles =
     ''ID,Name,Pricing Model,UI Rate,Flat Price,Exclusive Group,Mandatory,Hidden From Customer,Job Based,Allowed Product Types,Allowed Product Lines,Min Size,Max Size''"

text \<open>The text \<open>exportAsCSV\<close> hands to the download.\<close>

definition exportAsCSV :: "(real \<Rightarrow> string) \<Rightarrow> version \<Rightarrow> string" where
  "exportAsCSV numToString v =
     ''MANUFACTURERS'' @ [newline] @ manufacturerTitles @ [newline]
     @ concat (map (\<lambda>m. csvRow (manufacturerCols m)) (manufacturers v)) @ [newline]
     @ ''PRODUCT LINES'' @ [newline] @ productLineTitles @ [newline]
     @ concat (map (\<lambda>pl. csvRow (productLineCols pl)) (productLines v)) @ [newline]
     @ ''PRODUCTS'' @ [newline] @ productTitles @ [newline]
     @ concat (map (\<lambda>p. csvRow (productCols numToString p)) (products v)) @ [newline]
     @ ''ADDONS'' @ [newline] @ addonTitles @ [newline]
     @ concat (map (\<lambda>a. csvRow (addonCols numToString a)) (addons v))"

text \<open>\<open>parseCSVLine\<close>: the loop over the characters, then the removal of quotes.\<close>

fun scanCSV :: "string \<Rightarrow> string list \<Rightarrow> string \<Rightarrow> bool \<Rightarrow> string list" where
  "scanCSV [] vals current inQuotes = vals @ [trim current]"
| "scanCSV (c # cs) vals current inQuotes =
     (if c = dquote then scanCSV cs vals current (\<not> inQuotes)
      else if c = CHR '','' \<and> \<not> inQuotes then scanCSV cs (vals @ [trim current]) [] inQuotes
      else scanCSV cs vals (current @ [c]) inQuotes)"

definition parseCSVLine :: "string \<Rightarrow> string list" where
  "parseCSVLine line = map (filter (\<lambda>c. c \<noteq> dquote)) (scanCSV line [] [] False)"

text \<open>
  The collections of the imported data are plain objects, created by \<open>{}\<close>. Of such an
  object the model keeps the own properties and what an assignment has made its prototype
  (\<open>None\<close>: still \<open>Object.prototype\<close>).
\<close>

record 'v plainObject =
  own :: "string \<rightharpoonup> 'v"
  proto :: "'v option"

definition emptyObject :: "'v plainObject" where
  "emptyObject = \<lparr>own = Map.empty, proto = None\<rparr>"

text \<open>
  \<open>obj[key] = v\<close> for an object \<open>v\<close>. The key \<open>__proto__\<close> is the accessor that a plain
  object inherits from \<open>Object.prototype\<close>: its setter makes \<open>v\<close> the prototype of
  \<open>obj\<close> and adds no property. Every other key becomes, or updates, an own property.
\<close>

definition assign :: "'v plainObject \<Rightarrow> string \<Rightarrow> 'v \<Rightarrow> 'v plainObject" where
  "assign obj key v =
     (if key = ''__proto__'' then obj\<lparr>proto := Some v\<rparr>
      else obj\<lparr>own := (own obj)(key \<mapsto> v)\<rparr>)"

record catalogData =
  d_manufacturers :: "manufacturer plainObject"
  d_productLines :: "productLine plainObject"
  d_products :: "product plainObject"
  d_addons :: "addon plainObject"

datatype csvSection = InManufacturers | InProductLines | InProducts | InAddons

text \<open>\<open>values[k]\<close>: \<open>None\<close> is \<open>undefined\<close>.\<close>

definition valueAt :: "string list \<Rightarrow> nat \<Rightarrow> string option" where
  "valueAt vals k = (if k < length vals then Some (vals ! k) else None)"

text \<open>
  \<open>toUpperCase\<close> on the letters a to z. Among the other code units below 256 that it
  changes, only the sharp s yields one of Y, E, S, as \<open>SS\<close>, and \<open>YES\<close> has a single
  S: the comparison with \<open>YES\<close> is exact.
\<close>

definition upperChar :: "char \<Rightarrow> char" where
  "upperChar c =
     (case positionFrom 0 c ''abcdefghijklmnopqrstuvwxyz'' of
        None \<Rightarrow> c
      | Some k \<Rightarrow> ''ABCDEFGHIJKLMNOPQRSTUVWXYZ'' ! k)"

definition isYes :: "string \<Rightarrow> bool" where
  "isYes s = (map upperChar s = ''YES'')"

text \<open>\<open>parseInt(values[k])\<close> and \<open>parseFloat(values[k])\<close>: \<open>undefined\<close> parses to \<open>NaN\<close>.\<close>

definition parseAt :: "(string \<Rightarrow> jsnum) \<Rightarrow> string list \<Rightarrow> nat \<Rightarrow> jsnum" where
  "parseAt parse vals k = (case valueAt vals k of None \<Rightarrow> NaN | Some s \<Rightarrow> parse s)"

definition importProduct ::
  "(string \<Rightarrow> jsnum) \<Rightarrow> (string \<Rightarrow> jsnum) \<Rightarrow> string list \<Rightarrow> product" where
  "importProduct parseFloat parseInt vals =
     \<lparr>p_id = vals ! 0,
      p_productLineId = Some (vals ! 1),
      p_productLine = None,
      p_productType = Some (vals ! 2),
      p_type = None,
      p_productTypeCode = Some (vals ! 3),
      p_name = vals ! 4,
      p_pricingModel = valueAt vals 5,
      p_uiRate = (if valueAt vals 5 = Some ''UI'' \<and> truthyStr (valueAt vals 6)
                  then parseAt parseFloat vals 6 else Undefined),
      p_flatPrice = (if valueAt vals 5 = Some ''FLAT'' \<and> truthyStr (valueAt vals 7)
                     then parseAt parseFloat vals 7 else Undefined),
      p_minimumUI = Num (orZero (parseAt parseInt vals 8)),
      p_maximumUI = (if truthyStr (valueAt vals 9) then parseAt parseInt vals 9 else Null),
      p_sizeLimits = None,
      p_allowedAddons = None\<rparr>"

text \<open>\<open>v ? v.split(';').map(t => t.trim()).filter(t => t) : null\<close>.\<close>

definition importList :: "string option \<Rightarrow> string list option" where
  "importList v =
     (if truthyStr v
      then Some (filter (\<lambda>t. t \<noteq> []) (map trim (splitOn CHR '';'' (the v))))
      else None)"

text \<open>
  An addon row reads \<open>values[6].toUpperCase()\<close> to \<open>values[8].toUpperCase()\<close>: with fewer
  than nine values that is a call on \<open>undefined\<close>, a \<open>TypeError\<close>.
\<close>

definition importAddon ::
  "(string \<Rightarrow> jsnum) \<Rightarrow> string list \<Rightarrow> error + addon" where
  "importAddon parseFloat vals =
     (if length vals < 9 then Inl TypeError
      else Inr
        \<lparr>a_id = vals ! 0,
         a_name = vals ! 1,
         a_pricingModel = vals ! 2,
         a_uiRate = (if vals ! 2 = ''UI'' \<and> vals ! 3 \<noteq> []
                     then parseFloat (vals ! 3) else Undefined),
         a_flatPrice = (if vals ! 2 = ''FLAT'' \<and> vals ! 4 \<noteq> []
                        then parseFloat (vals ! 4) else Undefined),
         a_exclusiveGroup = (if vals ! 5 \<noteq> [] then Some (vals ! 5) else None),
         a_mandatory = isYes (vals ! 6),
         a_hiddenFromCustomer = isYes (vals ! 7),
         a_isJobBased = isYes (vals ! 8),
         a_allowedProductTypes = importList (valueAt vals 9),
         a_allowedProductLines = importList (valueAt vals 10),
         a_minSize = (if truthyStr (valueAt vals 11) then parseAt parseFloat vals 11 else Null),
         a_maxSize = (if truthyStr (valueAt vals 12) then parseAt parseFloat vals 12 else Null)\<rparr>)"

text \<open>
  One data line, by the current section; a line that is too short is ignored. The entity
  is assigned to the collection under its id.
\<close>

definition importRow ::
  "(string \<Rightarrow> jsnum) \<Rightarrow> (string \<Rightarrow> jsnum) \<Rightarrow> csvSection option \<Rightarrow> string list
     \<Rightarrow> catalogData \<Rightarrow> error + catalogData" where
  "importRow parseFloat parseInt currentSection vals d =
     (if currentSection = Some InManufacturers \<and> length vals \<ge> 2
      then Inr (d\<lparr>d_manufacturers :=
                   assign (d_manufacturers d) (vals ! 0) \<lparr>m_id = vals ! 0, m_name = vals ! 1\<rparr>\<rparr>)
      else if currentSection = Some InProductLines \<and> length vals \<ge> 3
      then Inr (d\<lparr>d_productLines :=
                   assign (d_productLines d) (vals ! 0)
                     \<lparr>pl_id = vals ! 0, pl_manufacturerId = vals ! 1, pl_name = vals ! 2\<rparr>\<rparr>)
      else if currentSection = Some InProducts \<and> length vals \<ge> 5
      then Inr (d\<lparr>d_products :=
                   assign (d_products d) (vals ! 0) (importProduct parseFloat parseInt vals)\<rparr>)
      else if currentSection = Some InAddons \<and> length vals \<ge> 4
      then (case importAddon parseFloat vals of
              Inl e \<Rightarrow> Inl e
            | Inr a \<Rightarrow> Inr (d\<lparr>d_addons := assign (d_addons d) (a_id a) a\<rparr>))
      else Inr d)"

text \<open>
  The loop over the lines. A section header also consumes the line after it (the column
  titles); an empty line is skipped.
\<close>

fun importLines ::
  "(string \<Rightarrow> jsnum) \<Rightarrow> (string \<Rightarrow> jsnum) \<Rightarrow> csvSection option \<Rightarrow> catalogData
     \<Rightarrow> string list \<Rightarrow> error + catalogData" where
  "importLines parseFloat parseInt currentSection d [] = Inr d"
| "importLines parseFloat parseInt currentSection d (raw # rest) =
     (if trim raw = ''MANUFACTURERS''
      then importLines parseFloat parseInt (Some InManufacturers) d (drop 1 rest)
      else if trim raw = ''PRODUCT LINES''
      then importLines parseFloat parseInt (Some InProductLines) d (drop 1 rest)
      else if trim raw = ''PRODUCTS''
      then importLines parseFloat parseInt (Some InProducts) d (drop 1 rest)
      else if trim raw = ''ADDONS''
      then importLines parseFloat parseInt (Some InAddons) d (drop 1 rest)
      else if trim raw = []
      then importLines parseFloat parseInt currentSection d rest
      else (case importRow parseFloat parseInt currentSection (parseCSVLine (trim raw)) d of
              Inl e \<Rightarrow> Inl e
            | Inr d' \<Rightarrow> importLines parseFloat parseInt currentSection d' rest))"

definition emptyData :: catalogData where
  "emptyData = \<lparr>d_manufacturers = emptyObject, d_productLines = emptyObject,
                 d_products = emptyObject, d_addons = emptyObject\<rparr>"

definition importFromCSV ::
  "(string \<Rightarrow> jsnum) \<Rightarrow> (string \<Rightarrow> jsnum) \<Rightarrow> string \<Rightarrow> error + catalogData" where
  "importFromCSV parseFloat parseInt content =
     importLines parseFloat parseInt None emptyData (splitOn newline (trim content))"

section \<open>A decimal instance of the number conversions\<close>

text \<open>
  The conversions between numbers and strings belong to the JavaScript runtime; the
  functions that use them take them as parameters. On natural numbers they are plain
  decimal notation, which this instance implements: it serves to run the functions on
  concrete inputs.
\<close>

definition digitChar :: "nat \<Rightarrow> char" where
  "digitChar d = ''0123456789'' ! d"

function natString :: "nat \<Rightarrow> string" where
  "natString n =
     (if n < 10 then [digitChar n] else natString (n div 10) @ [digitChar (n mod 10)])"
  by pat_completeness auto
termination
  by (relation "measure id") auto

declare natString.simps [simp del]

definition decimalString :: "real \<Rightarrow> string" where
  "decimalString x = natString (nat \<lfloor>x\<rfloor>)"

definition digitVal :: "char \<Rightarrow> nat option" where
  "digitVal c = positionFrom 0 c ''0123456789''"

fun digitsValue :: "nat \<Rightarrow> string \<Rightarrow> nat option" where
  "digitsValue n [] = Some n"
| "digitsValue n (c # cs) =
     (case digitVal c of None \<Rightarrow> None | Some d \<Rightarrow> digitsValue (10 * n + d) cs)"

definition parseDecimal :: "string \<Rightarrow> jsnum" where
  "parseDecimal s =
     (if s = [] then NaN
      else case digitsValue 0 s of None \<Rightarrow> NaN | Some n \<Rightarrow> Num (real n))"

section \<open>Notions used in the statements\<close>

definition jsSum :: "jsnum list \<Rightarrow> jsnum" where
  "jsSum vs = (if list_all (\<lambda>v. toNumber v \<noteq> None) vs
               then Num (\<Sum>v\<leftarrow>vs. the (toNumber v)) else NaN)"

text \<open>The sum of a list taken from the left, starting from \<open>acc\<close>, every addition rounded.\<close>
fun sumFrom :: "real \<Rightarrow> real list \<Rightarrow> real" where
  "sumFrom acc [] = acc"
| "sumFrom acc (x # xs) = sumFrom (double (acc + x)) xs"

text \<open>No addition of that sum rounds: every partial sum is a double.\<close>
fun exactFrom :: "real \<Rightarrow> real list \<Rightarrow> bool" where
  "exactFrom acc [] = True"
| "exactFrom acc (x # xs) = (double (acc + x) = acc + x \<and> exactFrom (acc + x) xs)"

text \<open>The numbers \<open>calculateQuote\<close> adds: the par totals and the job-based addon prices.\<close>
definition parValues :: "lineItem list \<Rightarrow> real list" where
  "parValues lineItems = map (\<lambda>item. the (toNumber (lineItemParTotal item))) lineItems"

definition jobValues :: "jobAddon list \<Rightarrow> real list" where
  "jobValues jobAddons = map (\<lambda>a. orZero (jb_price a)) jobAddons"

text \<open>The par total: \<open>NaN\<close> as soon as one \<open>lineItemParTotal\<close> is not a number.\<close>
definition parTotal :: "lineItem list \<Rightarrow> jsnum" where
  "parTotal lineItems =
     (if list_all (\<lambda>item. toNumber (lineItemParTotal item) \<noteq> None) lineItems
      then Num (sumFrom 0 (parValues lineItems)) else NaN)"

text \<open>The final price: par total plus job-addon total plus uplift, in that order.\<close>
definition quoteFinal :: "lineItem list \<Rightarrow> jobAddon list \<Rightarrow> real \<Rightarrow> jsnum" where
  "quoteFinal lineItems jobAddons uplift =
     dbl_add (dbl_add (parTotal lineItems) (Num (sumFrom 0 (jobValues jobAddons)))) (Num uplift)"

text \<open>Every par total is a number and no addition of the call rounds.\<close>
definition exactQuote :: "lineItem list \<Rightarrow> jobAddon list \<Rightarrow> real \<Rightarrow> bool" where
  "exactQuote lineItems jobAddons uplift \<longleftrightarrow>
     list_all (\<lambda>item. toNumber (lineItemParTotal item) \<noteq> None) lineItems
     \<and> exactFrom 0 (parValues lineItems) \<and> exactFrom 0 (jobValues jobAddons)
     \<and> double (sum_list (parValues lineItems) + sum_list (jobValues jobAddons))
         = sum_list (parValues lineItems) + sum_list (jobValues jobAddons)
     \<and> double (sum_list (parValues lineItems) + sum_list (jobValues jobAddons) + uplift)
         = sum_list (parValues lineItems) + sum_list (jobValues jobAddons) + uplift"

fun acceptedAddons ::
  "product \<Rightarrow> real \<Rightarrow> (string \<rightharpoonup> addon) \<Rightarrow> string list \<Rightarrow> (string \<times> addon) list" where
  "acceptedAddons product u allAddons [] = []"
| "acceptedAddons product u allAddons (i # rest) =
     (case allAddons i of
        None \<Rightarrow> acceptedAddons product u allAddons rest
      | Some a \<Rightarrow>
          if isAddonAllowed a product u
          then (i, a) # acceptedAddons product u allAddons rest
          else acceptedAddons product u allAddons rest)"

definition appliedEntry :: "real \<Rightarrow> string \<times> addon \<Rightarrow> appliedAddon" where
  "appliedEntry effectiveUI ia =
     \<lparr>aa_id = fst ia, aa_name = a_name (snd ia),
      aa_price = addonPrice effectiveUI (snd ia),
      aa_hidden = a_hiddenFromCustomer (snd ia)\<rparr>"

definition declaredGroup :: "addon \<Rightarrow> string list" where
  "declaredGroup a =
     (if truthyStr (a_exclusiveGroup a) then [the (a_exclusiveGroup a)] else [])"

definition acceptedGroups :: "(string \<times> addon) list \<Rightarrow> string list" where
  "acceptedGroups ias = concat (map (\<lambda>ia. declaredGroup (snd ia)) ias)"

fun firstRepeat :: "'a set \<Rightarrow> 'a list \<Rightarrow> 'a option" where
  "firstRepeat seen [] = None"
| "firstRepeat seen (x # xs) =
     (if x \<in> seen then Some x else firstRepeat (insert x seen) xs)"

text \<open>A limit is violated from below (above) when it is a non-zero number and the value is
  smaller (larger).\<close>
definition belowLimit :: "real \<Rightarrow> jsnum \<Rightarrow> bool" where
  "belowLimit v bound = (case bound of Num x \<Rightarrow> x \<noteq> 0 \<and> v < x | _ \<Rightarrow> False)"

definition aboveLimit :: "real \<Rightarrow> jsnum \<Rightarrow> bool" where
  "aboveLimit v bound = (case bound of Num x \<Rightarrow> x \<noteq> 0 \<and> x < v | _ \<Rightarrow> False)"

definition wfHeap :: "heap \<Rightarrow> bool" where
  "wfHeap h = (\<forall>a. fresh h \<le> a \<longrightarrow> cells h a = None)"

text \<open>Two cell maps agree on the addresses from \<open>lo\<close> up to (excluding) \<open>hi\<close>.\<close>
definition agree :: "(addr \<rightharpoonup> cell) \<Rightarrow> (addr \<rightharpoonup> cell) \<Rightarrow> addr \<Rightarrow> addr \<Rightarrow> bool" where
  "agree cs cs' lo hi = (\<forall>a. lo \<le> a \<and> a < hi \<longrightarrow> cs' a = cs a)"

text \<open>What an allocator paired with a reader guarantees.\<close>
definition allocates ::
  "(heap \<Rightarrow> 'v \<Rightarrow> addr \<times> heap) \<Rightarrow> ((addr \<rightharpoonup> cell) \<Rightarrow> addr \<Rightarrow> 'v option) \<Rightarrow> bool" where
  "allocates alloc rd =
     (\<forall>h v r h'. alloc h v = (r, h') \<longrightarrow>
        fresh h \<le> r \<and> r < fresh h' \<and> fresh h \<le> fresh h'
        \<and> (\<forall>a. a < fresh h \<longrightarrow> cells h' a = cells h a)
        \<and> (\<forall>cs'. agree (cells h') cs' (fresh h) (fresh h') \<longrightarrow> rd cs' r = Some v))"

text \<open>No numeric field of the line items is \<open>NaN\<close>.\<close>
definition nanFree :: "lineItem \<Rightarrow> bool" where
  "nanFree li \<longleftrightarrow> basePrice li \<noteq> NaN \<and> addonTotal li \<noteq> NaN \<and> lineItemParTotal li \<noteq> NaN
      \<and> list_all (\<lambda>e. aa_price e \<noteq> NaN) (appliedAddons li)"

text \<open>A string that survives a quoted CSV field: no double quote, no line feed, and
  nothing for \<open>trim\<close> to remove.\<close>
definition plain :: "string \<Rightarrow> bool" where
  "plain s \<longleftrightarrow> dquote \<notin> set s \<and> newline \<notin> set s \<and> trim s = s"

text \<open>The lines of a text, each ended by a line feed.\<close>
definition unlines :: "string list \<Rightarrow> string" where
  "unlines ls = concat (map (\<lambda>l. l @ [newline]) ls)"

text \<open>A number whose printed form is a plain, non-empty string that parses back to it.\<close>
definition printsBack :: "(real \<Rightarrow> string) \<Rightarrow> (string \<Rightarrow> jsnum) \<Rightarrow> jsnum \<Rightarrow> bool" where
  "printsBack numToString parse v =
     (case v of
        Num x \<Rightarrow> parse (numToString x) = Num x \<and> plain (numToString x) \<and> numToString x \<noteq> []
      | _ \<Rightarrow> False)"

text \<open>An element of a restriction list that survives \<open>join('; ')\<close> and \<open>split(';')\<close>.\<close>
definition listItem :: "string \<Rightarrow> bool" where
  "listItem t \<longleftrightarrow> plain t \<and> t \<noteq> [] \<and> CHR '';'' \<notin> set t"

text \<open>An id that an assignment stores as an own property.\<close>
definition ownKey :: "string \<Rightarrow> bool" where
  "ownKey k \<longleftrightarrow> k \<noteq> ''__proto__''"

definition cleanManufacturer :: "manufacturer \<Rightarrow> bool" where
  "cleanManufacturer m \<longleftrightarrow> plain (m_id m) \<and> ownKey (m_id m) \<and> plain (m_name m)"

definition cleanProductLine :: "productLine \<Rightarrow> bool" where
  "cleanProductLine pl \<longleftrightarrow>
     plain (pl_id pl) \<and> ownKey (pl_id pl) \<and> plain (pl_manufacturerId pl) \<and> plain (pl_name pl)"

definition presentPlain :: "string option \<Rightarrow> bool" where
  "presentPlain s = (case s of None \<Rightarrow> False | Some t \<Rightarrow> plain t)"

text \<open>
  A minimum UI that is a number prints to text that \<open>parseInt\<close> reads back; for one that
  is not, \<open>parseInt\<close> finds no number in the word it prints as.
\<close>
definition cleanMinimumUI ::
  "(real \<Rightarrow> string) \<Rightarrow> (string \<Rightarrow> jsnum) \<Rightarrow> jsnum \<Rightarrow> bool" where
  "cleanMinimumUI numToString parseInt v =
     (case v of
        Num x \<Rightarrow> printsBack numToString parseInt (Num x)
      | _ \<Rightarrow> \<not> truthy (parseInt (template numToString v)))"

definition cleanProduct ::
  "(real \<Rightarrow> string) \<Rightarrow> (string \<Rightarrow> jsnum) \<Rightarrow> (string \<Rightarrow> jsnum) \<Rightarrow> product \<Rightarrow> bool" where
  "cleanProduct numToString parseFloat parseInt p \<longleftrightarrow>
     plain (p_id p) \<and> ownKey (p_id p) \<and> plain (p_name p)
     \<and> presentPlain (p_productLineId p) \<and> presentPlain (p_productType p)
     \<and> presentPlain (p_productTypeCode p) \<and> presentPlain (p_pricingModel p)
     \<and> (if truthy (p_uiRate p)
         then p_pricingModel p = Some ''UI'' \<and> printsBack numToString parseFloat (p_uiRate p)
         else True)
     \<and> (if truthy (p_flatPrice p)
         then p_pricingModel p = Some ''FLAT'' \<and> printsBack numToString parseFloat (p_flatPrice p)
         else True)
     \<and> cleanMinimumUI numToString parseInt (p_minimumUI p)
     \<and> (if truthy (p_maximumUI p) then printsBack numToString parseInt (p_maximumUI p) else True)"

definition cleanList :: "string list option \<Rightarrow> bool" where
  "cleanList l = (case l of None \<Rightarrow> True | Some xs \<Rightarrow> list_all listItem xs)"

definition cleanAddon :: "(real \<Rightarrow> string) \<Rightarrow> (string \<Rightarrow> jsnum) \<Rightarrow> addon \<Rightarrow> bool" where
  "cleanAddon numToString parseFloat a \<longleftrightarrow>
     plain (a_id a) \<and> ownKey (a_id a) \<and> plain (a_name a) \<and> plain (a_pricingModel a)
     \<and> plain (strOrEmpty (a_exclusiveGroup a))
     \<and> (if truthy (a_uiRate a)
         then a_pricingModel a = ''UI'' \<and> printsBack numToString parseFloat (a_uiRate a)
         else True)
     \<and> (if truthy (a_flatPrice a)
         then a_pricingModel a = ''FLAT'' \<and> printsBack numToString parseFloat (a_flatPrice a)
         else True)
     \<and> cleanList (a_allowedProductTypes a) \<and> cleanList (a_allowedProductLines a)
     \<and> (if truthy (a_minSize a) then printsBack numToString parseFloat (a_minSize a) else True)
     \<and> (if truthy (a_maxSize a) then printsBack numToString parseFloat (a_maxSize a) else True)"

definition cleanVersion ::
  "(real \<Rightarrow> string) \<Rightarrow> (string \<Rightarrow> jsnum) \<Rightarrow> (string \<Rightarrow> jsnum) \<Rightarrow> version \<Rightarrow> bool" where
  "cleanVersion numToString parseFloat parseInt v \<longleftrightarrow>
     list_all cleanManufacturer (manufacturers v) \<and> distinct (map m_id (manufacturers v))
     \<and> list_all cleanProductLine (productLines v) \<and> distinct (map pl_id (productLines v))
     \<and> list_all (cleanProduct numToString parseFloat parseInt) (products v)
     \<and> distinct (map p_id (products v))
     \<and> list_all (cleanAddon numToString parseFloat) (addons v)
     \<and> distinct (map a_id (addons v))"

text \<open>What the file keeps of a numeric slot: a falsy value comes back as the default.\<close>
definition keptNum :: "jsnum \<Rightarrow> jsnum \<Rightarrow> jsnum" where
  "keptNum dflt v = (if truthy v then v else dflt)"

definition keptList :: "string list option \<Rightarrow> string list option" where
  "keptList l = (case l of Some (x # xs) \<Rightarrow> Some (x # xs) | _ \<Rightarrow> None)"

text \<open>What the file keeps of a product and of an addon. A minimum UI that is not a number
  comes back as 0.\<close>
definition keptProduct :: "product \<Rightarrow> product" where
  "keptProduct p =
     p\<lparr>p_productLine := None, p_type := None,
       p_uiRate := keptNum Undefined (p_uiRate p),
       p_flatPrice := keptNum Undefined (p_flatPrice p),
       p_minimumUI := Num (orZero (p_minimumUI p)),
       p_maximumUI := keptNum Null (p_maximumUI p),
       p_sizeLimits := None, p_allowedAddons := None\<rparr>"

definition keptAddon :: "addon \<Rightarrow> addon" where
  "keptAddon a =
     a\<lparr>a_uiRate := keptNum Undefined (a_uiRate a),
       a_flatPrice := keptNum Undefined (a_flatPrice a),
       a_exclusiveGroup := (if truthyStr (a_exclusiveGroup a) then a_exclusiveGroup a else None),
       a_allowedProductTypes := keptList (a_allowedProductTypes a),
       a_allowedProductLines := keptList (a_allowedProductLines a),
       a_minSize := keptNum Null (a_minSize a),
       a_maxSize := keptNum Null (a_maxSize a)\<rparr>"

text \<open>The map after storing the entities of a list under their keys, in order.\<close>
definition putAll :: "('e \<Rightarrow> 'k) \<Rightarrow> ('e \<Rightarrow> 'v) \<Rightarrow> ('k \<rightharpoonup> 'v) \<Rightarrow> 'e list \<Rightarrow> ('k \<rightharpoonup> 'v)" where
  "putAll key val f0 es = foldl (\<lambda>f e. f(key e \<mapsto> val e)) f0 es"

text \<open>The lines of the exported text.\<close>
definition exportLines :: "(real \<Rightarrow> string) \<Rightarrow> version \<Rightarrow> string list" where
  "exportLines ns v =
     [''MANUFACTURERS'', manufacturerTitles]
     @ map (\<lambda>m. rowLine (manufacturerCols m)) (manufacturers v) @ [[]]
     @ [''PRODUCT LINES'', productLineTitles]
     @ map (\<lambda>pl. rowLine (productLineCols pl)) (productLines v) @ [[]]
     @ [''PRODUCTS'', productTitles]
     @ map (\<lambda>p. rowLine (productCols ns p)) (products v) @ [[]]
     @ [''ADDONS'', addonTitles]
     @ map (\<lambda>a. rowLine (addonCols ns a)) (addons v)"

section \<open>Example data\<close>

definition exProduct :: product where
  "exProduct = \<lparr>p_id = ''p1'', p_productLineId = Some ''l1'', p_productLine = None,
     p_productType = Some ''Window'', p_type = None, p_productTypeCode = Some ''SH'',
     p_name = ''Single Hung'', p_pricingModel = Some ''UI'', p_uiRate = Num 10,
     p_flatPrice = Undefined, p_minimumUI = Num 0, p_maximumUI = Null,
     p_sizeLimits = None, p_allowedAddons = Some [''lock'']\<rparr>"

definition exAddon :: addon where
  "exAddon = \<lparr>a_id = ''grid'', a_name = ''Grids'', a_pricingModel = ''UI'', a_uiRate = Num 2,
     a_flatPrice = Undefined, a_exclusiveGroup = None, a_mandatory = False,
     a_hiddenFromCustomer = False, a_isJobBased = False, a_allowedProductTypes = None,
     a_allowedProductLines = None, a_minSize = Null, a_maxSize = Num 55\<rparr>"

definition exLineItem :: lineItem where
  "exLineItem = \<lparr>ui = 50, basePrice = Num 500, addonTotal = Num 0,
     lineItemParTotal = Num 500, appliedAddons = []\<rparr>"

definition exGlass :: "string \<rightharpoonup> addon" where
  "exGlass = [''clear'' \<mapsto> exAddon\<lparr>a_id := ''clear'', a_exclusiveGroup := Some ''glass''\<rparr>,
              ''tempered'' \<mapsto> exAddon\<lparr>a_id := ''tempered'', a_exclusiveGroup := Some ''glass''\<rparr>,
              ''oak'' \<mapsto> exAddon\<lparr>a_id := ''oak'', a_exclusiveGroup := Some ''frame''\<rparr>,
              ''pine'' \<mapsto> exAddon\<lparr>a_id := ''pine'', a_exclusiveGroup := Some ''frame''\<rparr>]"

definition exLock :: addon where
  "exLock = \<lparr>a_id = ''lock'', a_name = ''Lock'', a_pricingModel = ''FLAT'',
     a_uiRate = Undefined, a_flatPrice = Num 25, a_exclusiveGroup = None, a_mandatory = True,
     a_hiddenFromCustomer = True, a_isJobBased = False, a_allowedProductTypes = Some [''Window''],
     a_allowedProductLines = None, a_minSize = Null, a_maxSize = Null\<rparr>"

definition exLimits :: sizeLimits where
  "exLimits = \<lparr>minWidth = Num 20, maxWidth = Num 40, minHeight = Num 30, maxHeight = Undefined\<rparr>"

definition exHeap :: heap where
  "exHeap = \<lparr>cells =
       [0 \<mapsto> AppliedCell \<lparr>aa_id = ''lock'', aa_name = ''Lock'', aa_price = Num 25, aa_hidden = True\<rparr>,
        1 \<mapsto> ArrayCell [0],
        2 \<mapsto> LineItemCell \<lparr>o_ui = 50, o_basePrice = Num 500, o_addonTotal = Num 25,
               o_lineItemParTotal = Num 525, o_appliedAddons = 1\<rparr>,
        3 \<mapsto> ArrayCell [2]],
     fresh = 4\<rparr>"

definition exStored :: lineItem where
  "exStored = \<lparr>ui = 50, basePrice = Num 500, addonTotal = Num 25, lineItemParTotal = Num 525,
     appliedAddons = [\<lparr>aa_id = ''lock'', aa_name = ''Lock'', aa_price = Num 25, aa_hidden = True\<rparr>]\<rparr>"

definition exVersion :: version where
  "exVersion = \<lparr>manufacturers = [\<lparr>m_id = ''m1'', m_name = ''Andersen, Inc''\<rparr>],
     productLines = [\<lparr>pl_id = ''l1'', pl_manufacturerId = ''m1'', pl_name = ''400 Series''\<rparr>],
     products = [exProduct],
     addons = [exLock, exAddon]\<rparr>"

definition exQuoted :: version where
  "exQuoted = \<lparr>manufacturers = [\<lparr>m_id = ''m1'', m_name = ''Acme '' @ quoted ''Pro''\<rparr>],
     productLines = [], products = [], addons = []\<rparr>"

definition exNaNHeap :: heap where
  "exNaNHeap = \<lparr>cells =
       [0 \<mapsto> ArrayCell [],
        1 \<mapsto> LineItemCell \<lparr>o_ui = 50, o_basePrice = NaN, o_addonTotal = Num 0,
               o_lineItemParTotal = NaN, o_appliedAddons = 0\<rparr>,
        2 \<mapsto> ArrayCell [1]],
     fresh = 3\<rparr>"

section \<open>Properties\<close>

subsection \<open>Evaluation rules\<close>

lemmas js_simps = js_add_def js_mul_def dbl_add_def js_lt_def js_gt_def orZero_def truthyStr_def
  orStr_def
lemmas engine_simps = calculateLineItem_def calculateUI_def allAddonIds_def mandatoryAddonIds_def
  isMandatory_def dedup_def emptyAcc_def isAddonAllowed_def restrictionOk_def addonPrice_def Let_def

lemmas ex_simps = engine_simps js_simps exProduct_def exAddon_def exGlass_def

lemmas runtime_simps = decimalString_def natString.simps digitChar_def parseDecimal_def digitVal_def
lemmas heap_simps = readLineItems_def readLineItem_def readAppliedArray_def readApplied_def
  allocLineItems_def allocLineItem_def allocApplied_def newCell_def jsonLineItem_def jsonNum_def

lemmas plain_simps = plain_def trim_def isSpace_def dquote_def newline_def

subsection \<open>calculateUI\<close>

text \<open>
  Claim C8. For width and height that are not negative, \<open>calculateUI\<close> is the ceiling of
  their sum: an integer, the least one not below the sum, never below 0, and monotonically
  non-decreasing in each argument.
\<close>

theorem calculateUI_ceiling:
  assumes "0 \<le> w" and "0 \<le> h"
  shows "calculateUI w h = of_int \<lceil>w + h\<rceil>
       \<and> calculateUI w h \<in> \<int>
       \<and> w + h \<le> calculateUI w h \<and> calculateUI w h < w + h + 1
       \<and> 0 \<le> calculateUI w h
       \<and> (\<forall>w'. w \<le> w' \<longrightarrow> calculateUI w h \<le> calculateUI w' h)
       \<and> (\<forall>h'. h \<le> h' \<longrightarrow> calculateUI w h \<le> calculateUI w h')"
proof -
  have nonneg: "0 \<le> calculateUI w h"
  proof -
    have "0 \<le> w + h" using assms by simp
    then have "(0::int) \<le> \<lceil>w + h\<rceil>" by (simp add: ceiling_le_iff le_ceiling_iff)
    then show ?thesis by (simp add: calculateUI_def)
  qed
  have mono_w: "calculateUI w h \<le> calculateUI w' h" if "w \<le> w'" for w'
    using that by (simp add: calculateUI_def ceiling_mono)
  have mono_h: "calculateUI w h \<le> calculateUI w h'" if "h \<le> h'" for h'
    using that by (simp add: calculateUI_def ceiling_mono)
  have up: "calculateUI w h < w + h + 1"
    unfolding calculateUI_def by linarith
  show ?thesis using nonneg mono_w mono_h up
    by (simp add: calculateUI_def)
qed

theorem calculateUI_ceiling_witness:
  "(0::real) \<le> 30.5 \<and> (0::real) \<le> 20 \<and> calculateUI 30.5 20 = 51
   \<and> calculateUI 30.5 20 \<le> calculateUI 31 20 \<and> calculateUI 30.5 20 \<le> calculateUI 30.5 20.25"
  using calculateUI_ceiling [of "30.5" 20] by (simp add: calculateUI_def)

subsection \<open>Double precision\<close>

lemma bitLength_bounds:
  "0 < n \<Longrightarrow> 2 ^ (bitLength n - 1) \<le> n \<and> n < 2 ^ bitLength n"
proof (induction n rule: bitLength.induct)
  case (1 n)
  show ?case
  proof (cases "n div 2 = 0")
    case True
    with 1 have "n = 1" by (simp add: div_eq_0_iff) 
    then show ?thesis by (simp add: bitLength.simps)
  next
    case False
    then have pos: "0 < n div 2" by simp
    from 1 have ih: "2 ^ (bitLength (n div 2) - 1) \<le> n div 2 \<and> n div 2 < 2 ^ bitLength (n div 2)"
      using pos by simp
    have bl: "bitLength n = Suc (bitLength (n div 2))" using 1 by (simp add: bitLength.simps)
    have bp: "0 < bitLength (n div 2)" using pos by (simp add: bitLength.simps)
    then have e: "2 ^ bitLength (n div 2) = 2 * (2::nat) ^ (bitLength (n div 2) - 1)"
      by (cases "bitLength (n div 2)") simp_all
    have lo: "2 * 2 ^ (bitLength (n div 2) - 1) \<le> n" using ih by linarith
    have hi: "n < 2 * 2 ^ bitLength (n div 2)" using ih by linarith
    show ?thesis unfolding bl using lo hi e by simp
  qed
qed

lemma nearestEven_of_int [simp]: "nearestEven (of_int k) = k"
  by (simp add: nearestEven_def)

lemma nearestEven_bounds: "of_int (nearestEven y) - 1 / 2 \<le> y \<and> y \<le> of_int (nearestEven y) + 1 / 2"
  unfolding nearestEven_def Let_def by (auto; linarith)

lemma nearestEven_mono: "x \<le> y \<Longrightarrow> nearestEven x \<le> nearestEven y"
proof -
  assume le: "x \<le> y"
  have fl: "\<lfloor>x\<rfloor> \<le> \<lfloor>y\<rfloor>" using le by (rule floor_mono)
  show ?thesis
  proof (cases "\<lfloor>x\<rfloor> = \<lfloor>y\<rfloor>")
    case True
    then have "x - of_int \<lfloor>x\<rfloor> \<le> y - of_int \<lfloor>y\<rfloor>" using le by simp
    then show ?thesis using True unfolding nearestEven_def Let_def by auto
  next
    case False
    then have "\<lfloor>x\<rfloor> + 1 \<le> \<lfloor>y\<rfloor>" using fl by simp
    moreover have "nearestEven x \<le> \<lfloor>x\<rfloor> + 1" by (simp add: nearestEven_def Let_def)
    moreover have "\<lfloor>y\<rfloor> \<le> nearestEven y" by (simp add: nearestEven_def Let_def)
    ultimately show ?thesis by linarith
  qed
qed

lemma binade_bounds:
  assumes "x \<noteq> 0"
  shows "2 powi binade x \<le> \<bar>x\<bar> \<and> \<bar>x\<bar> < 2 powi (binade x + 1)"
proof (cases "1 \<le> \<bar>x\<bar>")
  case True
  define n where "n = nat \<lfloor>\<bar>x\<bar>\<rfloor>"
  have n1: "0 < n" using True by (simp add: n_def)
  have b: "binade x = int (bitLength n) - 1" using True by (simp add: binade_def n_def)
  from bitLength_bounds [OF n1] have lo: "2 ^ (bitLength n - 1) \<le> n" and hi: "n < 2 ^ bitLength n"
    by simp_all
  have bp: "0 < bitLength n" using n1 by (simp add: bitLength.simps)
  have rn: "real n \<le> \<bar>x\<bar>" "\<bar>x\<bar> < real n + 1"
    using True by (simp_all add: n_def)
  have "(2::real) powi binade x = 2 ^ (bitLength n - 1)"
    using bp by (simp add: b power_int_def nat_diff_distrib')
  also have "\<dots> \<le> real n" using lo by (metis of_nat_le_iff of_nat_numeral of_nat_power)
  finally have 1: "2 powi binade x \<le> \<bar>x\<bar>" using rn by simp
  have "real n + 1 \<le> 2 ^ bitLength n"
    using hi by (metis Suc_leI of_nat_Suc of_nat_le_iff of_nat_numeral of_nat_power add.commute)
  moreover have "(2::real) powi (binade x + 1) = 2 ^ bitLength n"
    by (simp add: b power_int_def)
  ultimately have 2: "\<bar>x\<bar> < 2 powi (binade x + 1)" using rn by simp
  show ?thesis using 1 2 by simp
next
  case False
  define z where "z = 1 / \<bar>x\<bar>"
  have z1: "1 < z" using False assms by (simp add: z_def)
  define m where "m = nat (\<lceil>z\<rceil> - 1)"
  have c2: "2 \<le> \<lceil>z\<rceil>" using z1 by linarith
  have rm: "real m = of_int \<lceil>z\<rceil> - 1" using c2 by (simp add: m_def)
  have mz: "real m < z" "z \<le> real m + 1"
    unfolding rm by linarith+
  have m1: "0 < m" using c2 by (simp add: m_def)
  have b: "binade x = - int (bitLength m)" using False by (simp add: binade_def m_def z_def)
  from bitLength_bounds [OF m1] have lo: "2 ^ (bitLength m - 1) \<le> m" and hi: "m < 2 ^ bitLength m"
    by simp_all
  have bp: "0 < bitLength m" using m1 by (simp add: bitLength.simps)
  have "(2::real) ^ (bitLength m - 1) \<le> real m"
    using lo by (metis of_nat_le_iff of_nat_numeral of_nat_power)
  then have zlo: "2 ^ (bitLength m - 1) < z" using mz by linarith
  have "real m + 1 \<le> 2 ^ bitLength m"
    using hi by (metis Suc_leI of_nat_Suc of_nat_le_iff of_nat_numeral of_nat_power add.commute)
  then have zhi: "z \<le> 2 ^ bitLength m" using mz by simp
  have xz: "\<bar>x\<bar> = 1 / z" using assms by (simp add: z_def)
  have 1: "2 powi binade x \<le> \<bar>x\<bar>"
    using zhi z1 by (simp add: b xz power_int_minus field_simps)
  have p: "(2::real) powi (binade x + 1) = 1 / 2 ^ (bitLength m - 1)"
    using bp by (cases "bitLength m") (simp_all add: b power_int_def field_simps)
  have "1 / z < 1 / 2 ^ (bitLength m - 1)"
    using zlo z1 by (intro divide_strict_left_mono) simp_all
  then have 2: "\<bar>x\<bar> < 2 powi (binade x + 1)"
    unfolding p xz .
  show ?thesis using 1 2 by simp
qed

lemma powi_less_cancel: "(2::real) powi m < 2 powi n \<Longrightarrow> m < n"
proof (rule ccontr)
  assume a: "(2::real) powi m < 2 powi n" and "\<not> m < n"
  then have "n \<le> m" by simp
  then have "(2::real) powi n \<le> 2 powi m" by (rule power_int_increasing) simp
  with a show False by simp
qed

lemma binade_unique:
  assumes "2 powi k \<le> \<bar>x\<bar>" "\<bar>x\<bar> < 2 powi (k + 1)"
  shows "binade x = k"
proof -
  have "0 < (2::real) powi k" by simp
  then have "0 < \<bar>x\<bar>" using assms(1) by linarith
  then have nz: "x \<noteq> 0" by simp
  note b = binade_bounds [OF nz]
  have "(2::real) powi k < 2 powi (binade x + 1)" using assms(1) b by linarith
  then have 1: "k < binade x + 1" by (rule powi_less_cancel)
  have "(2::real) powi binade x < 2 powi (k + 1)" using assms(2) b by linarith
  then have 2: "binade x < k + 1" by (rule powi_less_cancel)
  show ?thesis using 1 2 by simp
qed

lemma binade_minus [simp]: "binade (- x) = binade x"
  by (simp add: binade_def)

lemma ulpExponent_minus [simp]: "ulpExponent (- x) = ulpExponent x"
  by (simp add: ulpExponent_def)

lemma double_minus: "double (- x) = - double x"
  by (simp add: double_def sgn_minus)

lemma double_0 [simp]: "double 0 = 0"
  by (simp add: double_def)

lemma roundTo_mono: "x \<le> y \<Longrightarrow> roundTo e x \<le> roundTo e y"
proof -
  assume "x \<le> y"
  then have "x / 2 powi e \<le> y / 2 powi e" by (simp add: divide_right_mono)
  then have "nearestEven (x / 2 powi e) \<le> nearestEven (y / 2 powi e)" by (rule nearestEven_mono)
  then show ?thesis by (simp add: roundTo_def)
qed

lemma roundTo_grid:
  assumes "e \<le> j"
  shows "roundTo e (of_int k * 2 powi j) = of_int k * 2 powi j"
proof -
  have "(2::real) powi j = 2 powi (j - e) * 2 powi e"
    using power_int_add [of "2::real" "j - e" e] by simp
  also have "(2::real) powi (j - e) = of_int (2 ^ nat (j - e))"
    using assms by (simp add: power_int_def)
  finally have j: "(2::real) powi j = of_int (2 ^ nat (j - e)) * 2 powi e" .
  have "real_of_int k * 2 powi j / 2 powi e = of_int (k * 2 ^ nat (j - e))"
    by (simp add: j)
  then have "nearestEven (of_int k * 2 powi j / 2 powi e) = k * 2 ^ nat (j - e)"
    by (simp only: nearestEven_of_int)
  then show ?thesis unfolding roundTo_def by (simp add: j)
qed

lemma nearestEven_0 [simp]: "nearestEven 0 = 0"
  using nearestEven_of_int [of 0] by simp

lemma roundTo_0 [simp]: "roundTo e 0 = 0"
  by (simp add: roundTo_def nearestEven_def)

lemma roundTo_nonneg: "0 \<le> x \<Longrightarrow> 0 \<le> roundTo e x"
  using roundTo_mono [of 0 x e] by simp

lemma double_nonneg: "0 \<le> x \<Longrightarrow> 0 \<le> double x"
  by (cases "x = 0") (simp_all add: double_def roundTo_nonneg)

lemma binade_mono:
  assumes "0 < x" "x \<le> y"
  shows "binade x \<le> binade y"
proof -
  have "x \<noteq> 0" "y \<noteq> 0" using assms by simp_all
  from binade_bounds [OF this(1)] binade_bounds [OF this(2)] assms
  have "(2::real) powi binade x < 2 powi (binade y + 1)" by simp
  then have "binade x < binade y + 1" by (rule powi_less_cancel)
  then show ?thesis by simp
qed

lemma double_pos: "0 < x \<Longrightarrow> double x = roundTo (ulpExponent x) x"
  by (simp add: double_def)

lemma double_mono_pos:
  assumes "0 < x" "x \<le> y"
  shows "double x \<le> double y"
proof -
  have y: "0 < y" using assms by simp
  have b: "binade x \<le> binade y" by (rule binade_mono [OF assms])
  show ?thesis
  proof (cases "ulpExponent x = ulpExponent y")
    case True
    then show ?thesis using assms y by (simp add: double_pos roundTo_mono)
  next
    case False
    then have lt: "binade x < binade y" and big: "- 1022 < binade y"
      using b by (auto simp: ulpExponent_def max_def split: if_splits)
    define p :: real where "p = of_int 1 * 2 powi binade y"
    have "x < 2 powi (binade x + 1)" using binade_bounds [of x] assms by simp
    also have "\<dots> \<le> 2 powi binade y" using lt by (intro power_int_increasing) simp_all
    finally have xp: "x \<le> p" by (simp add: p_def)
    have py: "p \<le> y" using binade_bounds [of y] y by (simp add: p_def)
    have ex: "ulpExponent x \<le> binade y" using lt big by (simp add: ulpExponent_def)
    have ey: "ulpExponent y \<le> binade y" using big by (simp add: ulpExponent_def)
    have "double x = roundTo (ulpExponent x) x" using assms by (simp add: double_pos)
    also have "\<dots> \<le> roundTo (ulpExponent x) p" using xp by (rule roundTo_mono)
    also have "\<dots> = p" unfolding p_def by (rule roundTo_grid [OF ex])
    also have "\<dots> = roundTo (ulpExponent y) p" unfolding p_def by (rule roundTo_grid [OF ey, symmetric])
    also have "\<dots> \<le> roundTo (ulpExponent y) y" using py by (rule roundTo_mono)
    also have "\<dots> = double y" using y by (simp add: double_pos)
    finally show ?thesis .
  qed
qed

lemma double_mono:
  assumes "x \<le> y"
  shows "double x \<le> double y"
proof -
  consider "0 < x" | "x \<le> 0" "0 \<le> y" | "y < 0" by linarith
  then show ?thesis
  proof cases
    case 1
    then show ?thesis using assms by (rule double_mono_pos)
  next
    case 2
    have "double x \<le> 0" using double_nonneg [of "- x"] 2 by (simp add: double_minus)
    moreover have "0 \<le> double y" using 2 by (simp add: double_nonneg)
    ultimately show ?thesis by simp
  next
    case 3
    then have "0 < - y" "- y \<le> - x" using assms by simp_all
    then have "double (- y) \<le> double (- x)" by (rule double_mono_pos)
    then show ?thesis by (simp add: double_minus)
  qed
qed

text \<open>A double: an integer of at most 53 bits times a power of two not below the least one.\<close>
lemma double_grid:
  assumes k: "\<bar>k\<bar> \<le> 2 ^ 53" and j: "- 1074 \<le> j"
  shows "double (of_int k * 2 powi j) = of_int k * 2 powi j"
proof -
  have pos: "double (of_int k * 2 powi j) = of_int k * 2 powi j"
    if k0: "0 < k" and k53: "k \<le> 2 ^ 53" for k
  proof -
    let ?z = "of_int k * (2::real) powi j"
    have z: "0 < ?z" using k0 by simp
    show ?thesis
    proof (cases "k = 2 ^ 53")
      case True
      define w :: real where "w = 2 powi (53 + j)"
      have "(2::real) powi (53 + j) = 2 powi 53 * 2 powi j" by (rule power_int_add) simp
      then have zw: "?z = w" by (simp add: True w_def)
      have "\<bar>w\<bar> = 2 powi (53 + j)" "\<bar>w\<bar> < 2 powi (53 + j + 1)"
        unfolding w_def by (simp_all add: power_int_strict_increasing)
      then have "binade w = 53 + j" by (intro binade_unique) simp_all
      then have "ulpExponent w \<le> 53 + j" using j by (simp add: ulpExponent_def)
      then have "roundTo (ulpExponent w) (of_int 1 * 2 powi (53 + j)) = of_int 1 * 2 powi (53 + j)"
        by (rule roundTo_grid)
      then have "roundTo (ulpExponent w) w = w" by (simp add: w_def)
      moreover have "0 < w" by (simp add: w_def)
      ultimately have "double w = w" by (simp add: double_pos)
      then show ?thesis by (simp only: zw)
    next
      case False
      then have "k < 2 ^ 53" using k53 by simp
      then have "real_of_int k < 2 ^ 53" by (metis of_int_less_iff of_int_numeral of_int_power)
      then have "?z < 2 ^ 53 * 2 powi j" by simp
      also have "\<dots> = 2 powi (53 + j)" using power_int_add [of "2::real" 53 j] by simp
      finally have up: "?z < 2 powi (53 + j)" .
      have "?z \<noteq> 0" using z by linarith
      from binade_bounds [OF this] have "2 powi binade ?z \<le> ?z" using z by simp
      with up have "(2::real) powi binade ?z < 2 powi (53 + j)" by linarith
      then have "binade ?z < 53 + j" by (rule powi_less_cancel)
      then have "ulpExponent ?z \<le> j" using j by (simp add: ulpExponent_def)
      then have "roundTo (ulpExponent ?z) ?z = ?z" by (rule roundTo_grid)
      then show ?thesis using z by (simp add: double_pos)
    qed
  qed
  consider "0 < k" | "k = 0" | "k < 0" by linarith
  then show ?thesis
  proof cases
    case 1
    then show ?thesis using pos [of k] k by simp
  next
    case 2
    then show ?thesis by simp
  next
    case 3
    then have "double (of_int (- k) * 2 powi j) = of_int (- k) * 2 powi j"
      using pos [of "- k"] k by simp
    then show ?thesis using double_minus [of "of_int k * 2 powi j"] by simp
  qed
qed

lemma double_int: "\<bar>k\<bar> \<le> 2 ^ 53 \<Longrightarrow> double (of_int k) = of_int k"
  using double_grid [of k 0] by simp

lemma double_numeral [simp]:
  "(numeral n :: int) \<le> 2 ^ 53 \<Longrightarrow> double (numeral n) = numeral n"
  "(numeral n :: int) \<le> 2 ^ 53 \<Longrightarrow> double (- numeral n) = - numeral n"
  using double_int [of "numeral n"] double_int [of "- numeral n"] by simp_all

lemma double_1 [simp]: "double 1 = 1"
  using double_int [of 1] by simp

lemma double_idem [simp]: "double (double x) = double x"
proof -
  have pos: "double (double x) = double x" if x: "0 < x" for x
  proof -
    define e where "e = ulpExponent x"
    define k where "k = nearestEven (x / 2 powi e)"
    have d: "double x = of_int k * 2 powi e" using x by (simp add: double_pos roundTo_def k_def e_def)
    have e: "- 1074 \<le> e" "binade x \<le> e + 52" by (simp_all add: e_def ulpExponent_def)
    have "x < 2 powi (binade x + 1)" using binade_bounds [of x] x by simp
    also have "\<dots> \<le> 2 powi (e + 53)" using e by (intro power_int_increasing) simp_all
    also have "\<dots> = 2 powi 53 * 2 powi e" using power_int_add [of "2::real" 53 e] by (simp add: add.commute)
    finally have "x / 2 powi e \<le> of_int (2 ^ 53)" by (simp add: field_simps)
    then have "k \<le> 2 ^ 53" unfolding k_def using nearestEven_mono nearestEven_of_int by metis
    moreover have "0 \<le> k"
      unfolding k_def using nearestEven_mono [of 0 "x / 2 powi e"] x by simp
    ultimately have "\<bar>k\<bar> \<le> 2 ^ 53" by simp
    then show ?thesis unfolding d using e(1) by (rule double_grid)
  qed
  consider "0 < x" | "x = 0" | "x < 0" by linarith
  then show ?thesis
  proof cases
    case 1
    then show ?thesis by (rule pos)
  next
    case 2
    then show ?thesis by simp
  next
    case 3
    then have "double (double (- x)) = double (- x)" by (intro pos) simp
    then show ?thesis by (simp add: double_minus)
  qed
qed

subsection \<open>calculateQuote\<close>

lemma foldl_dbl_add_NaN: "foldl (\<lambda>s i. dbl_add s (f i)) NaN xs = NaN"
  by (induction xs) (simp_all add: dbl_add_def)

lemma foldl_dbl_add_Num:
  "foldl (\<lambda>s i. dbl_add s (f i)) (Num a) xs =
     (if list_all (\<lambda>i. toNumber (f i) \<noteq> None) xs
      then Num (sumFrom a (map (\<lambda>i. the (toNumber (f i))) xs)) else NaN)"
proof (induction xs arbitrary: a)
  case Nil
  then show ?case by simp
next
  case (Cons x xs)
  show ?case
  proof (cases "toNumber (f x)")
    case None
    then have "dbl_add (Num a) (f x) = NaN" by (simp add: dbl_add_def)
    then show ?thesis using None by (simp add: foldl_dbl_add_NaN)
  next
    case (Some y)
    then have "dbl_add (Num a) (f x) = Num (double (a + y))" by (simp add: dbl_add_def)
    then show ?thesis using Some Cons.IH [of "double (a + y)"] by simp
  qed
qed

lemma foldl_double: "foldl (\<lambda>t a. double (t + g a)) c xs = sumFrom c (map g xs)"
  by (induction xs arbitrary: c) simp_all

lemma calculateQuote_char:
  "calculateQuote lineItems jobAddons uplift =
     (if uplift < 0 then Inl NegativeUplift
      else if js_lt (quoteFinal lineItems jobAddons uplift) (parTotal lineItems)
      then Inl PriceFloorViolation
      else Inr \<lparr>totalParPrice = parTotal lineItems,
                jobAddonTotal = sumFrom 0 (jobValues jobAddons),
                jobBasedAddons = jobAddons, salesUplift = uplift,
                finalPrice = quoteFinal lineItems jobAddons uplift\<rparr>)"
proof -
  have total: "foldl (\<lambda>sum item. dbl_add sum (lineItemParTotal item)) (Num 0) lineItems
               = parTotal lineItems"
    by (simp add: foldl_dbl_add_Num parTotal_def parValues_def)
  have jobs: "foldl (\<lambda>t a. double (t + orZero (jb_price a))) 0 jobAddons
               = sumFrom 0 (jobValues jobAddons)"
    by (simp add: foldl_double jobValues_def)
  show ?thesis
    unfolding calculateQuote_def total jobs Let_def quoteFinal_def by simp
qed

lemma sumFrom_exact: "exactFrom acc xs \<Longrightarrow> sumFrom acc xs = acc + sum_list xs"
  by (induction xs arbitrary: acc) (simp_all add: add.assoc)

lemma sumFrom_double: "double acc = acc \<Longrightarrow> double (sumFrom acc xs) = sumFrom acc xs"
  by (induction xs arbitrary: acc) simp_all

lemma sumFrom_nonneg: "0 \<le> acc \<Longrightarrow> list_all (\<lambda>x. 0 \<le> x) xs \<Longrightarrow> 0 \<le> sumFrom acc xs"
proof (induction xs arbitrary: acc)
  case Nil
  then show ?case by simp
next
  case (Cons x xs)
  then have "0 \<le> double (acc + x)" by (intro double_nonneg) simp
  then show ?case using Cons by simp
qed

text \<open>With an uplift and job-based addon prices that are not negative, the final price
  is not below the par total, whatever the additions round to.\<close>
lemma price_floor_free:
  assumes up: "0 \<le> uplift" and nn: "list_all (\<lambda>a. 0 \<le> orZero (jb_price a)) jobAddons"
  shows "\<not> js_lt (quoteFinal lineItems jobAddons uplift) (parTotal lineItems)"
proof (cases "list_all (\<lambda>item. toNumber (lineItemParTotal item) \<noteq> None) lineItems")
  case False
  then show ?thesis by (simp add: parTotal_def quoteFinal_def dbl_add_def js_lt_def)
next
  case True
  define t where "t = sumFrom 0 (parValues lineItems)"
  define j where "j = sumFrom 0 (jobValues jobAddons)"
  have t: "double t = t" unfolding t_def by (rule sumFrom_double) simp
  have "list_all (\<lambda>x. 0 \<le> x) (jobValues jobAddons)"
    using nn by (simp add: jobValues_def list_all_iff)
  then have j: "0 \<le> j" unfolding j_def by (intro sumFrom_nonneg) simp_all
  have "double t \<le> double (t + j)" using j by (intro double_mono) simp
  then have 1: "t \<le> double (t + j)" by (simp add: t)
  have "double (double (t + j)) \<le> double (double (t + j) + uplift)"
    using up by (intro double_mono) simp
  then have "t \<le> double (double (t + j) + uplift)" using 1 by simp
  then show ?thesis
    using True by (simp add: parTotal_def quoteFinal_def dbl_add_def js_lt_def t_def j_def)
qed

lemma exactQuote_totals:
  assumes "exactQuote lineItems jobAddons uplift"
  shows "parTotal lineItems = Num (sum_list (parValues lineItems))"
    and "sumFrom 0 (jobValues jobAddons) = sum_list (jobValues jobAddons)"
    and "quoteFinal lineItems jobAddons uplift =
           Num (sum_list (parValues lineItems) + sum_list (jobValues jobAddons) + uplift)"
proof -
  from assms have nums: "list_all (\<lambda>item. toNumber (lineItemParTotal item) \<noteq> None) lineItems"
    and p: "sumFrom 0 (parValues lineItems) = sum_list (parValues lineItems)"
    and j: "sumFrom 0 (jobValues jobAddons) = sum_list (jobValues jobAddons)"
    and e1: "double (sum_list (parValues lineItems) + sum_list (jobValues jobAddons))
         = sum_list (parValues lineItems) + sum_list (jobValues jobAddons)"
    and e2: "double (sum_list (parValues lineItems) + sum_list (jobValues jobAddons) + uplift)
         = sum_list (parValues lineItems) + sum_list (jobValues jobAddons) + uplift"
    using sumFrom_exact [of 0] by (simp_all add: exactQuote_def)
  show t: "parTotal lineItems = Num (sum_list (parValues lineItems))"
    using nums p by (simp add: parTotal_def)
  show "sumFrom 0 (jobValues jobAddons) = sum_list (jobValues jobAddons)" by (rule j)
  show "quoteFinal lineItems jobAddons uplift =
           Num (sum_list (parValues lineItems) + sum_list (jobValues jobAddons) + uplift)"
    by (simp add: quoteFinal_def t j dbl_add_def e1 e2)
qed

text \<open>
  Claim C5, amended. \<open>calculateQuote\<close> fails with the negative-uplift error whenever the
  uplift is negative, whatever the line items. Otherwise it computes the par total as the
  sum of the line items' \<open>lineItemParTotal\<close> (\<open>NaN\<close> as soon as one of them is not a
  number), the job-addon total as the sum of the job-based addon prices with a missing
  price counted as 0, and the final price as par total plus job-addon total plus uplift,
  every sum taken from the left with the rounded additions of the runtime. It fails with
  the price-floor error when the final price so computed is below the par total so
  computed, and returns the three values in every other case. When every par total is a
  number and no addition rounds, the values are the exact sums and the price-floor error
  occurs exactly when the job-addon total plus the uplift is negative.
\<close>

theorem calculateQuote_totals:
  "(uplift < 0 \<longrightarrow> calculateQuote lineItems jobAddons uplift = Inl NegativeUplift)
   \<and> (0 \<le> uplift \<longrightarrow>
        calculateQuote lineItems jobAddons uplift =
          (if js_lt (quoteFinal lineItems jobAddons uplift) (parTotal lineItems)
           then Inl PriceFloorViolation
           else Inr \<lparr>totalParPrice = parTotal lineItems,
                     jobAddonTotal = sumFrom 0 (jobValues jobAddons),
                     jobBasedAddons = jobAddons, salesUplift = uplift,
                     finalPrice = quoteFinal lineItems jobAddons uplift\<rparr>))
   \<and> (0 \<le> uplift \<and> exactQuote lineItems jobAddons uplift \<longrightarrow>
        calculateQuote lineItems jobAddons uplift =
          (if sum_list (jobValues jobAddons) + uplift < 0 then Inl PriceFloorViolation
           else Inr \<lparr>totalParPrice = Num (sum_list (parValues lineItems)),
                     jobAddonTotal = sum_list (jobValues jobAddons),
                     jobBasedAddons = jobAddons, salesUplift = uplift,
                     finalPrice = Num (sum_list (parValues lineItems)
                                       + sum_list (jobValues jobAddons) + uplift)\<rparr>))"
proof (intro conjI impI)
  assume "uplift < 0"
  then show "calculateQuote lineItems jobAddons uplift = Inl NegativeUplift"
    by (simp add: calculateQuote_char)
next
  assume "0 \<le> uplift"
  then show "calculateQuote lineItems jobAddons uplift =
          (if js_lt (quoteFinal lineItems jobAddons uplift) (parTotal lineItems)
           then Inl PriceFloorViolation
           else Inr \<lparr>totalParPrice = parTotal lineItems,
                     jobAddonTotal = sumFrom 0 (jobValues jobAddons),
                     jobBasedAddons = jobAddons, salesUplift = uplift,
                     finalPrice = quoteFinal lineItems jobAddons uplift\<rparr>)"
    by (simp add: calculateQuote_char)
next
  assume a: "0 \<le> uplift \<and> exactQuote lineItems jobAddons uplift"
  then have up: "\<not> uplift < 0" by simp
  note e = exactQuote_totals [OF a [THEN conjunct2]]
  show "calculateQuote lineItems jobAddons uplift =
          (if sum_list (jobValues jobAddons) + uplift < 0 then Inl PriceFloorViolation
           else Inr \<lparr>totalParPrice = Num (sum_list (parValues lineItems)),
                     jobAddonTotal = sum_list (jobValues jobAddons),
                     jobBasedAddons = jobAddons, salesUplift = uplift,
                     finalPrice = Num (sum_list (parValues lineItems)
                                       + sum_list (jobValues jobAddons) + uplift)\<rparr>)"
    unfolding calculateQuote_char e using up by (simp add: js_lt_def)
qed

lemma exQuote_exact:
  "exactQuote [exLineItem, exStored] [\<lparr>jb_price = Num 40\<rparr>, \<lparr>jb_price = Undefined\<rparr>] 100"
  by (simp add: exactQuote_def parValues_def jobValues_def orZero_def exLineItem_def exStored_def)

theorem calculateQuote_totals_witness:
  "(- 1 :: real) < 0 \<and> calculateQuote [] [] (- 1) = Inl NegativeUplift
   \<and> (0 :: real) \<le> 100
   \<and> exactQuote [exLineItem, exStored] [\<lparr>jb_price = Num 40\<rparr>, \<lparr>jb_price = Undefined\<rparr>] 100
   \<and> calculateQuote [exLineItem, exStored] [\<lparr>jb_price = Num 40\<rparr>, \<lparr>jb_price = Undefined\<rparr>] 100 =
       Inr \<lparr>totalParPrice = Num 1025, jobAddonTotal = 40,
            jobBasedAddons = [\<lparr>jb_price = Num 40\<rparr>, \<lparr>jb_price = Undefined\<rparr>],
            salesUplift = 100, finalPrice = Num 1165\<rparr>"
proof -
  have neg: "(- 1 :: real) < 0" and up: "(0 :: real) \<le> 100" by simp_all
  note t1 = calculateQuote_totals [of "- 1" "[]" "[]", THEN conjunct1, THEN mp, OF neg]
  note t2 = calculateQuote_totals [of 100 "[exLineItem, exStored]"
      "[\<lparr>jb_price = Num 40\<rparr>, \<lparr>jb_price = Undefined\<rparr>]",
      THEN conjunct2, THEN conjunct2, THEN mp, OF conjI [OF up exQuote_exact]]
  have t3: "calculateQuote [exLineItem, exStored] [\<lparr>jb_price = Num 40\<rparr>, \<lparr>jb_price = Undefined\<rparr>] 100 =
       Inr \<lparr>totalParPrice = Num 1025, jobAddonTotal = 40,
            jobBasedAddons = [\<lparr>jb_price = Num 40\<rparr>, \<lparr>jb_price = Undefined\<rparr>],
            salesUplift = 100, finalPrice = Num 1165\<rparr>"
    unfolding t2 by (simp add: parValues_def jobValues_def orZero_def exLineItem_def exStored_def)
  show ?thesis using neg up t1 exQuote_exact t3 by (intro conjI)
qed

theorem calculateQuote_totals_counterexample:
  "\<not> (10::real) < 0
   \<and> calculateQuote [exLineItem, exStored] [\<lparr>jb_price = Num (-20)\<rparr>, \<lparr>jb_price = Num 5\<rparr>] 10
       = Inl PriceFloorViolation"
  by (simp add: calculateQuote_def dbl_add_def js_lt_def orZero_def exLineItem_def exStored_def)

text \<open>
  Rounding alone can take the price-floor branch: the par total 0.1, a job-based addon of
  price -0.4 and the uplift 0.4 (each the double nearest to the fraction) give the final
  price 0.09999999999999998, below the par total, although the addon and the uplift
  cancel.
\<close>

lemma decimal_doubles:
  "double (1 / 10) = 3602879701896397 / 36028797018963968"
  "double (2 / 5) = 3602879701896397 / 9007199254740992"
  "double (- (10808639105689191 / 36028797018963968)) = - (1351079888211149 / 4503599627370496)"
  "double (900719925474099 / 9007199254740992) = 900719925474099 / 9007199254740992"
  by (simp_all add: double_def roundTo_def ulpExponent_def nearestEven_def binade_def
        bitLength.simps power_int_minus Let_def field_simps)

lemma price_floor_by_rounding:
  "calculateQuote [exLineItem\<lparr>lineItemParTotal := Num (double (1 / 10))\<rparr>]
     [\<lparr>jb_price = Num (double (- (2 / 5)))\<rparr>] (double (2 / 5)) = Inl PriceFloorViolation
   \<and> double (- (2 / 5)) + double (2 / 5) = 0"
proof -
  have m: "double (- (2 / 5)) = - (3602879701896397 / 9007199254740992)"
    using double_minus [of "2 / 5"] by (simp add: decimal_doubles)
  have z: "double (- (3602879701896397 / 9007199254740992)) = - (3602879701896397 / 9007199254740992)"
    using double_idem [of "- (2 / 5)"] unfolding m .
  have o: "double (3602879701896397 / 36028797018963968) = 3602879701896397 / 36028797018963968"
    using double_idem [of "1 / 10"] unfolding decimal_doubles .
  show ?thesis
    unfolding m decimal_doubles
    by (simp add: calculateQuote_def dbl_add_def js_lt_def orZero_def exLineItem_def
          z o decimal_doubles Let_def)
qed

text \<open>
  Claim C10. The price-floor branch of \<open>calculateQuote\<close> is reachable: with uplift 0 and a
  job-based addon of negative price the call fails with the price-floor error. It is
  unreachable once every job-based addon price counts as non-negative.
\<close>

theorem price_floor_reachable:
  "calculateQuote [exLineItem] [\<lparr>jb_price = Num (-5)\<rparr>] 0 = Inl PriceFloorViolation
   \<and> (\<forall>lineItems jobAddons uplift.
         list_all (\<lambda>a. 0 \<le> orZero (jb_price a)) jobAddons \<longrightarrow>
         calculateQuote lineItems jobAddons uplift \<noteq> Inl PriceFloorViolation)"
proof -
  have reach: "calculateQuote [exLineItem] [\<lparr>jb_price = Num (-5)\<rparr>] 0 = Inl PriceFloorViolation"
    by (simp add: calculateQuote_def dbl_add_def js_lt_def orZero_def exLineItem_def)
  have "calculateQuote lineItems jobAddons uplift \<noteq> Inl PriceFloorViolation"
    if nn: "list_all (\<lambda>a. 0 \<le> orZero (jb_price a)) jobAddons" for lineItems jobAddons uplift
  proof (cases "uplift < 0")
    case True
    then show ?thesis by (simp add: calculateQuote_char)
  next
    case False
    then have "0 \<le> uplift" by simp
    from price_floor_free [OF this nn] False show ?thesis by (simp add: calculateQuote_char)
  qed
  with reach show ?thesis by blast
qed

theorem price_floor_reachable_witness:
  "list_all (\<lambda>a. 0 \<le> orZero (jb_price a)) [\<lparr>jb_price = Num 5\<rparr>, \<lparr>jb_price = Undefined\<rparr>]
   \<and> calculateQuote [exLineItem] [\<lparr>jb_price = Num 5\<rparr>, \<lparr>jb_price = Undefined\<rparr>] 0
       \<noteq> Inl PriceFloorViolation
   \<and> calculateQuote [exLineItem] [\<lparr>jb_price = Num (-5)\<rparr>] 0 = Inl PriceFloorViolation"
  using price_floor_reachable by (simp add: orZero_def)

subsection \<open>calculateLineItem\<close>

lemma foldl_js_add_NaN: "foldl (\<lambda>s i. js_add s (f i)) NaN xs = NaN"
  by (induction xs) (simp_all add: js_add_def)

lemma foldl_js_add_Num:
  "foldl (\<lambda>s i. js_add s (f i)) (Num a) xs =
     (if list_all (\<lambda>v. toNumber v \<noteq> None) (map f xs)
      then Num (a + (\<Sum>v\<leftarrow>map f xs. the (toNumber v))) else NaN)"
proof (induction xs arbitrary: a)
  case Nil
  then show ?case by simp
next
  case (Cons x xs)
  show ?case
  proof (cases "toNumber (f x)")
    case None
    then have "js_add (Num a) (f x) = NaN" by (simp add: js_add_def)
    then show ?thesis using None by (simp add: foldl_js_add_NaN)
  next
    case (Some y)
    then have "js_add (Num a) (f x) = Num (a + y)" by (simp add: js_add_def)
    then show ?thesis using Some Cons.IH [of "a + y"] by (simp add: add.assoc)
  qed
qed

lemma acceptedGroups_Cons:
  "acceptedGroups (ia # ias) = declaredGroup (snd ia) @ acceptedGroups ias"
  by (simp add: acceptedGroups_def)

lemma processAddons_char:
  "processAddons p u e all ids acc =
     (case firstRepeat (acc_groups acc) (acceptedGroups (acceptedAddons p u all ids)) of
        Some g \<Rightarrow> Inl (ExclusiveGroupConflict g)
      | None \<Rightarrow>
          Inr \<lparr>acc_applied = acc_applied acc @ map (appliedEntry e) (acceptedAddons p u all ids),
               acc_groups = acc_groups acc \<union> set (acceptedGroups (acceptedAddons p u all ids)),
               acc_total = foldl (\<lambda>s ia. js_add s (addonPrice e (snd ia))) (acc_total acc)
                             (acceptedAddons p u all ids)\<rparr>)"
proof (induction ids arbitrary: acc)
  case Nil
  then show ?case by (simp add: acceptedGroups_def)
next
  case (Cons i rest)
  show ?case
  proof (cases "all i")
    case None
    then have skip: "acceptedAddons p u all (i # rest) = acceptedAddons p u all rest"
      "processAddons p u e all (i # rest) acc = processAddons p u e all rest acc"
      by simp_all
    show ?thesis unfolding skip by (rule Cons.IH)
  next
    case (Some a)
    show ?thesis
    proof (cases "isAddonAllowed a p u")
      case False
      then have skip: "acceptedAddons p u all (i # rest) = acceptedAddons p u all rest"
        "processAddons p u e all (i # rest) acc = processAddons p u e all rest acc"
        using Some by simp_all
      show ?thesis unfolding skip by (rule Cons.IH)
    next
      case True
      then have acc_eq: "acceptedAddons p u all (i # rest) = (i, a) # acceptedAddons p u all rest"
        using Some by simp
      show ?thesis
      proof (cases "truthyStr (a_exclusiveGroup a)")
        case False
        then have grp: "acceptedGroups ((i, a) # acceptedAddons p u all rest)
                        = acceptedGroups (acceptedAddons p u all rest)"
          by (simp add: acceptedGroups_Cons declaredGroup_def)
        have step: "processAddons p u e all (i # rest) acc =
            processAddons p u e all rest
              \<lparr>acc_applied = acc_applied acc @ [appliedEntry e (i, a)],
               acc_groups = acc_groups acc,
               acc_total = js_add (acc_total acc) (addonPrice e a)\<rparr>"
          using Some True False by (simp add: appliedEntry_def)
        show ?thesis unfolding step acc_eq grp Cons.IH
          by (simp split: option.splits)
      next
        case grp: True
        define g where "g = the (a_exclusiveGroup a)"
        have grps: "acceptedGroups ((i, a) # acceptedAddons p u all rest)
                        = g # acceptedGroups (acceptedAddons p u all rest)"
          using grp by (simp add: acceptedGroups_Cons declaredGroup_def g_def)
        show ?thesis
        proof (cases "g \<in> acc_groups acc")
          case True
          then have stop: "processAddons p u e all (i # rest) acc = Inl (ExclusiveGroupConflict g)"
            using Some \<open>isAddonAllowed a p u\<close> grp by (simp add: g_def)
          show ?thesis unfolding stop acc_eq grps using True by simp
        next
          case False
          then have step: "processAddons p u e all (i # rest) acc =
            processAddons p u e all rest
              \<lparr>acc_applied = acc_applied acc @ [appliedEntry e (i, a)],
               acc_groups = insert g (acc_groups acc),
               acc_total = js_add (acc_total acc) (addonPrice e a)\<rparr>"
            using Some True grp by (simp add: appliedEntry_def g_def)
          show ?thesis unfolding step acc_eq grps Cons.IH using False
            by (simp split: option.splits)
        qed
      qed
    qed
  qed
qed

lemma firstRepeat_None_iff:
  "firstRepeat seen xs = None \<longleftrightarrow> distinct xs \<and> seen \<inter> set xs = {}"
  by (induction xs arbitrary: seen) auto

lemma firstRepeat_Some_count:
  "firstRepeat seen xs = Some g \<Longrightarrow> g \<in> set xs \<and> (g \<in> seen \<or> 2 \<le> count_list xs g)"
proof (induction xs arbitrary: seen)
  case Nil
  then show ?case by simp
next
  case (Cons x xs)
  show ?case
  proof (cases "x \<in> seen")
    case True
    then show ?thesis using Cons.prems by simp
  next
    case False
    then have fr: "firstRepeat (insert x seen) xs = Some g" using Cons.prems by simp
    from Cons.IH [OF fr] have g: "g \<in> set xs" and d: "g \<in> insert x seen \<or> 2 \<le> count_list xs g" by auto
    have "1 \<le> count_list xs g" using g by (cases "count_list xs g") (auto simp: count_list_0_iff)
    then show ?thesis using g d by auto
  qed
qed

lemma dedupFrom_set: "set (dedupFrom seen xs) = set xs - set seen"
  by (induction xs arbitrary: seen) auto

lemma dedupFrom_distinct: "distinct (dedupFrom seen xs)"
  by (induction xs arbitrary: seen) (auto simp: dedupFrom_set)

lemma dedup_set: "set (dedup xs) = set xs"
  by (simp add: dedup_def dedupFrom_set)

lemma dedup_distinct: "distinct (dedup xs)"
  by (simp add: dedup_def dedupFrom_distinct)

lemma acceptedAddons_filter:
  "map fst (acceptedAddons p u all ids) =
     filter (\<lambda>i. case all i of None \<Rightarrow> False | Some a \<Rightarrow> isAddonAllowed a p u) ids"
  by (induction ids) (auto split: option.splits)

lemma acceptedAddons_mem:
  "(i, a) \<in> set (acceptedAddons p u all ids) \<longleftrightarrow>
     i \<in> set ids \<and> all i = Some a \<and> isAddonAllowed a p u"
  by (induction ids) (auto split: option.splits)

lemma acceptedAddons_distinct:
  "distinct ids \<Longrightarrow> distinct (map fst (acceptedAddons p u all ids))"
  by (simp add: acceptedAddons_filter)

lemma calculateLineItem_char:
  "calculateLineItem p w h sel all =
     (if p_pricingModel p \<noteq> Some ''UI'' \<and> p_pricingModel p \<noteq> Some ''FLAT''
      then Inl (InvalidConfiguration (p_pricingModel p))
      else
        case firstRepeat {}
               (acceptedGroups (acceptedAddons p (calculateUI w h) all (allAddonIds p sel all))) of
          Some g \<Rightarrow> Inl (ExclusiveGroupConflict g)
        | None \<Rightarrow>
            Inr \<lparr>ui = max (calculateUI w h) (orZero (p_minimumUI p)),
                 basePrice =
                   (if p_pricingModel p = Some ''UI''
                    then js_mul (Num (max (calculateUI w h) (orZero (p_minimumUI p)))) (p_uiRate p)
                    else p_flatPrice p),
                 addonTotal =
                   jsSum (map (\<lambda>ia. addonPrice (max (calculateUI w h) (orZero (p_minimumUI p))) (snd ia))
                     (acceptedAddons p (calculateUI w h) all (allAddonIds p sel all))),
                 lineItemParTotal =
                   js_add
                     (if p_pricingModel p = Some ''UI''
                      then js_mul (Num (max (calculateUI w h) (orZero (p_minimumUI p)))) (p_uiRate p)
                      else p_flatPrice p)
                     (jsSum (map (\<lambda>ia. addonPrice (max (calculateUI w h) (orZero (p_minimumUI p))) (snd ia))
                       (acceptedAddons p (calculateUI w h) all (allAddonIds p sel all)))),
                 appliedAddons =
                   map (appliedEntry (max (calculateUI w h) (orZero (p_minimumUI p))))
                     (acceptedAddons p (calculateUI w h) all (allAddonIds p sel all))\<rparr>)"
  unfolding calculateLineItem_def Let_def processAddons_char emptyAcc_def
  by (simp add: foldl_js_add_Num jsSum_def split: option.splits)

lemma lineItem_example:
  "calculateLineItem exProduct 30 20 [] Map.empty =
     Inr \<lparr>ui = 50, basePrice = Num 500, addonTotal = Num 0, lineItemParTotal = Num 500,
          appliedAddons = []\<rparr>"
  by (simp add: engine_simps js_simps exProduct_def)

lemma appliedEntry_id: "aa_id (appliedEntry e ia) = fst ia"
  by (simp add: appliedEntry_def)

lemma appliedEntry_price: "aa_price (appliedEntry e ia) = addonPrice e (snd ia)"
  by (simp add: appliedEntry_def)

lemma count_fst: "length (filter (\<lambda>ia. fst ia = i) xs) = count_list (map fst xs) i"
  by (induction xs) auto

lemma count_list_distinct:
  "distinct xs \<Longrightarrow> count_list xs x = (if x \<in> set xs then 1 else 0)"
  by (induction xs) auto

lemma calculateLineItem_Inr:
  assumes ok: "calculateLineItem p w h sel all = Inr li"
  shows "ui li = max (calculateUI w h) (orZero (p_minimumUI p))"
    and "appliedAddons li =
           map (appliedEntry (ui li))
             (acceptedAddons p (calculateUI w h) all (allAddonIds p sel all))"
    and "basePrice li =
           (if p_pricingModel p = Some ''UI'' then js_mul (Num (ui li)) (p_uiRate p)
            else p_flatPrice p)"
    and "addonTotal li =
           jsSum (map (\<lambda>ia. addonPrice (ui li) (snd ia))
             (acceptedAddons p (calculateUI w h) all (allAddonIds p sel all)))"
    and "lineItemParTotal li = js_add (basePrice li) (addonTotal li)"
  using ok by (auto simp: calculateLineItem_char split: if_splits option.splits)

text \<open>
  Claim C2. When \<open>calculateLineItem\<close> returns a line item, its \<open>ui\<close> is the effective
  UI, the larger of \<open>calculateUI width height\<close> and \<open>product.minimumUI || 0\<close>; a
  UI-priced product has base price effective UI times \<open>uiRate\<close>; the applied addons are
  exactly the ids of the addon set that are known and that \<open>isAddonAllowed\<close> accepts at
  the raw, un-clamped UI; and a UI-priced applied addon costs effective UI times its rate.
\<close>

theorem lineItem_effectiveUI:
  assumes ok: "calculateLineItem p w h sel all = Inr li"
  shows "ui li = max (calculateUI w h) (orZero (p_minimumUI p))
       \<and> (p_pricingModel p = Some ''UI'' \<longrightarrow> basePrice li = js_mul (Num (ui li)) (p_uiRate p))
       \<and> appliedAddons li =
           map (appliedEntry (ui li))
             (acceptedAddons p (calculateUI w h) all (allAddonIds p sel all))
       \<and> (\<forall>i. i \<in> aa_id ` set (appliedAddons li) \<longleftrightarrow>
             i \<in> set (allAddonIds p sel all)
             \<and> (\<exists>a. all i = Some a \<and> isAddonAllowed a p (calculateUI w h)))
       \<and> (\<forall>e \<in> set (appliedAddons li). \<forall>a. all (aa_id e) = Some a \<longrightarrow>
             a_pricingModel a = ''UI'' \<longrightarrow> aa_price e = js_mul (Num (ui li)) (a_uiRate a))"
proof -
  let ?u = "calculateUI w h"
  let ?e = "max ?u (orZero (p_minimumUI p))"
  let ?acc = "acceptedAddons p ?u all (allAddonIds p sel all)"
  have fields: "ui li = ?e" "appliedAddons li = map (appliedEntry ?e) ?acc"
    "basePrice li = (if p_pricingModel p = Some ''UI'' then js_mul (Num ?e) (p_uiRate p) else p_flatPrice p)"
    using calculateLineItem_Inr [OF ok] by simp_all
  have ids: "aa_id ` set (appliedAddons li) = fst ` set ?acc"
    by (simp add: fields image_image appliedEntry_id)
  have mem: "i \<in> fst ` set ?acc \<longleftrightarrow>
        i \<in> set (allAddonIds p sel all) \<and> (\<exists>a. all i = Some a \<and> isAddonAllowed a p ?u)" for i
    using acceptedAddons_mem [of i _ p ?u all "allAddonIds p sel all"] by force
  have price: "aa_price e = js_mul (Num (ui li)) (a_uiRate a)"
    if "e \<in> set (appliedAddons li)" "all (aa_id e) = Some a" "a_pricingModel a = ''UI''" for e a
  proof -
    from that(1) obtain i b where ib: "(i, b) \<in> set ?acc" "e = appliedEntry ?e (i, b)"
      by (auto simp: fields)
    then have "all i = Some b" by (simp add: acceptedAddons_mem)
    with ib that(2) have "b = a" by (simp add: appliedEntry_id)
    with ib that(3) show ?thesis by (simp add: appliedEntry_price addonPrice_def fields)
  qed
  show ?thesis using fields ids mem price by simp
qed

theorem lineItem_effectiveUI_witness:
  "calculateLineItem (exProduct\<lparr>p_minimumUI := Num 60\<rparr>) 30 20 [''grid''] [''grid'' \<mapsto> exAddon] =
     Inr \<lparr>ui = 60, basePrice = Num 600, addonTotal = Num 120, lineItemParTotal = Num 720,
       appliedAddons = [\<lparr>aa_id = ''grid'', aa_name = ''Grids'', aa_price = Num 120, aa_hidden = False\<rparr>]\<rparr>
   \<and> calculateUI 30 20 = 50
   \<and> max (calculateUI 30 20) (orZero (p_minimumUI (exProduct\<lparr>p_minimumUI := Num 60\<rparr>))) = 60
   \<and> isAddonAllowed exAddon (exProduct\<lparr>p_minimumUI := Num 60\<rparr>) 50
   \<and> \<not> isAddonAllowed exAddon (exProduct\<lparr>p_minimumUI := Num 60\<rparr>) 60
   \<and> acceptedAddons (exProduct\<lparr>p_minimumUI := Num 60\<rparr>) (calculateUI 30 20) [''grid'' \<mapsto> exAddon]
        (allAddonIds (exProduct\<lparr>p_minimumUI := Num 60\<rparr>) [''grid''] [''grid'' \<mapsto> exAddon])
      = [(''grid'', exAddon)]"
proof -
  have run: "calculateLineItem (exProduct\<lparr>p_minimumUI := Num 60\<rparr>) 30 20 [''grid''] [''grid'' \<mapsto> exAddon] =
     Inr \<lparr>ui = 60, basePrice = Num 600, addonTotal = Num 120, lineItemParTotal = Num 720,
       appliedAddons = [\<lparr>aa_id = ''grid'', aa_name = ''Grids'', aa_price = Num 120, aa_hidden = False\<rparr>]\<rparr>"
    by (simp add: engine_simps js_simps exProduct_def exAddon_def)
  have "appliedEntry 60 (''grid'', exAddon) =
      \<lparr>aa_id = ''grid'', aa_name = ''Grids'', aa_price = Num 120, aa_hidden = False\<rparr>"
    by (simp add: appliedEntry_def addonPrice_def js_simps exAddon_def)
  then show ?thesis using run lineItem_effectiveUI [OF run]
    by (simp add: engine_simps js_simps exProduct_def exAddon_def)
qed

text \<open>
  Claim C3. Every addon of \<open>product.allowedAddons\<close> whose catalog entry is flagged
  mandatory is in the addon set \<open>calculateLineItem\<close> applies, which is the mandatory ids
  followed by the selected ids without duplicates, also when the caller did not select it;
  and when the call returns and \<open>isAddonAllowed\<close> accepts the addon, its entry appears in
  \<open>appliedAddons\<close>, exactly once, with the addon's price, and \<open>addonTotal\<close> is the sum of
  the prices of the applied addons.
\<close>

theorem mandatory_addons_applied:
  assumes "p_allowedAddons p = Some allowed" and "i \<in> set allowed"
    and "all i = Some a" and "a_mandatory a"
  shows "i \<in> set (allAddonIds p sel all)
       \<and> distinct (allAddonIds p sel all)
       \<and> set (allAddonIds p sel all) = set (mandatoryAddonIds p all) \<union> set sel
       \<and> (\<forall>li. calculateLineItem p w h sel all = Inr li
                 \<and> isAddonAllowed a p (calculateUI w h) \<longrightarrow>
             appliedEntry (ui li) (i, a) \<in> set (appliedAddons li)
             \<and> length (filter (\<lambda>e. aa_id e = i) (appliedAddons li)) = 1
             \<and> aa_price (appliedEntry (ui li) (i, a)) = addonPrice (ui li) a
             \<and> addonTotal li = jsSum (map aa_price (appliedAddons li)))"
proof -
  let ?ids = "allAddonIds p sel all"
  let ?u = "calculateUI w h"
  have mand: "i \<in> set (mandatoryAddonIds p all)"
    using assms by (simp add: mandatoryAddonIds_def isMandatory_def)
  have sets: "set ?ids = set (mandatoryAddonIds p all) \<union> set sel"
    by (simp add: allAddonIds_def dedup_set)
  have dist: "distinct ?ids" by (simp add: allAddonIds_def dedup_distinct)
  have inc: "i \<in> set ?ids" using mand sets by simp
  have applied: "appliedEntry (ui li) (i, a) \<in> set (appliedAddons li)
             \<and> length (filter (\<lambda>e. aa_id e = i) (appliedAddons li)) = 1
             \<and> aa_price (appliedEntry (ui li) (i, a)) = addonPrice (ui li) a
             \<and> addonTotal li = jsSum (map aa_price (appliedAddons li))"
    if ok: "calculateLineItem p w h sel all = Inr li" and allowed: "isAddonAllowed a p ?u" for li
  proof -
    let ?acc = "acceptedAddons p ?u all ?ids"
    have app: "appliedAddons li = map (appliedEntry (ui li)) ?acc"
      by (rule calculateLineItem_Inr(2) [OF ok])
    have tot: "addonTotal li = jsSum (map (\<lambda>ia. addonPrice (ui li) (snd ia)) ?acc)"
      by (rule calculateLineItem_Inr(4) [OF ok])
    have inacc: "(i, a) \<in> set ?acc" using inc assms(3) allowed by (simp add: acceptedAddons_mem)
    have d: "distinct (map fst ?acc)" using dist by (rule acceptedAddons_distinct)
    have "filter (\<lambda>e. aa_id e = i) (appliedAddons li)
          = map (appliedEntry (ui li)) (filter (\<lambda>ia. fst ia = i) ?acc)"
      by (simp add: app filter_map o_def appliedEntry_id)
    moreover have "length (filter (\<lambda>ia. fst ia = i) ?acc) = 1"
    proof -
      have "length (filter (\<lambda>ia. fst ia = i) ?acc) = count_list (map fst ?acc) i"
        by (rule count_fst)
      also have "\<dots> = 1"
        using d inacc by (force simp: count_list_distinct)
      finally show ?thesis .
    qed
    ultimately have once: "length (filter (\<lambda>e. aa_id e = i) (appliedAddons li)) = 1" by simp
    have prices: "map aa_price (appliedAddons li) = map (\<lambda>ia. addonPrice (ui li) (snd ia)) ?acc"
      by (simp add: app appliedEntry_price)
    have "appliedEntry (ui li) (i, a) \<in> set (appliedAddons li)"
      using inacc by (simp add: app)
    moreover have "aa_price (appliedEntry (ui li) (i, a)) = addonPrice (ui li) a"
      by (simp add: appliedEntry_price)
    moreover have "addonTotal li = jsSum (map aa_price (appliedAddons li))"
      unfolding prices by (rule tot)
    ultimately show ?thesis using once by simp
  qed
  show ?thesis using inc dist sets applied by blast
qed

theorem mandatory_addons_applied_witness:
  "p_allowedAddons exProduct = Some [''lock''] \<and> ''lock'' \<in> set [''lock'']
   \<and> [''lock'' \<mapsto> exLock] ''lock'' = Some exLock \<and> a_mandatory exLock
   \<and> isAddonAllowed exLock exProduct (calculateUI 30 20)
   \<and> allAddonIds exProduct [] [''lock'' \<mapsto> exLock] = [''lock'']
   \<and> calculateLineItem exProduct 30 20 [] [''lock'' \<mapsto> exLock] =
       Inr \<lparr>ui = 50, basePrice = Num 500, addonTotal = Num 25, lineItemParTotal = Num 525,
            appliedAddons = [\<lparr>aa_id = ''lock'', aa_name = ''Lock'', aa_price = Num 25, aa_hidden = True\<rparr>]\<rparr>
   \<and> appliedEntry 50 (''lock'', exLock) =
        \<lparr>aa_id = ''lock'', aa_name = ''Lock'', aa_price = Num 25, aa_hidden = True\<rparr>"
proof -
  have pre: "p_allowedAddons exProduct = Some [''lock'']" "''lock'' \<in> set [''lock'']"
    "[''lock'' \<mapsto> exLock] ''lock'' = Some exLock" "a_mandatory exLock"
    by (simp_all add: exProduct_def exLock_def)
  from mandatory_addons_applied [where p = exProduct and allowed = "[''lock'']"
      and i = "''lock''" and all = "[''lock'' \<mapsto> exLock]" and a = exLock
      and sel = "[]" and w = 30 and h = 20, OF pre]
  show ?thesis using pre
    by (simp add: engine_simps js_simps exProduct_def exLock_def appliedEntry_def)
qed

lemma count_acceptedGroups:
  "g \<noteq> [] \<Longrightarrow>
   count_list (acceptedGroups (acceptedAddons p u all ids)) g =
     length (filter (\<lambda>i. case all i of None \<Rightarrow> False
                          | Some a \<Rightarrow> isAddonAllowed a p u \<and> a_exclusiveGroup a = Some g) ids)"
proof (induction ids)
  case Nil
  then show ?case by (simp add: acceptedGroups_def)
next
  case (Cons i rest)
  show ?case
  proof (cases "all i")
    case None
    then show ?thesis using Cons by simp
  next
    case (Some a)
    then show ?thesis using Cons
      by (auto simp: acceptedGroups_Cons declaredGroup_def truthyStr_def split: option.splits)
  qed
qed

lemma two_in_filter:
  assumes "i \<in> set xs" "j \<in> set xs" "i \<noteq> j" "P i" "P j"
  shows "2 \<le> length (filter P xs)"
proof -
  have "{i, j} \<subseteq> set (filter P xs)" using assms by simp
  then have "card {i, j} \<le> card (set (filter P xs))" by (intro card_mono) simp_all
  also have "\<dots> \<le> length (filter P xs)" by (rule card_length)
  finally show ?thesis using assms(3) by simp
qed

text \<open>
  Claim C4, amended. When two different ids of the addon set are known, accepted by
  \<open>isAddonAllowed\<close> and declare the same non-empty exclusive group, \<open>calculateLineItem\<close>
  returns no line item: with a product pricing model other than \<open>UI\<close> and \<open>FLAT\<close> it
  fails with the invalid-configuration error, otherwise with the exclusive-group conflict
  naming the first group, in iteration order, that an accepted addon repeats. That group is
  declared by at least two accepted addons, and it is the given group when no other group
  is declared twice.
\<close>

theorem exclusive_group_conflict:
  assumes "i \<in> set (allAddonIds p sel all)" and "j \<in> set (allAddonIds p sel all)" and "i \<noteq> j"
    and "all i = Some a" and "all j = Some b"
    and "isAddonAllowed a p (calculateUI w h)" and "isAddonAllowed b p (calculateUI w h)"
    and "a_exclusiveGroup a = Some g" and "a_exclusiveGroup b = Some g" and "g \<noteq> []"
  shows "\<exists>g'. firstRepeat {} (acceptedGroups
                 (acceptedAddons p (calculateUI w h) all (allAddonIds p sel all))) = Some g'
          \<and> 2 \<le> count_list (acceptedGroups
                 (acceptedAddons p (calculateUI w h) all (allAddonIds p sel all))) g'
          \<and> ((\<forall>g''. 2 \<le> count_list (acceptedGroups
                 (acceptedAddons p (calculateUI w h) all (allAddonIds p sel all))) g''
                  \<longrightarrow> g'' = g) \<longrightarrow> g' = g)
          \<and> calculateLineItem p w h sel all =
               (if p_pricingModel p = Some ''UI'' \<or> p_pricingModel p = Some ''FLAT''
                then Inl (ExclusiveGroupConflict g')
                else Inl (InvalidConfiguration (p_pricingModel p)))
          \<and> (\<forall>li. calculateLineItem p w h sel all \<noteq> Inr li)"
proof -
  let ?gs = "acceptedGroups (acceptedAddons p (calculateUI w h) all (allAddonIds p sel all))"
  have "2 \<le> count_list ?gs g"
    unfolding count_acceptedGroups [OF assms(10)]
    by (rule two_in_filter [OF assms(1,2,3)]) (simp_all add: assms)
  then have "\<not> distinct ?gs" using count_list_distinct [of ?gs g] by (auto split: if_splits)
  then obtain g' where fr: "firstRepeat {} ?gs = Some g'"
    using firstRepeat_None_iff [of "{}" ?gs] by (cases "firstRepeat {} ?gs") auto
  from firstRepeat_Some_count [OF fr] have cnt: "2 \<le> count_list ?gs g'" by simp
  have res: "calculateLineItem p w h sel all =
               (if p_pricingModel p = Some ''UI'' \<or> p_pricingModel p = Some ''FLAT''
                then Inl (ExclusiveGroupConflict g')
                else Inl (InvalidConfiguration (p_pricingModel p)))"
    by (simp add: calculateLineItem_char fr)
  then have "calculateLineItem p w h sel all \<noteq> Inr li" for li by (simp split: if_splits)
  then show ?thesis using fr cnt res by blast
qed

theorem exclusive_group_conflict_witness:
  "''clear'' \<in> set (allAddonIds exProduct [''clear'', ''tempered''] exGlass)
   \<and> ''tempered'' \<in> set (allAddonIds exProduct [''clear'', ''tempered''] exGlass)
   \<and> isAddonAllowed (the (exGlass ''clear'')) exProduct (calculateUI 30 20)
   \<and> isAddonAllowed (the (exGlass ''tempered'')) exProduct (calculateUI 30 20)
   \<and> a_exclusiveGroup (the (exGlass ''clear'')) = Some ''glass''
   \<and> a_exclusiveGroup (the (exGlass ''tempered'')) = Some ''glass''
   \<and> calculateLineItem exProduct 30 20 [''clear'', ''tempered''] exGlass
       = Inl (ExclusiveGroupConflict ''glass'')"
proof -
  have run: "calculateLineItem exProduct 30 20 [''clear'', ''tempered''] exGlass
       = Inl (ExclusiveGroupConflict ''glass'')"
    by (simp add: ex_simps)
  have pre: "''clear'' \<in> set (allAddonIds exProduct [''clear'', ''tempered''] exGlass)"
    "''tempered'' \<in> set (allAddonIds exProduct [''clear'', ''tempered''] exGlass)"
    "''clear'' \<noteq> ''tempered''"
    "exGlass ''clear'' = Some (exAddon\<lparr>a_id := ''clear'', a_exclusiveGroup := Some ''glass''\<rparr>)"
    "exGlass ''tempered'' = Some (exAddon\<lparr>a_id := ''tempered'', a_exclusiveGroup := Some ''glass''\<rparr>)"
    "isAddonAllowed (exAddon\<lparr>a_id := ''clear'', a_exclusiveGroup := Some ''glass''\<rparr>) exProduct (calculateUI 30 20)"
    "isAddonAllowed (exAddon\<lparr>a_id := ''tempered'', a_exclusiveGroup := Some ''glass''\<rparr>) exProduct (calculateUI 30 20)"
    "a_exclusiveGroup (exAddon\<lparr>a_id := ''clear'', a_exclusiveGroup := Some ''glass''\<rparr>) = Some ''glass''"
    "a_exclusiveGroup (exAddon\<lparr>a_id := ''tempered'', a_exclusiveGroup := Some ''glass''\<rparr>) = Some ''glass''"
    "''glass'' \<noteq> []"
    by (simp_all add: ex_simps)
  from exclusive_group_conflict [OF pre]
  show ?thesis using run pre by simp
qed

theorem exclusive_group_conflict_counterexample:
  "exGlass ''clear'' \<noteq> None \<and> exGlass ''tempered'' \<noteq> None
   \<and> isAddonAllowed (the (exGlass ''clear'')) (exProduct\<lparr>p_pricingModel := Some ''TIERED''\<rparr>) (calculateUI 30 20)
   \<and> isAddonAllowed (the (exGlass ''tempered'')) (exProduct\<lparr>p_pricingModel := Some ''TIERED''\<rparr>) (calculateUI 30 20)
   \<and> a_exclusiveGroup (the (exGlass ''clear'')) = Some ''glass''
   \<and> a_exclusiveGroup (the (exGlass ''tempered'')) = Some ''glass''
   \<and> calculateLineItem (exProduct\<lparr>p_pricingModel := Some ''TIERED''\<rparr>) 30 20 [''clear'', ''tempered''] exGlass
       = Inl (InvalidConfiguration (Some ''TIERED''))
   \<and> isAddonAllowed (the (exGlass ''oak'')) exProduct (calculateUI 30 20)
   \<and> isAddonAllowed (the (exGlass ''pine'')) exProduct (calculateUI 30 20)
   \<and> calculateLineItem exProduct 30 20 [''oak'', ''clear'', ''pine'', ''tempered''] exGlass
       = Inl (ExclusiveGroupConflict ''frame'')"
  by (simp add: ex_simps)

lemma invalid_product_model:
  "p_pricingModel p \<noteq> Some ''UI'' \<Longrightarrow> p_pricingModel p \<noteq> Some ''FLAT'' \<Longrightarrow>
     calculateLineItem p w h sel all = Inl (InvalidConfiguration (p_pricingModel p))"
  by (simp add: calculateLineItem_def Let_def)

text \<open>
  Claim C6. A product pricing model other than \<open>UI\<close> and \<open>FLAT\<close> is rejected with the
  invalid-configuration error (\<open>invalid_product_model\<close>), but an applied addon with such a
  pricing model is not: the call returns a line item in which the addon is priced 0.
\<close>

theorem unknown_addon_model_priced_zero:
  "calculateLineItem exProduct 30 20 [''x''] [''x'' \<mapsto> exAddon\<lparr>a_pricingModel := ''PERCENT''\<rparr>] =
     Inr \<lparr>ui = 50, basePrice = Num 500, addonTotal = Num 0, lineItemParTotal = Num 500,
          appliedAddons = [\<lparr>aa_id = ''x'', aa_name = ''Grids'', aa_price = Num 0, aa_hidden = False\<rparr>]\<rparr>"
  by (simp add: engine_simps js_simps exProduct_def exAddon_def)

subsection \<open>validateSize and validateUI\<close>

lemma below_iff: "truthy bound \<and> js_lt (Num v) bound \<longleftrightarrow> belowLimit v bound"
  by (cases bound) (simp_all add: js_lt_def belowLimit_def)

lemma above_iff: "truthy bound \<and> js_gt (Num v) bound \<longleftrightarrow> aboveLimit v bound"
  by (cases bound) (simp_all add: js_lt_def js_gt_def aboveLimit_def)

text \<open>
  Claim C9, amended. A limit counts only when it is a non-zero number: a limit that is
  missing, \<open>null\<close> or 0 is unconstrained. Without \<open>sizeLimits\<close>, \<open>validateSize\<close>
  returns \<open>valid = true\<close> and no list. With \<open>sizeLimits\<close>, its list holds the message of a
  constraint exactly when that constraint is violated, one message per violated constraint,
  and \<open>valid\<close> is true exactly when the list is empty; the same for \<open>validateUI\<close> and the
  product's \<open>minimumUI\<close> and \<open>maximumUI\<close>.
\<close>

theorem validate_all_violations:
  "(p_sizeLimits p = None \<longrightarrow> validateSize ns p w h = \<lparr>valid = True, errors = None\<rparr>)
   \<and> (\<forall>l. p_sizeLimits p = Some l \<longrightarrow>
        (\<exists>errs. errors (validateSize ns p w h) = Some errs
           \<and> (''Width must be at least '' @ template ns (minWidth l) @ [dquote] \<in> set errs
                \<longleftrightarrow> belowLimit w (minWidth l))
           \<and> (''Width cannot exceed '' @ template ns (maxWidth l) @ [dquote] \<in> set errs
                \<longleftrightarrow> aboveLimit w (maxWidth l))
           \<and> (''Height must be at least '' @ template ns (minHeight l) @ [dquote] \<in> set errs
                \<longleftrightarrow> belowLimit h (minHeight l))
           \<and> (''Height cannot exceed '' @ template ns (maxHeight l) @ [dquote] \<in> set errs
                \<longleftrightarrow> aboveLimit h (maxHeight l))
           \<and> length errs = (if belowLimit w (minWidth l) then 1 else 0)
                + (if aboveLimit w (maxWidth l) then 1 else 0)
                + (if belowLimit h (minHeight l) then 1 else 0)
                + (if aboveLimit h (maxHeight l) then 1 else 0)
           \<and> (valid (validateSize ns p w h) \<longleftrightarrow> errs = [])))
   \<and> (\<exists>errs. errors (validateUI ns p u) = Some errs
           \<and> (''UI must be at least '' @ template ns (p_minimumUI p) \<in> set errs
                \<longleftrightarrow> belowLimit u (p_minimumUI p))
           \<and> (''UI cannot exceed '' @ template ns (p_maximumUI p) \<in> set errs
                \<longleftrightarrow> aboveLimit u (p_maximumUI p))
           \<and> length errs = (if belowLimit u (p_minimumUI p) then 1 else 0)
                + (if aboveLimit u (p_maximumUI p) then 1 else 0)
           \<and> (valid (validateUI ns p u) \<longleftrightarrow> errs = []))"
proof -
  have none: "p_sizeLimits p = None \<Longrightarrow> validateSize ns p w h = \<lparr>valid = True, errors = None\<rparr>"
    by (simp add: validateSize_def)
  have size: "\<exists>errs. errors (validateSize ns p w h) = Some errs
           \<and> (''Width must be at least '' @ template ns (minWidth l) @ [dquote] \<in> set errs
                \<longleftrightarrow> belowLimit w (minWidth l))
           \<and> (''Width cannot exceed '' @ template ns (maxWidth l) @ [dquote] \<in> set errs
                \<longleftrightarrow> aboveLimit w (maxWidth l))
           \<and> (''Height must be at least '' @ template ns (minHeight l) @ [dquote] \<in> set errs
                \<longleftrightarrow> belowLimit h (minHeight l))
           \<and> (''Height cannot exceed '' @ template ns (maxHeight l) @ [dquote] \<in> set errs
                \<longleftrightarrow> aboveLimit h (maxHeight l))
           \<and> length errs = (if belowLimit w (minWidth l) then 1 else 0)
                + (if aboveLimit w (maxWidth l) then 1 else 0)
                + (if belowLimit h (minHeight l) then 1 else 0)
                + (if aboveLimit h (maxHeight l) then 1 else 0)
           \<and> (valid (validateSize ns p w h) \<longleftrightarrow> errs = [])"
    if "p_sizeLimits p = Some l" for l
    using that by (simp add: validateSize_def Let_def below_iff above_iff)
  have uiv: "\<exists>errs. errors (validateUI ns p u) = Some errs
           \<and> (''UI must be at least '' @ template ns (p_minimumUI p) \<in> set errs
                \<longleftrightarrow> belowLimit u (p_minimumUI p))
           \<and> (''UI cannot exceed '' @ template ns (p_maximumUI p) \<in> set errs
                \<longleftrightarrow> aboveLimit u (p_maximumUI p))
           \<and> length errs = (if belowLimit u (p_minimumUI p) then 1 else 0)
                + (if aboveLimit u (p_maximumUI p) then 1 else 0)
           \<and> (valid (validateUI ns p u) \<longleftrightarrow> errs = [])"
    by (simp add: validateUI_def Let_def below_iff above_iff)
  show ?thesis using none size uiv by blast
qed

theorem validate_all_violations_witness:
  "validateSize decimalString (exProduct\<lparr>p_sizeLimits := Some exLimits\<rparr>) 10 20 =
     \<lparr>valid = False,
      errors = Some [''Width must be at least 20'' @ [dquote], ''Height must be at least 30'' @ [dquote]]\<rparr>
   \<and> validateSize decimalString exProduct 10 20 = \<lparr>valid = True, errors = None\<rparr>
   \<and> validateUI decimalString (exProduct\<lparr>p_minimumUI := Num 60, p_maximumUI := Num 40\<rparr>) 50 =
       \<lparr>valid = False, errors = Some [''UI must be at least 60'', ''UI cannot exceed 40'']\<rparr>
   \<and> belowLimit 10 (minWidth exLimits) \<and> \<not> aboveLimit 10 (maxWidth exLimits)
   \<and> belowLimit 20 (minHeight exLimits) \<and> \<not> aboveLimit 20 (maxHeight exLimits)"
  using validate_all_violations [of "exProduct\<lparr>p_sizeLimits := Some exLimits\<rparr>" decimalString 10 20 50]
    validate_all_violations [of exProduct decimalString 10 20 50]
  by (simp add: validateSize_def validateUI_def template_def runtime_simps js_simps
        belowLimit_def aboveLimit_def exProduct_def exLimits_def Let_def)

theorem validate_all_violations_counterexample:
  "p_sizeLimits (exProduct\<lparr>p_sizeLimits := Some (exLimits\<lparr>maxWidth := Num 0\<rparr>)\<rparr>)
     = Some (exLimits\<lparr>maxWidth := Num 0\<rparr>)
   \<and> maxWidth (exLimits\<lparr>maxWidth := Num 0\<rparr>) = Num 0
   \<and> (0::real) < 25
   \<and> validateSize decimalString (exProduct\<lparr>p_sizeLimits := Some (exLimits\<lparr>maxWidth := Num 0\<rparr>)\<rparr>) 25 35
       = \<lparr>valid = True, errors = Some []\<rparr>"
  by (simp add: validateSize_def template_def js_simps exProduct_def exLimits_def Let_def)

subsection \<open>createQuoteVersion\<close>

lemma allocatesD:
  assumes "allocates alloc rd" "alloc h v = (r, h')"
  shows "fresh h \<le> r" "r < fresh h'" "fresh h \<le> fresh h'"
    "a < fresh h \<Longrightarrow> cells h' a = cells h a"
    "agree (cells h') cs' (fresh h) (fresh h') \<Longrightarrow> rd cs' r = Some v"
  using assms unfolding allocates_def by blast+

lemma newCell_props:
  assumes "newCell h c = (r, h')"
  shows "r = fresh h" "fresh h' = Suc (fresh h)" "cells h' r = Some c"
    "a < fresh h \<Longrightarrow> cells h' a = cells h a"
  using assms by (auto simp: newCell_def)

lemma allocAll_props:
  assumes al: "allocates alloc rd"
  shows "allocAll alloc h vs = (rs, h') \<Longrightarrow>
     fresh h \<le> fresh h'
     \<and> (\<forall>a. a < fresh h \<longrightarrow> cells h' a = cells h a)
     \<and> (\<forall>cs'. agree (cells h') cs' (fresh h) (fresh h') \<longrightarrow> readAll (rd cs') rs = Some vs)"
proof (induction vs arbitrary: h rs h')
  case Nil
  then show ?case by simp
next
  case (Cons v vs)
  obtain r h1 where a1: "alloc h v = (r, h1)" by (cases "alloc h v")
  obtain rs' h2 where a2: "allocAll alloc h1 vs = (rs', h2)" by (cases "allocAll alloc h1 vs")
  from Cons.prems a1 a2 have eq: "rs = r # rs'" "h' = h2" by simp_all
  note p1 = allocatesD [OF al a1]
  from Cons.IH [OF a2] have
    le2: "fresh h1 \<le> fresh h2" and
    keep2: "\<And>a. a < fresh h1 \<Longrightarrow> cells h2 a = cells h1 a" and
    rd2: "\<And>cs'. agree (cells h2) cs' (fresh h1) (fresh h2) \<Longrightarrow> readAll (rd cs') rs' = Some vs"
    by blast+
  have le: "fresh h \<le> fresh h2" using p1(3) le2 by simp
  have keep: "cells h2 a = cells h a" if "a < fresh h" for a
    using that keep2 [of a] p1(4) [of a] p1(3) by simp
  have rd: "readAll (rd cs') (r # rs') = Some (v # vs)"
    if ag: "agree (cells h2) cs' (fresh h) (fresh h2)" for cs'
  proof -
    have "agree (cells h1) cs' (fresh h) (fresh h1)"
      using ag keep2 le2 unfolding agree_def by (metis le_trans not_le order.strict_trans2)
    then have r1: "rd cs' r = Some v" by (rule p1(5))
    have "agree (cells h2) cs' (fresh h1) (fresh h2)"
      using ag p1(3) unfolding agree_def by (meson le_trans)
    then have "readAll (rd cs') rs' = Some vs" by (rule rd2)
    with r1 show ?thesis by simp
  qed
  show ?case unfolding eq using le keep rd by blast
qed

lemma allocates_applied: "allocates allocApplied readApplied"
  unfolding allocates_def allocApplied_def newCell_def readApplied_def agree_def
  by auto

lemma allocates_array:
  assumes al: "allocates alloc rd"
  shows "allocates (\<lambda>h vs. case allocAll alloc h vs of (rs, h1) \<Rightarrow> newCell h1 (ArrayCell rs))
           (\<lambda>cs r. case cs r of Some (ArrayCell rs) \<Rightarrow> readAll (rd cs) rs | _ \<Rightarrow> None)"
  unfolding allocates_def
proof (intro allI impI)
  fix h vs r h'
  assume run: "(case allocAll alloc h vs of (rs, h1) \<Rightarrow> newCell h1 (ArrayCell rs)) = (r, h')"
  obtain rs h1 where a1: "allocAll alloc h vs = (rs, h1)" by (cases "allocAll alloc h vs")
  with run have n: "newCell h1 (ArrayCell rs) = (r, h')" by simp
  note q = newCell_props [OF n]
  from allocAll_props [OF al a1] have
    le1: "fresh h \<le> fresh h1" and
    keep1: "\<And>a. a < fresh h \<Longrightarrow> cells h1 a = cells h a" and
    rd1: "\<And>cs'. agree (cells h1) cs' (fresh h) (fresh h1) \<Longrightarrow> readAll (rd cs') rs = Some vs"
    by blast+
  have keep: "cells h' a = cells h a" if "a < fresh h" for a
    using that q(4) [of a] keep1 [of a] le1 by simp
  have rd: "(case cs' r of Some (ArrayCell rs) \<Rightarrow> readAll (rd cs') rs | _ \<Rightarrow> None) = Some vs"
    if ag: "agree (cells h') cs' (fresh h) (fresh h')" for cs'
  proof -
    have "cs' r = Some (ArrayCell rs)"
      using ag q le1 unfolding agree_def by (metis lessI)
    moreover have "agree (cells h1) cs' (fresh h) (fresh h1)"
      using ag q unfolding agree_def by (metis less_Suc_eq)
    ultimately show ?thesis using rd1 by simp
  qed
  show "fresh h \<le> r \<and> r < fresh h' \<and> fresh h \<le> fresh h'
        \<and> (\<forall>a. a < fresh h \<longrightarrow> cells h' a = cells h a)
        \<and> (\<forall>cs'. agree (cells h') cs' (fresh h) (fresh h') \<longrightarrow>
              (case cs' r of Some (ArrayCell rs) \<Rightarrow> readAll (rd cs') rs | _ \<Rightarrow> None) = Some vs)"
    using q le1 keep rd by auto
qed

lemma allocates_appliedArray:
  "allocates (\<lambda>h vs. case allocAll allocApplied h vs of (rs, h1) \<Rightarrow> newCell h1 (ArrayCell rs))
     readAppliedArray"
proof -
  have "readAppliedArray = (\<lambda>cs r. case cs r of Some (ArrayCell rs) \<Rightarrow> readAll (readApplied cs) rs | _ \<Rightarrow> None)"
    by (intro ext) (simp add: readAppliedArray_def)
  then show ?thesis using allocates_array [OF allocates_applied] by simp
qed

lemma allocates_lineItem: "allocates allocLineItem readLineItem"
  unfolding allocates_def
proof (intro allI impI)
  fix h li r h'
  assume run: "allocLineItem h li = (r, h')"
  obtain ra h2 where a2:
    "(case allocAll allocApplied h (appliedAddons li) of (rs, h1) \<Rightarrow> newCell h1 (ArrayCell rs)) = (ra, h2)"
    by (cases "case allocAll allocApplied h (appliedAddons li) of (rs, h1) \<Rightarrow> newCell h1 (ArrayCell rs)")
  let ?ob = "\<lparr>o_ui = ui li, o_basePrice = basePrice li,
             o_addonTotal = addonTotal li, o_lineItemParTotal = lineItemParTotal li,
             o_appliedAddons = ra\<rparr>"
  from run a2 have n: "newCell h2 (LineItemCell ?ob) = (r, h')"
    by (auto simp: allocLineItem_def split: prod.splits)
  note q = newCell_props [OF n]
  note p = allocatesD [OF allocates_appliedArray a2]
  have keep: "cells h' a = cells h a" if "a < fresh h" for a
    using that q(4) [of a] p(4) [of a] p(3) by simp
  have rd: "readLineItem cs' r = Some li"
    if ag: "agree (cells h') cs' (fresh h) (fresh h')" for cs'
  proof -
    have c: "cs' r = Some (LineItemCell ?ob)"
      using ag q p(3) unfolding agree_def by (metis lessI)
    have "agree (cells h2) cs' (fresh h) (fresh h2)"
      using ag q unfolding agree_def by (metis less_Suc_eq)
    then have "readAppliedArray cs' ra = Some (appliedAddons li)" by (rule p(5))
    with c show ?thesis by (simp add: readLineItem_def)
  qed
  show "fresh h \<le> r \<and> r < fresh h' \<and> fresh h \<le> fresh h'
        \<and> (\<forall>a. a < fresh h \<longrightarrow> cells h' a = cells h a)
        \<and> (\<forall>cs'. agree (cells h') cs' (fresh h) (fresh h') \<longrightarrow> readLineItem cs' r = Some li)"
    using q p(3) keep rd by auto
qed

lemma allocates_lineItems: "allocates allocLineItems readLineItems"
proof -
  have r: "readLineItems = (\<lambda>cs r. case cs r of Some (ArrayCell rs) \<Rightarrow> readAll (readLineItem cs) rs | _ \<Rightarrow> None)"
    by (intro ext) (simp add: readLineItems_def)
  have a: "allocLineItems = (\<lambda>h vs. case allocAll allocLineItem h vs of (rs, h1) \<Rightarrow> newCell h1 (ArrayCell rs))"
    by (intro ext) (simp add: allocLineItems_def)
  show ?thesis unfolding r a by (rule allocates_array [OF allocates_lineItem])
qed

lemma readLineItems_dom: "readLineItems cs r = Some lis \<Longrightarrow> cs r \<noteq> None"
  by (auto simp: readLineItems_def split: option.splits)

lemma jsonNum_id: "v \<noteq> NaN \<Longrightarrow> jsonNum v = v"
  by (cases v) (simp_all add: jsonNum_def)

lemma jsonLineItem_id: "nanFree li \<Longrightarrow> jsonLineItem li = li"
proof -
  assume n: "nanFree li"
  then have "map (\<lambda>e. e\<lparr>aa_price := jsonNum (aa_price e)\<rparr>) (appliedAddons li) = appliedAddons li"
    by (intro map_idI) (auto simp: nanFree_def list_all_iff jsonNum_id)
  then show ?thesis using n by (simp add: jsonLineItem_def nanFree_def jsonNum_id)
qed

text \<open>
  What \<open>createQuoteVersion\<close> does on line items stored in a well-formed heap. It fails
  exactly as \<open>calculateQuote\<close> does on the same line items and uplift, and otherwise
  returns a version with \<open>locked = true\<close> whose \<open>totalParPrice\<close>, \<open>salesUplift\<close> and
  \<open>finalPrice\<close> are those of \<open>calculateQuote\<close>. Its \<open>lineItems\<close> is a fresh array that
  reads as what \<open>JSON.parse(JSON.stringify(lineItems))\<close> yields, which is the input when
  no number in it is \<open>NaN\<close>. It keeps reading so after any change to the cells that
  existed before the call, the original array among them. A second call on the same line
  items, at another time and in another heap, returns a version that differs in \<open>id\<close>,
  \<open>timestamp\<close> and the reference of the copy only, with a copy of equal content.
\<close>

lemma createQuoteVersion_char:
  assumes wf: "wfHeap h" and rd: "readLineItems (cells h) lineItemsRef = Some lineItems"
  shows "case calculateQuote lineItems [] uplift of
           Inl e \<Rightarrow> createQuoteVersion ns now stamp h quoteId lineItemsRef uplift md = Inl e
         | Inr q \<Rightarrow>
             (\<exists>v h'. createQuoteVersion ns now stamp h quoteId lineItemsRef uplift md = Inr (v, h')
                \<and> qv_locked v
                \<and> qv_totalParPrice v = totalParPrice q
                \<and> qv_salesUplift v = salesUplift q
                \<and> qv_finalPrice v = finalPrice q
                \<and> lineItemsRef < fresh h \<and> fresh h \<le> qv_lineItems v
                \<and> readLineItems (cells h') (qv_lineItems v) = Some (map jsonLineItem lineItems)
                \<and> (list_all nanFree lineItems \<longrightarrow> map jsonLineItem lineItems = lineItems)
                \<and> (\<forall>cs'. (\<forall>a. fresh h \<le> a \<longrightarrow> cs' a = cells h' a) \<longrightarrow>
                      readLineItems cs' (qv_lineItems v) = Some (map jsonLineItem lineItems))
                \<and> (\<forall>c. readLineItems ((cells h')(lineItemsRef := c)) (qv_lineItems v)
                        = Some (map jsonLineItem lineItems))
                \<and> (\<forall>now2 stamp2 h2 ref2. readLineItems (cells h2) ref2 = Some lineItems \<longrightarrow>
                      (\<exists>v2 h2'. createQuoteVersion ns now2 stamp2 h2 quoteId ref2 uplift md = Inr (v2, h2')
                         \<and> qv_finalPrice v2 = qv_finalPrice v
                         \<and> qv_totalParPrice v2 = qv_totalParPrice v
                         \<and> v2\<lparr>qv_id := qv_id v, qv_timestamp := qv_timestamp v,
                               qv_lineItems := qv_lineItems v\<rparr> = v
                         \<and> readLineItems (cells h2') (qv_lineItems v2)
                             = readLineItems (cells h') (qv_lineItems v))))"
proof (cases "calculateQuote lineItems [] uplift")
  case (Inl e)
  then show ?thesis using rd by (simp add: createQuoteVersion_def)
next
  case (Inr q)
  obtain copy h' where al: "allocLineItems h (map jsonLineItem lineItems) = (copy, h')"
    by (cases "allocLineItems h (map jsonLineItem lineItems)")
  let ?v = "\<lparr>qv_id = quoteId @ ''_v'' @ ns now, qv_quoteId = quoteId, qv_timestamp = stamp,
             qv_lineItems = copy, qv_totalParPrice = totalParPrice q,
             qv_salesUplift = salesUplift q, qv_finalPrice = finalPrice q,
             qv_locked = True, qv_metadata = md\<rparr>"
  have run: "createQuoteVersion ns now stamp h quoteId lineItemsRef uplift md = Inr (?v, h')"
    using rd Inr al by (simp add: createQuoteVersion_def)
  note p = allocatesD [OF allocates_lineItems al]
  have old: "lineItemsRef < fresh h"
    using wf readLineItems_dom [OF rd] unfolding wfHeap_def by (meson not_le)
  have frame: "readLineItems cs' copy = Some (map jsonLineItem lineItems)"
    if "\<forall>a. fresh h \<le> a \<longrightarrow> cs' a = cells h' a" for cs'
    using that by (intro p(5)) (simp add: agree_def)
  have here: "readLineItems (cells h') copy = Some (map jsonLineItem lineItems)"
    by (rule frame) simp
  have mut: "readLineItems ((cells h')(lineItemsRef := c)) copy = Some (map jsonLineItem lineItems)" for c
    by (rule frame) (use old in auto)
  have same: "list_all nanFree lineItems \<longrightarrow> map jsonLineItem lineItems = lineItems"
    by (auto simp: list_all_iff jsonLineItem_id intro: map_idI)
  have again: "\<exists>v2 h2'. createQuoteVersion ns now2 stamp2 h2 quoteId ref2 uplift md = Inr (v2, h2')
                         \<and> qv_finalPrice v2 = qv_finalPrice ?v
                         \<and> qv_totalParPrice v2 = qv_totalParPrice ?v
                         \<and> v2\<lparr>qv_id := qv_id ?v, qv_timestamp := qv_timestamp ?v,
                               qv_lineItems := qv_lineItems ?v\<rparr> = ?v
                         \<and> readLineItems (cells h2') (qv_lineItems v2)
                             = readLineItems (cells h') (qv_lineItems ?v)"
    if rd2: "readLineItems (cells h2) ref2 = Some lineItems" for now2 stamp2 h2 ref2
  proof -
    obtain copy2 h2' where al2: "allocLineItems h2 (map jsonLineItem lineItems) = (copy2, h2')"
      by (cases "allocLineItems h2 (map jsonLineItem lineItems)")
    have "readLineItems (cells h2') copy2 = Some (map jsonLineItem lineItems)"
      by (rule allocatesD(5) [OF allocates_lineItems al2]) (simp add: agree_def)
    then show ?thesis using rd2 Inr al2 here by (simp add: createQuoteVersion_def)
  qed
  show ?thesis unfolding Inr using run old p(1) here same frame mut again
    by (simp del: fun_upd_apply)
qed

lemma createQuoteVersion_example:
  "wfHeap exHeap
   \<and> readLineItems (cells exHeap) 3 = Some [exStored]
   \<and> calculateQuote [exStored] [] 75 =
       Inr \<lparr>totalParPrice = Num 525, jobAddonTotal = 0, jobBasedAddons = [], salesUplift = 75,
            finalPrice = Num 600\<rparr>
   \<and> (case createQuoteVersion decimalString 1700 ''2026'' exHeap ''Q7'' 3 75 () of
         Inl e \<Rightarrow> False
       | Inr (v, h') \<Rightarrow>
           qv_id v = ''Q7_v1700'' \<and> qv_locked v \<and> qv_totalParPrice v = Num 525
           \<and> qv_salesUplift v = 75 \<and> qv_finalPrice v = Num 600 \<and> qv_lineItems v = 7
           \<and> readLineItems (cells h') 7 = Some [exStored]
           \<and> readLineItems ((cells h')(3 \<mapsto> ArrayCell [])) 3 = Some []
           \<and> readLineItems ((cells h')(3 \<mapsto> ArrayCell [])) 7 = Some [exStored])"
proof -
  have wf: "wfHeap exHeap" by (simp add: wfHeap_def exHeap_def)
  have rd: "readLineItems (cells exHeap) 3 = Some [exStored]"
    by (simp add: heap_simps exHeap_def exStored_def)
  have calc: "calculateQuote [exStored] [] 75 =
       Inr \<lparr>totalParPrice = Num 525, jobAddonTotal = 0, jobBasedAddons = [], salesUplift = 75,
            finalPrice = Num 600\<rparr>"
    by (simp add: calculateQuote_def js_simps exStored_def)
  have name: "decimalString 1700 = ''1700''" by (simp add: runtime_simps)
  have run: "(case createQuoteVersion decimalString 1700 ''2026'' exHeap ''Q7'' 3 75 () of
         Inl e \<Rightarrow> False
       | Inr (v, h') \<Rightarrow>
           qv_id v = ''Q7_v1700'' \<and> qv_locked v \<and> qv_totalParPrice v = Num 525
           \<and> qv_salesUplift v = 75 \<and> qv_finalPrice v = Num 600 \<and> qv_lineItems v = 7
           \<and> readLineItems (cells h') 7 = Some [exStored]
           \<and> readLineItems ((cells h')(3 \<mapsto> ArrayCell [])) 3 = Some []
           \<and> readLineItems ((cells h')(3 \<mapsto> ArrayCell [])) 7 = Some [exStored])"
    unfolding createQuoteVersion_def rd name
    by (simp add: calc [unfolded exStored_def] heap_simps exHeap_def exStored_def)
  have all: "wfHeap exHeap
   \<and> readLineItems (cells exHeap) 3 = Some [exStored]
   \<and> calculateQuote [exStored] [] 75 =
       Inr \<lparr>totalParPrice = Num 525, jobAddonTotal = 0, jobBasedAddons = [], salesUplift = 75,
            finalPrice = Num 600\<rparr>
   \<and> (case createQuoteVersion decimalString 1700 ''2026'' exHeap ''Q7'' 3 75 () of
         Inl e \<Rightarrow> False
       | Inr (v, h') \<Rightarrow>
           qv_id v = ''Q7_v1700'' \<and> qv_locked v \<and> qv_totalParPrice v = Num 525
           \<and> qv_salesUplift v = 75 \<and> qv_finalPrice v = Num 600 \<and> qv_lineItems v = 7
           \<and> readLineItems (cells h') 7 = Some [exStored]
           \<and> readLineItems ((cells h')(3 \<mapsto> ArrayCell [])) 3 = Some []
           \<and> readLineItems ((cells h')(3 \<mapsto> ArrayCell [])) 7 = Some [exStored])"
    using wf rd calc run by (intro conjI)
  show ?thesis
    by (rule mp [OF _ createQuoteVersion_char [OF wf rd, where uplift = 75 and ns = decimalString
      and now = 1700 and stamp = "''2026''" and quoteId = "''Q7''" and md = "()"]], rule impI, rule all)
qed

text \<open>
  Claim C7. The version's \<open>lineItems\<close> is to be a deep copy of the input. The code
  clones with \<open>JSON.parse(JSON.stringify(lineItems))\<close>, under the comment
  \<open>Deep clone\<close>, and JSON has no \<open>NaN\<close>: the line item that \<open>calculateLineItem\<close>
  returns for a UI-priced product without \<open>uiRate\<close> has \<open>NaN\<close> as \<open>basePrice\<close> and
  \<open>lineItemParTotal\<close>, and the version made from it holds \<open>null\<close> in both fields. The
  copy is not equal to the input.
\<close>

theorem createQuoteVersion_clone_loses_NaN:
  "calculateLineItem (exProduct\<lparr>p_uiRate := Undefined, p_allowedAddons := None\<rparr>) 30 20 []
       Map.empty =
     Inr \<lparr>ui = 50, basePrice = NaN, addonTotal = Num 0, lineItemParTotal = NaN,
          appliedAddons = []\<rparr>
   \<and> readLineItems (cells exNaNHeap) 2 =
       Some [\<lparr>ui = 50, basePrice = NaN, addonTotal = Num 0, lineItemParTotal = NaN,
              appliedAddons = []\<rparr>]
   \<and> (case createQuoteVersion decimalString 1700 ''2026'' exNaNHeap ''Q7'' 2 0 () of
         Inl e \<Rightarrow> False
       | Inr (v, h') \<Rightarrow>
           qv_locked v
           \<and> readLineItems (cells h') (qv_lineItems v) =
               Some [\<lparr>ui = 50, basePrice = Null, addonTotal = Num 0, lineItemParTotal = Null,
                      appliedAddons = []\<rparr>])
   \<and> Null \<noteq> NaN"
proof -
  have li: "calculateLineItem (exProduct\<lparr>p_uiRate := Undefined, p_allowedAddons := None\<rparr>) 30 20 []
       Map.empty =
     Inr \<lparr>ui = 50, basePrice = NaN, addonTotal = Num 0, lineItemParTotal = NaN,
          appliedAddons = []\<rparr>"
    by (simp add: ex_simps)
  have rd: "readLineItems (cells exNaNHeap) 2 =
       Some [\<lparr>ui = 50, basePrice = NaN, addonTotal = Num 0, lineItemParTotal = NaN,
              appliedAddons = []\<rparr>]"
    by (simp add: heap_simps exNaNHeap_def)
  have calc: "calculateQuote [\<lparr>ui = 50, basePrice = NaN, addonTotal = Num 0, lineItemParTotal = NaN,
              appliedAddons = []\<rparr>] [] 0 =
       Inr \<lparr>totalParPrice = NaN, jobAddonTotal = 0, jobBasedAddons = [], salesUplift = 0,
            finalPrice = NaN\<rparr>"
    by (simp add: calculateQuote_def js_simps)
  have run: "(case createQuoteVersion decimalString 1700 ''2026'' exNaNHeap ''Q7'' 2 0 () of
         Inl e \<Rightarrow> False
       | Inr (v, h') \<Rightarrow>
           qv_locked v
           \<and> readLineItems (cells h') (qv_lineItems v) =
               Some [\<lparr>ui = 50, basePrice = Null, addonTotal = Num 0, lineItemParTotal = Null,
                      appliedAddons = []\<rparr>])"
    unfolding createQuoteVersion_def rd
    by (simp add: calc heap_simps exNaNHeap_def)
  show ?thesis using li rd run by simp
qed

subsection \<open>exportAsCSV and importFromCSV\<close>

lemma trim_Nil [simp]: "trim [] = []"
  by (simp add: trim_def)

lemma dropWhile_hd: "xs \<noteq> [] \<Longrightarrow> \<not> P (hd xs) \<Longrightarrow> dropWhile P xs = xs"
  by (cases xs) simp_all

lemma dropWhile_hd_shorter:
  "xs \<noteq> [] \<Longrightarrow> P (hd xs) \<Longrightarrow> length (dropWhile P xs) < length xs"
  by (cases xs) (simp_all add: le_imp_less_Suc length_dropWhile_le)

lemma trim_id:
  assumes "s \<noteq> []" "\<not> isSpace (hd s)" "\<not> isSpace (last s)"
  shows "trim s = s"
proof -
  have a: "dropWhile isSpace s = s" using assms(1,2) by (rule dropWhile_hd)
  have "dropWhile isSpace (rev s) = rev s"
    using assms(1,3) by (intro dropWhile_hd) (simp_all add: hd_rev)
  then show ?thesis by (simp add: trim_def a)
qed

lemma trim_idD:
  assumes t: "trim s = s" and ne: "s \<noteq> []"
  shows "\<not> isSpace (hd s)" "\<not> isSpace (last s)"
proof -
  have len: "length (trim s) = length s" using t by simp
  have l1: "length (trim s) \<le> length (dropWhile isSpace s)"
    unfolding trim_def length_rev using length_dropWhile_le [of isSpace "rev (dropWhile isSpace s)"]
    by simp
  show h: "\<not> isSpace (hd s)"
  proof
    assume "isSpace (hd s)"
    from dropWhile_hd_shorter [of s isSpace, OF ne this] l1 len show False by simp
  qed
  have a: "dropWhile isSpace s = s" using ne h by (rule dropWhile_hd)
  show "\<not> isSpace (last s)"
  proof
    assume "isSpace (last s)"
    then have "isSpace (hd (rev s))" using ne by (simp add: hd_rev)
    from dropWhile_hd_shorter [of "rev s" isSpace, OF _ this] ne
    have "length (dropWhile isSpace (rev s)) < length s" by simp
    then show False using len by (simp add: trim_def a)
  qed
qed

lemma not_space_dquote [simp]: "\<not> isSpace dquote"
  by (simp add: isSpace_def dquote_def)

lemma splitOn_not_Nil [simp]: "splitOn sep s \<noteq> []"
  by (induction s) (auto split: list.splits)

lemma splitOn_no_sep: "sep \<notin> set s \<Longrightarrow> splitOn sep s = [s]"
  by (induction s) (auto split: list.splits)

lemma splitOn_append:
  "sep \<notin> set l \<Longrightarrow> splitOn sep (l @ sep # s) = l # splitOn sep s"
  by (induction l) (auto split: list.splits)

lemma unlines_Cons: "unlines (l # ls) = l @ newline # unlines ls"
  by (simp add: unlines_def)

lemma unlines_append: "unlines (xs @ ys) = unlines xs @ unlines ys"
  by (simp add: unlines_def)

lemma splitOn_unlines:
  "\<forall>l \<in> set ls. newline \<notin> set l \<Longrightarrow>
     splitOn newline (unlines ls @ s) = ls @ splitOn newline s"
  by (induction ls) (simp_all add: unlines_Cons splitOn_append unlines_def)

lemma rowLine_single: "rowLine [c] = quoted c"
  by (simp add: rowLine_def)

lemma rowLine_Cons2: "rowLine (c # d # ds) = quoted c @ CHR '','' # rowLine (d # ds)"
  by (simp add: rowLine_def)

lemma comma_not_dquote [simp]: "CHR '','' \<noteq> dquote" "dquote \<noteq> CHR '',''"
  by (simp_all add: dquote_def)

lemma scan_inside:
  "dquote \<notin> set f \<Longrightarrow>
     scanCSV (f @ dquote # rest) vals cur True = scanCSV rest vals (cur @ f) False"
  by (induction f arbitrary: cur) auto

lemma scan_quoted:
  "dquote \<notin> set f \<Longrightarrow> scanCSV (quoted f @ rest) vals [] False = scanCSV rest vals f False"
  using scan_inside [of f rest vals "[]"] by (simp add: quoted_def)

lemma scan_row:
  "cols \<noteq> [] \<Longrightarrow> \<forall>c \<in> set cols. plain c \<Longrightarrow>
     scanCSV (rowLine cols) vals [] False = vals @ cols"
proof (induction cols arbitrary: vals)
  case Nil
  then show ?case by simp
next
  case (Cons c cs)
  then have c: "dquote \<notin> set c" "trim c = c" by (simp_all add: plain_def)
  show ?case
  proof (cases cs)
    case Nil
    then show ?thesis using scan_quoted [OF c(1), of "[]" vals] c(2)
      by (simp add: rowLine_single)
  next
    case (Cons d ds)
    have "scanCSV (rowLine (c # d # ds)) vals [] False
            = scanCSV (CHR '','' # rowLine (d # ds)) vals c False"
      unfolding rowLine_Cons2 by (rule scan_quoted [OF c(1)])
    also have "\<dots> = scanCSV (rowLine (d # ds)) (vals @ [c]) [] False"
      using c(2) by simp
    also have "\<dots> = (vals @ [c]) @ (d # ds)"
      using Cons.IH [of "vals @ [c]"] Cons.prems(2) Cons by simp
    finally show ?thesis using Cons by simp
  qed
qed

lemma parse_row:
  assumes "cols \<noteq> []" "\<forall>c \<in> set cols. plain c"
  shows "parseCSVLine (rowLine cols) = cols"
proof -
  have "map (filter (\<lambda>c. c \<noteq> dquote)) cols = cols"
    using assms(2) by (intro map_idI) (auto simp: plain_def filter_id_conv)
  then show ?thesis using scan_row [OF assms, of "[]"] by (simp add: parseCSVLine_def)
qed

lemma rowLine_hd:
  assumes "cols \<noteq> []"
  shows "rowLine cols \<noteq> [] \<and> hd (rowLine cols) = dquote"
proof (cases cols)
  case Nil
  then show ?thesis using assms by simp
next
  case (Cons c cs)
  then show ?thesis by (cases cs) (simp_all add: rowLine_def quoted_def)
qed

lemma rowLine_last: "cols \<noteq> [] \<Longrightarrow> last (rowLine cols) = dquote"
proof (induction cols)
  case Nil
  then show ?case by simp
next
  case (Cons c cs)
  then show ?case
  proof (cases cs)
    case Nil
    then show ?thesis by (simp add: rowLine_single quoted_def)
  next
    case (Cons d ds)
    then show ?thesis using Cons.IH rowLine_hd [of "d # ds"]
      by (simp add: rowLine_Cons2)
  qed
qed

lemma rowLine_trim: "cols \<noteq> [] \<Longrightarrow> trim (rowLine cols) = rowLine cols"
  using rowLine_hd [of cols] rowLine_last [of cols] by (intro trim_id) simp_all

lemma rowLine_no_newline:
  "\<forall>c \<in> set cols. plain c \<Longrightarrow> newline \<notin> set (rowLine cols)"
proof (induction cols)
  case Nil
  then show ?case by (simp add: rowLine_def)
next
  case (Cons c cs)
  have nl: "newline \<noteq> dquote" "newline \<noteq> CHR '',''" by (simp_all add: newline_def dquote_def)
  show ?case
  proof (cases cs)
    case Nil
    then show ?thesis using Cons.prems nl by (simp add: rowLine_single quoted_def plain_def)
  next
    case (Cons d ds)
    then show ?thesis using Cons.IH Cons.prems nl
      by (simp add: rowLine_Cons2 quoted_def plain_def)
  qed
qed

lemma plain_Nil [simp]: "plain []"
  by (simp add: plain_def)

lemma plain_yesNo [simp]: "plain (yesNo b)"
  by (simp add: plain_def yesNo_def trim_def isSpace_def dquote_def newline_def)

lemma isYes_yesNo [simp]: "isYes (yesNo b) = b"
  by (simp add: isYes_def yesNo_def upperChar_def)

lemma printsBack_Num:
  "printsBack ns parse v \<Longrightarrow> \<exists>x. v = Num x \<and> parse (ns x) = Num x \<and> plain (ns x) \<and> ns x \<noteq> []"
  by (cases v) (simp_all add: printsBack_def)

lemma numOrEmpty_plain:
  "(if truthy v then A \<and> printsBack ns parse v else True) \<Longrightarrow> plain (numOrEmpty ns v)"
  by (cases v) (auto simp: numOrEmpty_def printsBack_def template_def split: if_splits)

lemma numOrEmpty_plain':
  "(if truthy v then printsBack ns parse v else True) \<Longrightarrow> plain (numOrEmpty ns v)"
  by (cases v) (auto simp: numOrEmpty_def printsBack_def template_def split: if_splits)

lemma numOrEmpty_parse:
  "(if truthy v then printsBack ns parse v else True) \<Longrightarrow>
     (if numOrEmpty ns v \<noteq> [] then parse (numOrEmpty ns v) else dflt) = keptNum dflt v"
  by (cases v) (auto simp: numOrEmpty_def printsBack_def template_def keptNum_def split: if_splits)

lemma numOrEmpty_empty: "\<not> truthy v \<Longrightarrow> numOrEmpty ns v = []"
  by (simp add: numOrEmpty_def)

lemma assign_own: "ownKey k \<Longrightarrow> assign obj k v = obj\<lparr>own := (own obj)(k \<mapsto> v)\<rparr>"
  by (simp add: assign_def ownKey_def)

lemma import_manufacturer:
  assumes "cleanManufacturer m"
  shows "importRow pf pint (Some InManufacturers) (manufacturerCols m) d =
     Inr (d\<lparr>d_manufacturers := (d_manufacturers d)\<lparr>own := (own (d_manufacturers d))(m_id m \<mapsto> m)\<rparr>\<rparr>)"
proof -
  have eq: "\<lparr>m_id = m_id m, m_name = m_name m\<rparr> = m" by simp
  have k: "ownKey (m_id m)" using assms by (simp add: cleanManufacturer_def)
  show ?thesis by (simp add: importRow_def manufacturerCols_def eq assign_own [OF k])
qed

lemma import_productLine:
  assumes "cleanProductLine pl"
  shows "importRow pf pint (Some InProductLines) (productLineCols pl) d =
     Inr (d\<lparr>d_productLines := (d_productLines d)\<lparr>own := (own (d_productLines d))(pl_id pl \<mapsto> pl)\<rparr>\<rparr>)"
proof -
  have eq: "\<lparr>pl_id = pl_id pl, pl_manufacturerId = pl_manufacturerId pl, pl_name = pl_name pl\<rparr> = pl"
    by simp
  have k: "ownKey (pl_id pl)" using assms by (simp add: cleanProductLine_def)
  show ?thesis by (simp add: importRow_def productLineCols_def eq assign_own [OF k])
qed

text \<open>A row whose id is \<open>__proto__\<close> adds no entry: it becomes the prototype.\<close>
lemma import_proto_row:
  "importRow pf pint (Some InManufacturers) [''__proto__'', n] d =
     Inr (d\<lparr>d_manufacturers :=
            (d_manufacturers d)\<lparr>proto := Some \<lparr>m_id = ''__proto__'', m_name = n\<rparr>\<rparr>\<rparr>)"
  by (simp add: importRow_def assign_def)

lemma importProduct_kept:
  assumes "cleanProduct ns pf pint p"
  shows "importProduct pf pint (productCols ns p) = keptProduct p"
proof -
  from assms obtain lid ty code pm where
    present: "p_productLineId p = Some lid" "p_productType p = Some ty"
      "p_productTypeCode p = Some code" "p_pricingModel p = Some pm"
    by (auto simp: cleanProduct_def presentPlain_def split: option.splits)
  have min: "orZero (pint (template ns (p_minimumUI p))) = orZero (p_minimumUI p)"
  proof (cases "p_minimumUI p")
    case (Num x)
    then have "pint (ns x) = Num x"
      using assms by (simp add: cleanProduct_def cleanMinimumUI_def printsBack_def)
    then show ?thesis using Num by (simp add: template_def)
  next
    case Undefined
    then have "\<not> truthy (pint (template ns (p_minimumUI p)))"
      using assms by (simp add: cleanProduct_def cleanMinimumUI_def)
    then show ?thesis using Undefined by (cases "pint (template ns (p_minimumUI p))") (simp_all add: orZero_def)
  next
    case Null
    then have "\<not> truthy (pint (template ns (p_minimumUI p)))"
      using assms by (simp add: cleanProduct_def cleanMinimumUI_def)
    then show ?thesis using Null by (cases "pint (template ns (p_minimumUI p))") (simp_all add: orZero_def)
  next
    case NaN
    then have "\<not> truthy (pint (template ns (p_minimumUI p)))"
      using assms by (simp add: cleanProduct_def cleanMinimumUI_def)
    then show ?thesis using NaN by (cases "pint (template ns (p_minimumUI p))") (simp_all add: orZero_def)
  qed
  have ui: "(if pm = ''UI'' \<and> numOrEmpty ns (p_uiRate p) \<noteq> []
             then pf (numOrEmpty ns (p_uiRate p)) else Undefined) = keptNum Undefined (p_uiRate p)"
  proof (cases "truthy (p_uiRate p)")
    case True
    then have "pm = ''UI''" and "printsBack ns pf (p_uiRate p)"
      using assms present by (simp_all add: cleanProduct_def)
    then show ?thesis using numOrEmpty_parse [of "p_uiRate p" ns pf Undefined] True by simp
  next
    case False
    then show ?thesis by (simp add: numOrEmpty_empty keptNum_def)
  qed
  have flat: "(if pm = ''FLAT'' \<and> numOrEmpty ns (p_flatPrice p) \<noteq> []
             then pf (numOrEmpty ns (p_flatPrice p)) else Undefined) = keptNum Undefined (p_flatPrice p)"
  proof (cases "truthy (p_flatPrice p)")
    case True
    then have "pm = ''FLAT''" and "printsBack ns pf (p_flatPrice p)"
      using assms present by (simp_all add: cleanProduct_def)
    then show ?thesis using numOrEmpty_parse [of "p_flatPrice p" ns pf Undefined] True by simp
  next
    case False
    then show ?thesis by (simp add: numOrEmpty_empty keptNum_def)
  qed
  have max: "(if numOrEmpty ns (p_maximumUI p) \<noteq> [] then pint (numOrEmpty ns (p_maximumUI p)) else Null)
               = keptNum Null (p_maximumUI p)"
    using assms by (intro numOrEmpty_parse) (simp add: cleanProduct_def)
  have "importProduct pf pint (productCols ns p) =
     \<lparr>p_id = p_id p, p_productLineId = Some lid, p_productLine = None,
      p_productType = Some ty, p_type = None, p_productTypeCode = Some code,
      p_name = p_name p, p_pricingModel = Some pm,
      p_uiRate = (if pm = ''UI'' \<and> numOrEmpty ns (p_uiRate p) \<noteq> []
                  then pf (numOrEmpty ns (p_uiRate p)) else Undefined),
      p_flatPrice = (if pm = ''FLAT'' \<and> numOrEmpty ns (p_flatPrice p) \<noteq> []
                     then pf (numOrEmpty ns (p_flatPrice p)) else Undefined),
      p_minimumUI = Num (orZero (pint (template ns (p_minimumUI p)))),
      p_maximumUI = (if numOrEmpty ns (p_maximumUI p) \<noteq> []
                     then pint (numOrEmpty ns (p_maximumUI p)) else Null),
      p_sizeLimits = None, p_allowedAddons = None\<rparr>"
    by (simp add: importProduct_def productCols_def present valueAt_def
          parseAt_def truthyStr_def templateStr_def
          split del: if_split cong: if_cong)
  also have "\<dots> = keptProduct p"
    unfolding ui flat max min
    by (rule product.equality) (simp_all add: keptProduct_def present)
  finally show ?thesis .
qed

lemma trim_space_Cons: "isSpace c \<Longrightarrow> trim (c # s) = trim s"
  by (simp add: trim_def)

lemma joinWith_Cons2: "joinWith sep (x # y # ys) = x @ sep @ joinWith sep (y # ys)"
  by simp

lemma split_join_items:
  "xs \<noteq> [] \<Longrightarrow> \<forall>t \<in> set xs. listItem t \<Longrightarrow>
     map trim (splitOn CHR '';'' (joinWith ''; '' xs)) = xs"
proof (induction xs)
  case Nil
  then show ?case by simp
next
  case (Cons x xs)
  then have x: "CHR '';'' \<notin> set x" "trim x = x" by (simp_all add: listItem_def plain_def)
  show ?case
  proof (cases xs)
    case Nil
    then show ?thesis using x by (simp add: splitOn_no_sep)
  next
    case (Cons y ys)
    have sp: "isSpace CHR '' ''" by (simp add: isSpace_def)
    from Cons.prems Cons have y: "CHR '';'' \<notin> set y" by (simp add: listItem_def)
    have "joinWith ''; '' (x # y # ys) = x @ CHR '';'' # (CHR '' '' # joinWith ''; '' (y # ys))"
      by simp
    then have "splitOn CHR '';'' (joinWith ''; '' (x # y # ys))
                = x # splitOn CHR '';'' (CHR '' '' # joinWith ''; '' (y # ys))"
      using splitOn_append [OF x(1)] by simp
    moreover have "splitOn CHR '';'' (CHR '' '' # joinWith ''; '' (y # ys))
                = (CHR '' '' # hd (splitOn CHR '';'' (joinWith ''; '' (y # ys))))
                    # tl (splitOn CHR '';'' (joinWith ''; '' (y # ys)))"
      by (cases "splitOn CHR '';'' (joinWith ''; '' (y # ys))") simp_all
    moreover have "map trim (splitOn CHR '';'' (joinWith ''; '' (y # ys))) = y # ys"
      using Cons.IH Cons.prems Cons by simp
    ultimately show ?thesis using x(2) Cons sp
      by (cases "splitOn CHR '';'' (joinWith ''; '' (y # ys))") (simp_all add: trim_space_Cons)
  qed
qed

lemma joinWith_items_hd_last:
  "xs \<noteq> [] \<Longrightarrow> \<forall>t \<in> set xs. listItem t \<Longrightarrow>
     joinWith ''; '' xs \<noteq> [] \<and> hd (joinWith ''; '' xs) = hd (hd xs)
     \<and> last (joinWith ''; '' xs) = last (last xs)
     \<and> dquote \<notin> set (joinWith ''; '' xs) \<and> newline \<notin> set (joinWith ''; '' xs)"
proof (induction xs)
  case Nil
  then show ?case by simp
next
  case (Cons x xs)
  have c: "CHR '';'' \<noteq> dquote" "CHR '' '' \<noteq> dquote" "CHR '';'' \<noteq> newline" "CHR '' '' \<noteq> newline"
    by (simp_all add: dquote_def newline_def)
  from Cons.prems have x: "x \<noteq> []" "dquote \<notin> set x" "newline \<notin> set x"
    by (simp_all add: listItem_def plain_def)
  show ?case
  proof (cases xs)
    case Nil
    then show ?thesis using x by simp
  next
    case (Cons y ys)
    then show ?thesis using Cons.IH Cons.prems x c by (simp del: joinWith.simps add: joinWith_Cons2)
  qed
qed

lemma joinWith_items_plain:
  assumes "cleanList l"
  shows "plain (joinWith ''; '' (case l of None \<Rightarrow> [] | Some xs \<Rightarrow> xs))"
proof (cases l)
  case None
  then show ?thesis by simp
next
  case (Some xs)
  show ?thesis
  proof (cases xs)
    case Nil
    then show ?thesis using Some by simp
  next
    case (Cons y ys)
    have items: "\<forall>t \<in> set xs. listItem t"
      using assms Some by (simp add: cleanList_def list_all_iff)
    from joinWith_items_hd_last [OF _ items] Cons
    have j: "joinWith ''; '' xs \<noteq> []" "hd (joinWith ''; '' xs) = hd y"
      "last (joinWith ''; '' xs) = last (last xs)"
      "dquote \<notin> set (joinWith ''; '' xs)" "newline \<notin> set (joinWith ''; '' xs)"
      by simp_all
    have y: "listItem y" and l: "listItem (last xs)" using items Cons by simp_all
    have "\<not> isSpace (hd y)" using y trim_idD(1) [of y] by (simp add: listItem_def plain_def)
    moreover have "\<not> isSpace (last (last xs))"
      using l trim_idD(2) [of "last xs"] by (simp add: listItem_def plain_def)
    ultimately have "trim (joinWith ''; '' xs) = joinWith ''; '' xs"
      using j by (intro trim_id) simp_all
    then show ?thesis using j Some by (simp add: plain_def)
  qed
qed

lemma importList_join:
  assumes "cleanList l"
  shows "importList (Some (joinWith ''; '' (case l of None \<Rightarrow> [] | Some xs \<Rightarrow> xs))) = keptList l"
proof (cases l)
  case None
  then show ?thesis by (simp add: importList_def truthyStr_def keptList_def)
next
  case (Some xs)
  show ?thesis
  proof (cases xs)
    case Nil
    then show ?thesis using Some by (simp add: importList_def truthyStr_def keptList_def)
  next
    case (Cons y ys)
    have items: "\<forall>t \<in> set xs. listItem t"
      using assms Some by (simp add: cleanList_def list_all_iff)
    have ne: "joinWith ''; '' xs \<noteq> []" using joinWith_items_hd_last [OF _ items] Cons by simp
    have "map trim (splitOn CHR '';'' (joinWith ''; '' xs)) = xs"
      using split_join_items [OF _ items] Cons by simp
    moreover have "filter (\<lambda>t. t \<noteq> []) xs = xs"
      using items by (simp add: listItem_def filter_id_conv)
    ultimately show ?thesis using Some Cons ne
      by (simp add: importList_def truthyStr_def keptList_def)
  qed
qed

lemma importAddon_kept:
  assumes "cleanAddon ns pf a"
  shows "importAddon pf (addonCols ns a) = Inr (keptAddon a)"
proof -
  let ?pm = "a_pricingModel a"
  have ui: "(if ?pm = ''UI'' \<and> numOrEmpty ns (a_uiRate a) \<noteq> []
             then pf (numOrEmpty ns (a_uiRate a)) else Undefined) = keptNum Undefined (a_uiRate a)"
  proof (cases "truthy (a_uiRate a)")
    case True
    then have "?pm = ''UI''" and "printsBack ns pf (a_uiRate a)"
      using assms by (simp_all add: cleanAddon_def)
    then show ?thesis using numOrEmpty_parse [of "a_uiRate a" ns pf Undefined] True by simp
  next
    case False
    then show ?thesis by (simp add: numOrEmpty_empty keptNum_def)
  qed
  have flat: "(if ?pm = ''FLAT'' \<and> numOrEmpty ns (a_flatPrice a) \<noteq> []
             then pf (numOrEmpty ns (a_flatPrice a)) else Undefined) = keptNum Undefined (a_flatPrice a)"
  proof (cases "truthy (a_flatPrice a)")
    case True
    then have "?pm = ''FLAT''" and "printsBack ns pf (a_flatPrice a)"
      using assms by (simp_all add: cleanAddon_def)
    then show ?thesis using numOrEmpty_parse [of "a_flatPrice a" ns pf Undefined] True by simp
  next
    case False
    then show ?thesis by (simp add: numOrEmpty_empty keptNum_def)
  qed
  have mn: "(if numOrEmpty ns (a_minSize a) \<noteq> [] then pf (numOrEmpty ns (a_minSize a)) else Null)
               = keptNum Null (a_minSize a)"
    using assms by (intro numOrEmpty_parse) (simp add: cleanAddon_def)
  have mx: "(if numOrEmpty ns (a_maxSize a) \<noteq> [] then pf (numOrEmpty ns (a_maxSize a)) else Null)
               = keptNum Null (a_maxSize a)"
    using assms by (intro numOrEmpty_parse) (simp add: cleanAddon_def)
  have grp: "(if strOrEmpty (a_exclusiveGroup a) \<noteq> [] then Some (strOrEmpty (a_exclusiveGroup a)) else None)
               = (if truthyStr (a_exclusiveGroup a) then a_exclusiveGroup a else None)"
    by (cases "a_exclusiveGroup a") (simp_all add: strOrEmpty_def truthyStr_def)
  have types: "importList (Some (joinWith ''; ''
       (case a_allowedProductTypes a of None \<Rightarrow> [] | Some xs \<Rightarrow> xs))) = keptList (a_allowedProductTypes a)"
    using assms by (intro importList_join) (simp add: cleanAddon_def)
  have lines: "importList (Some (joinWith ''; ''
       (case a_allowedProductLines a of None \<Rightarrow> [] | Some xs \<Rightarrow> xs))) = keptList (a_allowedProductLines a)"
    using assms by (intro importList_join) (simp add: cleanAddon_def)
  have "importAddon pf (addonCols ns a) = Inr
     \<lparr>a_id = a_id a, a_name = a_name a, a_pricingModel = ?pm,
      a_uiRate = (if ?pm = ''UI'' \<and> numOrEmpty ns (a_uiRate a) \<noteq> []
                  then pf (numOrEmpty ns (a_uiRate a)) else Undefined),
      a_flatPrice = (if ?pm = ''FLAT'' \<and> numOrEmpty ns (a_flatPrice a) \<noteq> []
                     then pf (numOrEmpty ns (a_flatPrice a)) else Undefined),
      a_exclusiveGroup = (if strOrEmpty (a_exclusiveGroup a) \<noteq> []
                          then Some (strOrEmpty (a_exclusiveGroup a)) else None),
      a_mandatory = a_mandatory a, a_hiddenFromCustomer = a_hiddenFromCustomer a,
      a_isJobBased = a_isJobBased a,
      a_allowedProductTypes = importList (Some (joinWith ''; ''
         (case a_allowedProductTypes a of None \<Rightarrow> [] | Some xs \<Rightarrow> xs))),
      a_allowedProductLines = importList (Some (joinWith ''; ''
         (case a_allowedProductLines a of None \<Rightarrow> [] | Some xs \<Rightarrow> xs))),
      a_minSize = (if numOrEmpty ns (a_minSize a) \<noteq> []
                   then pf (numOrEmpty ns (a_minSize a)) else Null),
      a_maxSize = (if numOrEmpty ns (a_maxSize a) \<noteq> []
                   then pf (numOrEmpty ns (a_maxSize a)) else Null)\<rparr>"
    by (simp add: importAddon_def addonCols_def valueAt_def parseAt_def truthyStr_def
          split del: if_split cong: if_cong)
  also have "\<dots> = Inr (keptAddon a)"
    unfolding ui flat mn mx grp types lines
    by (rule arg_cong [where f = Inr], rule addon.equality) (simp_all add: keptAddon_def)
  finally show ?thesis .
qed

lemma import_product:
  assumes "cleanProduct ns pf pint p"
  shows "importRow pf pint (Some InProducts) (productCols ns p) d =
           Inr (d\<lparr>d_products := (d_products d)\<lparr>own := (own (d_products d))(p_id p \<mapsto> keptProduct p)\<rparr>\<rparr>)"
proof -
  have "length (productCols ns p) = 10" "productCols ns p ! 0 = p_id p"
    by (simp_all add: productCols_def)
  moreover have k: "ownKey (p_id p)" using assms by (simp add: cleanProduct_def)
  ultimately show ?thesis using importProduct_kept [OF assms]
    by (simp add: importRow_def assign_own [OF k])
qed

lemma import_addon:
  assumes "cleanAddon ns pf a"
  shows "importRow pf pint (Some InAddons) (addonCols ns a) d =
           Inr (d\<lparr>d_addons := (d_addons d)\<lparr>own := (own (d_addons d))(a_id a \<mapsto> keptAddon a)\<rparr>\<rparr>)"
proof -
  have "length (addonCols ns a) = 13" by (simp add: addonCols_def)
  moreover have "a_id (keptAddon a) = a_id a" by (simp add: keptAddon_def)
  moreover have k: "ownKey (a_id a)" using assms by (simp add: cleanAddon_def)
  ultimately show ?thesis using importAddon_kept [OF assms]
    by (simp add: importRow_def assign_own [OF k])
qed

lemma plain_manufacturerCols:
  "cleanManufacturer m \<Longrightarrow> \<forall>c \<in> set (manufacturerCols m). plain c"
  by (simp add: cleanManufacturer_def manufacturerCols_def)

lemma plain_productLineCols:
  "cleanProductLine pl \<Longrightarrow> \<forall>c \<in> set (productLineCols pl). plain c"
  by (simp add: cleanProductLine_def productLineCols_def)

lemma presentPlain_template: "presentPlain s \<Longrightarrow> plain (templateStr s)"
  by (cases s) (simp_all add: presentPlain_def templateStr_def)

lemma plain_productCols:
  assumes "cleanProduct ns pf pint p"
  shows "\<forall>c \<in> set (productCols ns p). plain c"
proof -
  have "plain (numOrEmpty ns (p_uiRate p))" "plain (numOrEmpty ns (p_flatPrice p))"
    "plain (numOrEmpty ns (p_maximumUI p))"
    using assms
    by (auto simp: cleanProduct_def intro: numOrEmpty_plain numOrEmpty_plain' split: if_splits)
  moreover have "plain (template ns (p_minimumUI p))"
    using assms
    by (cases "p_minimumUI p")
       (simp_all add: cleanProduct_def cleanMinimumUI_def printsBack_def template_def plain_simps)
  ultimately show ?thesis using assms
    by (simp add: productCols_def cleanProduct_def presentPlain_template)
qed

lemma plain_addonCols:
  assumes "cleanAddon ns pf a"
  shows "\<forall>c \<in> set (addonCols ns a). plain c"
proof -
  have "plain (numOrEmpty ns (a_uiRate a))" "plain (numOrEmpty ns (a_flatPrice a))"
    "plain (numOrEmpty ns (a_minSize a))" "plain (numOrEmpty ns (a_maxSize a))"
    using assms
    by (auto simp: cleanAddon_def intro: numOrEmpty_plain numOrEmpty_plain' split: if_splits)
  moreover have
    "plain (joinWith ''; '' (case a_allowedProductTypes a of None \<Rightarrow> [] | Some xs \<Rightarrow> xs))"
    "plain (joinWith ''; '' (case a_allowedProductLines a of None \<Rightarrow> [] | Some xs \<Rightarrow> xs))"
    using assms by (simp_all add: cleanAddon_def joinWith_items_plain)
  ultimately show ?thesis using assms
    by (simp add: addonCols_def cleanAddon_def)
qed

lemma rowLine_not:
  assumes "cols \<noteq> []" "s = [] \<or> hd s \<noteq> dquote"
  shows "rowLine cols \<noteq> s"
  using rowLine_hd [OF assms(1)] assms(2) by auto

lemma import_rows:
  assumes rows: "\<forall>e \<in> set es. cols e \<noteq> [] \<and> (\<forall>c \<in> set (cols e). plain c)"
    and step: "\<And>e d. e \<in> set es \<Longrightarrow> importRow pf pint sec (cols e) d = Inr (store d e)"
  shows "importLines pf pint sec d (map (\<lambda>e. rowLine (cols e)) es @ rest)
           = importLines pf pint sec (foldl store d es) rest"
  using assms
proof (induction es arbitrary: d)
  case Nil
  then show ?case by simp
next
  case (Cons e es)
  from Cons.prems(1) have ne: "cols e \<noteq> []" and pl: "\<forall>c \<in> set (cols e). plain c" by simp_all
  have t: "trim (rowLine (cols e)) = rowLine (cols e)" by (rule rowLine_trim [OF ne])
  have nh: "rowLine (cols e) \<noteq> ''MANUFACTURERS''" "rowLine (cols e) \<noteq> ''PRODUCT LINES''"
    "rowLine (cols e) \<noteq> ''PRODUCTS''" "rowLine (cols e) \<noteq> ''ADDONS''" "rowLine (cols e) \<noteq> []"
    by (rule rowLine_not [OF ne], simp add: dquote_def)+
  have p: "parseCSVLine (rowLine (cols e)) = cols e" by (rule parse_row [OF ne pl])
  have s: "importRow pf pint sec (cols e) d = Inr (store d e)" by (rule Cons.prems(2)) simp
  have "importLines pf pint sec d (rowLine (cols e) # map (\<lambda>e. rowLine (cols e)) es @ rest)
          = importLines pf pint sec (store d e) (map (\<lambda>e. rowLine (cols e)) es @ rest)"
    by (simp add: t nh p s)
  also have "\<dots> = importLines pf pint sec (foldl store (store d e) es) rest"
    using Cons.prems by (intro Cons.IH) simp_all
  finally show ?case by simp
qed

lemma trim_drop_newline:
  assumes "s \<noteq> []" "\<not> isSpace (hd s)" "\<not> isSpace (last s)"
  shows "trim (s @ [newline]) = s"
proof -
  have sp: "isSpace newline" by (simp add: isSpace_def newline_def)
  have a: "dropWhile isSpace (s @ [newline]) = s @ [newline]"
    using assms(1,2) by (intro dropWhile_hd) simp_all
  have "dropWhile isSpace (rev s) = rev s"
    using assms(1,3) by (intro dropWhile_hd) (simp_all add: hd_rev)
  then show ?thesis using sp by (simp add: trim_def a)
qed

lemma unlines_snoc: "unlines (ls @ [l]) = unlines ls @ l @ [newline]"
  by (simp add: unlines_def)

lemma hd_unlines: "ls \<noteq> [] \<Longrightarrow> hd ls \<noteq> [] \<Longrightarrow> hd (unlines ls @ s) = hd (hd ls)"
  by (cases ls) (simp_all add: unlines_Cons)

lemma split_trim_unlines:
  assumes ne: "ls \<noteq> []" and h: "hd ls \<noteq> []" "\<not> isSpace (hd (hd ls))"
    and l: "last ls \<noteq> []" "\<not> isSpace (last (last ls))"
    and nl: "\<forall>l \<in> set ls. newline \<notin> set l"
  shows "splitOn newline (trim (unlines ls)) = ls"
proof -
  let ?body = "unlines (butlast ls) @ last ls"
  have dec: "ls = butlast ls @ [last ls]" using ne by simp
  have u: "unlines ls = ?body @ [newline]"
    using unlines_snoc [of "butlast ls" "last ls"] dec by simp
  have hb: "hd ?body = hd (hd ls)"
  proof (cases "butlast ls")
    case Nil
    then show ?thesis using dec by (simp add: unlines_def) (metis list.sel(1))
  next
    case (Cons a as)
    then have "hd ls = a" using dec by (metis hd_append2 list.sel(1) list.distinct(1))
    then show ?thesis using Cons h hd_unlines [of "butlast ls" "last ls"] by simp
  qed
  have "trim (?body @ [newline]) = ?body"
    using l h hb by (intro trim_drop_newline) simp_all
  then have "splitOn newline (trim (unlines ls)) = splitOn newline ?body" by (simp add: u)
  also have "\<dots> = butlast ls @ splitOn newline (last ls)"
    using nl by (intro splitOn_unlines) (auto dest: in_set_butlastD)
  also have "\<dots> = butlast ls @ [last ls]"
    using nl ne by (simp add: splitOn_no_sep)
  finally show ?thesis using dec by simp
qed

lemma putAll_Nil [simp]: "putAll key val f0 [] = f0"
  by (simp add: putAll_def)

lemma putAll_Cons: "putAll key val f0 (e # es) = putAll key val (f0(key e \<mapsto> val e)) es"
  by (simp add: putAll_def)

lemma putAll_snoc: "putAll key val f0 (es @ [e]) = (putAll key val f0 es)(key e \<mapsto> val e)"
  by (simp add: putAll_def)

lemma putAll_lookup:
  "distinct (map key es) \<Longrightarrow> e \<in> set es \<Longrightarrow> putAll key val f0 es (key e) = Some (val e)"
proof (induction es rule: rev_induct)
  case Nil
  then show ?case by simp
next
  case (snoc x xs)
  then show ?case by (cases "e = x") (auto simp: image_iff putAll_snoc)
qed

lemma putAll_dom: "dom (putAll key val f0 es) = dom f0 \<union> key ` set es"
proof (induction es rule: rev_induct)
  case Nil
  then show ?case by simp
next
  case (snoc x xs)
  have "dom ((putAll key val f0 xs)(key x \<mapsto> val x)) = insert (key x) (dom (putAll key val f0 xs))"
    by simp
  then show ?case using snoc by (simp add: putAll_snoc del: fun_upd_apply)
qed

lemma concat_rows: "concat (map (\<lambda>e. csvRow (cols e)) es) = unlines (map (\<lambda>e. rowLine (cols e)) es)"
  by (induction es) (simp_all add: unlines_def csvRow_def)

lemma export_unlines: "exportAsCSV ns v = unlines (exportLines ns v)"
  unfolding exportAsCSV_def exportLines_def concat_rows unlines_append
  by (simp add: unlines_def)

lemma titles_no_newline:
  "newline \<notin> set manufacturerTitles" "newline \<notin> set productLineTitles"
  "newline \<notin> set productTitles" "newline \<notin> set addonTitles"
  "newline \<notin> set ''MANUFACTURERS''" "newline \<notin> set ''PRODUCT LINES''"
  "newline \<notin> set ''PRODUCTS''" "newline \<notin> set ''ADDONS''"
  by (simp_all add: newline_def manufacturerTitles_def productLineTitles_def productTitles_def
        addonTitles_def)

lemma cleanVersion_rows:
  assumes "cleanVersion ns pf pint v"
  shows "\<forall>m \<in> set (manufacturers v). manufacturerCols m \<noteq> [] \<and> (\<forall>c \<in> set (manufacturerCols m). plain c)"
    and "\<forall>pl \<in> set (productLines v). productLineCols pl \<noteq> [] \<and> (\<forall>c \<in> set (productLineCols pl). plain c)"
    and "\<forall>p \<in> set (products v). productCols ns p \<noteq> [] \<and> (\<forall>c \<in> set (productCols ns p). plain c)"
    and "\<forall>a \<in> set (addons v). addonCols ns a \<noteq> [] \<and> (\<forall>c \<in> set (addonCols ns a). plain c)"
proof -
  show "\<forall>m \<in> set (manufacturers v). manufacturerCols m \<noteq> [] \<and> (\<forall>c \<in> set (manufacturerCols m). plain c)"
    using assms plain_manufacturerCols
    by (auto simp: cleanVersion_def list_all_iff manufacturerCols_def)
  show "\<forall>pl \<in> set (productLines v). productLineCols pl \<noteq> [] \<and> (\<forall>c \<in> set (productLineCols pl). plain c)"
    using assms plain_productLineCols
    by (auto simp: cleanVersion_def list_all_iff productLineCols_def)
  show "\<forall>p \<in> set (products v). productCols ns p \<noteq> [] \<and> (\<forall>c \<in> set (productCols ns p). plain c)"
  proof
    fix p assume "p \<in> set (products v)"
    then have "cleanProduct ns pf pint p" using assms by (simp add: cleanVersion_def list_all_iff)
    from plain_productCols [OF this]
    show "productCols ns p \<noteq> [] \<and> (\<forall>c \<in> set (productCols ns p). plain c)"
      by (simp add: productCols_def)
  qed
  show "\<forall>a \<in> set (addons v). addonCols ns a \<noteq> [] \<and> (\<forall>c \<in> set (addonCols ns a). plain c)"
  proof
    fix a assume "a \<in> set (addons v)"
    then have "cleanAddon ns pf a" using assms by (simp add: cleanVersion_def list_all_iff)
    from plain_addonCols [OF this]
    show "addonCols ns a \<noteq> [] \<and> (\<forall>c \<in> set (addonCols ns a). plain c)"
      by (simp add: addonCols_def)
  qed
qed

lemma export_lines_no_newline:
  assumes "cleanVersion ns pf pint v"
  shows "\<forall>l \<in> set (exportLines ns v). newline \<notin> set l"
  using cleanVersion_rows [OF assms] titles_no_newline
  by (auto simp: exportLines_def rowLine_no_newline)

lemma export_lines_last:
  assumes "cleanVersion ns pf pint v"
  shows "last (exportLines ns v) \<noteq> [] \<and> \<not> isSpace (last (last (exportLines ns v)))"
proof (cases "addons v" rule: rev_cases)
  case Nil
  then have "last (exportLines ns v) = addonTitles" by (simp add: exportLines_def)
  then show ?thesis by (simp add: addonTitles_def isSpace_def)
next
  case (snoc as a)
  then have l: "last (exportLines ns v) = rowLine (addonCols ns a)"
    by (simp add: exportLines_def)
  have "addonCols ns a \<noteq> []" by (simp add: addonCols_def)
  from rowLine_hd [OF this] rowLine_last [OF this] show ?thesis by (simp add: l)
qed

lemma split_export:
  assumes "cleanVersion ns pf pint v"
  shows "splitOn newline (trim (exportAsCSV ns v)) = exportLines ns v"
  unfolding export_unlines
proof (rule split_trim_unlines)
  show "exportLines ns v \<noteq> []" by (simp add: exportLines_def)
  show "hd (exportLines ns v) \<noteq> []" by (simp add: exportLines_def)
  show "\<not> isSpace (hd (hd (exportLines ns v)))" by (simp add: exportLines_def isSpace_def)
  show "last (exportLines ns v) \<noteq> []" using export_lines_last [OF assms] by simp
  show "\<not> isSpace (last (last (exportLines ns v)))" using export_lines_last [OF assms] by simp
  show "\<forall>l \<in> set (exportLines ns v). newline \<notin> set l" by (rule export_lines_no_newline [OF assms])
qed

lemma trim_headers:
  "trim ''MANUFACTURERS'' = ''MANUFACTURERS''" "trim ''PRODUCT LINES'' = ''PRODUCT LINES''"
  "trim ''PRODUCTS'' = ''PRODUCTS''" "trim ''ADDONS'' = ''ADDONS''"
  by (simp_all add: trim_def isSpace_def)

lemma import_header:
  "importLines pf pint sec d (''MANUFACTURERS'' # t # rest) = importLines pf pint (Some InManufacturers) d rest"
  "importLines pf pint sec d (''PRODUCT LINES'' # t # rest) = importLines pf pint (Some InProductLines) d rest"
  "importLines pf pint sec d (''PRODUCTS'' # t # rest) = importLines pf pint (Some InProducts) d rest"
  "importLines pf pint sec d (''ADDONS'' # t # rest) = importLines pf pint (Some InAddons) d rest"
  by (simp_all add: trim_headers)

lemma import_blank: "importLines pf pint sec d ([] # rest) = importLines pf pint sec d rest"
  by simp

lemma foldl_manufacturers:
  "foldl (\<lambda>d m. d\<lparr>d_manufacturers := (d_manufacturers d)\<lparr>own := (own (d_manufacturers d))(m_id m \<mapsto> m)\<rparr>\<rparr>) d ms
     = d\<lparr>d_manufacturers := (d_manufacturers d)\<lparr>own := putAll m_id (\<lambda>m. m) (own (d_manufacturers d)) ms\<rparr>\<rparr>"
  by (induction ms arbitrary: d) (simp_all add: putAll_Cons)

lemma foldl_productLines:
  "foldl (\<lambda>d pl. d\<lparr>d_productLines := (d_productLines d)\<lparr>own := (own (d_productLines d))(pl_id pl \<mapsto> pl)\<rparr>\<rparr>) d pls
     = d\<lparr>d_productLines := (d_productLines d)\<lparr>own := putAll pl_id (\<lambda>pl. pl) (own (d_productLines d)) pls\<rparr>\<rparr>"
  by (induction pls arbitrary: d) (simp_all add: putAll_Cons)

lemma foldl_products:
  "foldl (\<lambda>d p. d\<lparr>d_products := (d_products d)\<lparr>own := (own (d_products d))(p_id p \<mapsto> keptProduct p)\<rparr>\<rparr>) d ps
     = d\<lparr>d_products := (d_products d)\<lparr>own := putAll p_id keptProduct (own (d_products d)) ps\<rparr>\<rparr>"
  by (induction ps arbitrary: d) (simp_all add: putAll_Cons)

lemma foldl_addons:
  "foldl (\<lambda>d a. d\<lparr>d_addons := (d_addons d)\<lparr>own := (own (d_addons d))(a_id a \<mapsto> keptAddon a)\<rparr>\<rparr>) d as
     = d\<lparr>d_addons := (d_addons d)\<lparr>own := putAll a_id keptAddon (own (d_addons d)) as\<rparr>\<rparr>"
  by (induction as arbitrary: d) (simp_all add: putAll_Cons)

lemma import_export_lines:
  assumes cl: "cleanVersion ns pf pint v"
  shows "importLines pf pint None emptyData (exportLines ns v) =
     Inr \<lparr>d_manufacturers = \<lparr>own = putAll m_id (\<lambda>m. m) Map.empty (manufacturers v), proto = None\<rparr>,
          d_productLines = \<lparr>own = putAll pl_id (\<lambda>pl. pl) Map.empty (productLines v), proto = None\<rparr>,
          d_products = \<lparr>own = putAll p_id keptProduct Map.empty (products v), proto = None\<rparr>,
          d_addons = \<lparr>own = putAll a_id keptAddon Map.empty (addons v), proto = None\<rparr>\<rparr>"
proof -
  note rows = cleanVersion_rows [OF cl]
  have cm: "\<And>m. m \<in> set (manufacturers v) \<Longrightarrow> cleanManufacturer m"
    and cpl: "\<And>pl. pl \<in> set (productLines v) \<Longrightarrow> cleanProductLine pl"
    and cp: "\<And>p. p \<in> set (products v) \<Longrightarrow> cleanProduct ns pf pint p"
    and ca: "\<And>a. a \<in> set (addons v) \<Longrightarrow> cleanAddon ns pf a"
    using cl by (simp_all add: cleanVersion_def list_all_iff)
  have m: "importLines pf pint (Some InManufacturers) d
             (map (\<lambda>m. rowLine (manufacturerCols m)) (manufacturers v) @ rest)
           = importLines pf pint (Some InManufacturers)
               (d\<lparr>d_manufacturers := (d_manufacturers d)
                    \<lparr>own := putAll m_id (\<lambda>m. m) (own (d_manufacturers d)) (manufacturers v)\<rparr>\<rparr>) rest"
    for d rest
    unfolding foldl_manufacturers [symmetric]
    by (rule import_rows [OF rows(1)]) (rule import_manufacturer [OF cm])
  have l: "importLines pf pint (Some InProductLines) d
             (map (\<lambda>pl. rowLine (productLineCols pl)) (productLines v) @ rest)
           = importLines pf pint (Some InProductLines)
               (d\<lparr>d_productLines := (d_productLines d)
                    \<lparr>own := putAll pl_id (\<lambda>pl. pl) (own (d_productLines d)) (productLines v)\<rparr>\<rparr>) rest"
    for d rest
    unfolding foldl_productLines [symmetric]
    by (rule import_rows [OF rows(2)]) (rule import_productLine [OF cpl])
  have p: "importLines pf pint (Some InProducts) d
             (map (\<lambda>p. rowLine (productCols ns p)) (products v) @ rest)
           = importLines pf pint (Some InProducts)
               (d\<lparr>d_products := (d_products d)
                    \<lparr>own := putAll p_id keptProduct (own (d_products d)) (products v)\<rparr>\<rparr>) rest"
    for d rest
    unfolding foldl_products [symmetric]
    by (rule import_rows [OF rows(3)]) (rule import_product [OF cp])
  have a: "importLines pf pint (Some InAddons) d
             (map (\<lambda>a. rowLine (addonCols ns a)) (addons v) @ rest)
           = importLines pf pint (Some InAddons)
               (d\<lparr>d_addons := (d_addons d)
                    \<lparr>own := putAll a_id keptAddon (own (d_addons d)) (addons v)\<rparr>\<rparr>) rest"
    for d rest
    unfolding foldl_addons [symmetric]
    by (rule import_rows [OF rows(4)]) (rule import_addon [OF ca])
  have a0: "importLines pf pint (Some InAddons) d (map (\<lambda>a. rowLine (addonCols ns a)) (addons v))
           = Inr (d\<lparr>d_addons := (d_addons d)
                    \<lparr>own := putAll a_id keptAddon (own (d_addons d)) (addons v)\<rparr>\<rparr>)" for d
    using a [of d "[]"] by simp
  show ?thesis
    unfolding exportLines_def
    by (simp only: append_Cons append_Nil import_header import_blank m l p a0 append_assoc)
       (simp add: emptyData_def emptyObject_def)
qed

text \<open>
  Claim C1, amended. Take a catalog whose entities have distinct ids within each
  collection, none of them \<open>__proto__\<close>; whose text fields hold no double quote and no
  line feed and have no leading or trailing white space (the elements of a restriction
  list being moreover non-empty and free of semicolons); whose products carry
  \<open>productLineId\<close>, \<open>productType\<close>, \<open>productTypeCode\<close> and \<open>pricingModel\<close>; whose
  rates and prices are set only for the matching pricing model; and whose numbers print to
  text that parses back to them (\<open>parseFloat\<close> for rates, prices and sizes, \<open>parseInt\<close>
  for the UI bounds, which finds no number in the words \<open>undefined\<close>, \<open>null\<close> and
  \<open>NaN\<close> that a minimum UI which is not a number prints as). Then \<open>importFromCSV\<close> of
  the text of \<open>exportAsCSV\<close> returns collections with their prototype untouched that
  hold, under the id of each entity and nothing else, every manufacturer and product line
  unchanged and every product and addon with each column of the file reproduced by value.
  A rate, price, size or maximum UI that is null, undefined or 0 comes back absent, as do
  an empty exclusive group and an empty restriction list; a minimum UI that is not a
  number comes back as 0; \<open>sizeLimits\<close> and \<open>allowedAddons\<close> of a product, which have
  no column, are not reproduced.
\<close>

theorem csv_round_trip:
  assumes cl: "cleanVersion ns pf pint v"
  shows "\<exists>d. importFromCSV pf pint (exportAsCSV ns v) = Inr d
     \<and> (\<forall>m \<in> set (manufacturers v). own (d_manufacturers d) (m_id m) = Some m)
     \<and> dom (own (d_manufacturers d)) = m_id ` set (manufacturers v)
     \<and> (\<forall>pl \<in> set (productLines v). own (d_productLines d) (pl_id pl) = Some pl)
     \<and> dom (own (d_productLines d)) = pl_id ` set (productLines v)
     \<and> (\<forall>p \<in> set (products v). own (d_products d) (p_id p) = Some (keptProduct p))
     \<and> dom (own (d_products d)) = p_id ` set (products v)
     \<and> (\<forall>a \<in> set (addons v). own (d_addons d) (a_id a) = Some (keptAddon a))
     \<and> dom (own (d_addons d)) = a_id ` set (addons v)
     \<and> proto (d_manufacturers d) = None \<and> proto (d_productLines d) = None
     \<and> proto (d_products d) = None \<and> proto (d_addons d) = None"
proof -
  let ?d = "\<lparr>d_manufacturers = \<lparr>own = putAll m_id (\<lambda>m. m) Map.empty (manufacturers v), proto = None\<rparr>,
          d_productLines = \<lparr>own = putAll pl_id (\<lambda>pl. pl) Map.empty (productLines v), proto = None\<rparr>,
          d_products = \<lparr>own = putAll p_id keptProduct Map.empty (products v), proto = None\<rparr>,
          d_addons = \<lparr>own = putAll a_id keptAddon Map.empty (addons v), proto = None\<rparr>\<rparr>"
  have run: "importFromCSV pf pint (exportAsCSV ns v) = Inr ?d"
    unfolding importFromCSV_def split_export [OF cl] by (rule import_export_lines [OF cl])
  have dist: "distinct (map m_id (manufacturers v))" "distinct (map pl_id (productLines v))"
    "distinct (map p_id (products v))" "distinct (map a_id (addons v))"
    using cl by (simp_all add: cleanVersion_def)
  have "\<forall>m \<in> set (manufacturers v). own (d_manufacturers ?d) (m_id m) = Some m"
    using putAll_lookup [OF dist(1), of _ "\<lambda>m. m" Map.empty] by simp
  moreover have "\<forall>pl \<in> set (productLines v). own (d_productLines ?d) (pl_id pl) = Some pl"
    using putAll_lookup [OF dist(2), of _ "\<lambda>pl. pl" Map.empty] by simp
  moreover have "\<forall>p \<in> set (products v). own (d_products ?d) (p_id p) = Some (keptProduct p)"
    using putAll_lookup [OF dist(3), of _ keptProduct Map.empty] by simp
  moreover have "\<forall>a \<in> set (addons v). own (d_addons ?d) (a_id a) = Some (keptAddon a)"
    using putAll_lookup [OF dist(4), of _ keptAddon Map.empty] by simp
  moreover have "dom (own (d_manufacturers ?d)) = m_id ` set (manufacturers v)"
    "dom (own (d_productLines ?d)) = pl_id ` set (productLines v)"
    "dom (own (d_products ?d)) = p_id ` set (products v)"
    "dom (own (d_addons ?d)) = a_id ` set (addons v)"
    by (simp_all add: putAll_dom)
  moreover have "proto (d_manufacturers ?d) = None" "proto (d_productLines ?d) = None"
    "proto (d_products ?d) = None" "proto (d_addons ?d) = None"
    by simp_all
  ultimately show ?thesis using run by blast
qed

lemma ex_printed: "decimalString 10 = ''10''" "decimalString 0 = ''0''" "decimalString 25 = ''25''"
    "decimalString 2 = ''2''" "decimalString 55 = ''55''"
    by (simp_all add: runtime_simps)

lemma ex_parsed: "parseDecimal ''10'' = Num 10" "parseDecimal ''0'' = Num 0" "parseDecimal ''25'' = Num 25"
    "parseDecimal ''2'' = Num 2" "parseDecimal ''55'' = Num 55"
    by (simp_all add: parseDecimal_def digitVal_def)

lemma ex_cleanManufacturer: "cleanManufacturer \<lparr>m_id = ''m1'', m_name = ''Andersen, Inc''\<rparr>"
  by (simp add: cleanManufacturer_def ownKey_def plain_simps)

lemma ex_cleanProductLine: "cleanProductLine \<lparr>pl_id = ''l1'', pl_manufacturerId = ''m1'', pl_name = ''400 Series''\<rparr>"
  by (simp add: cleanProductLine_def ownKey_def plain_simps)

lemma ex_plain: "plain ''10''" "plain ''0''" "plain ''25''" "plain ''2''" "plain ''55''"
  "plain ''p1''" "plain ''l1''" "plain ''Window''" "plain ''SH''" "plain ''Single Hung''" "plain ''UI''"
  "plain ''lock''" "plain ''Lock''" "plain ''FLAT''" "plain ''grid''" "plain ''Grids''"
  by (simp_all add: plain_simps)

lemma ex_cleanProduct: "cleanProduct decimalString parseDecimal parseDecimal exProduct"
  by (simp add: cleanProduct_def cleanMinimumUI_def ownKey_def presentPlain_def printsBack_def
        ex_printed ex_parsed ex_plain exProduct_def)

lemma ex_missing_minimumUI:
  "cleanProduct decimalString parseDecimal parseDecimal (exProduct\<lparr>p_minimumUI := Undefined\<rparr>)"
  "p_minimumUI (keptProduct (exProduct\<lparr>p_minimumUI := Undefined\<rparr>)) = Num 0"
  by (simp_all add: cleanProduct_def cleanMinimumUI_def ownKey_def presentPlain_def printsBack_def
        template_def parseDecimal_def digitVal_def keptProduct_def orZero_def
        ex_printed ex_parsed ex_plain exProduct_def)

lemma ex_cleanAddons: "cleanAddon decimalString parseDecimal exLock" "cleanAddon decimalString parseDecimal exAddon"
  by (simp_all add: cleanAddon_def ownKey_def cleanList_def listItem_def printsBack_def
        strOrEmpty_def truthyStr_def ex_printed ex_parsed ex_plain exLock_def exAddon_def)

lemma ex_cleanVersion: "cleanVersion decimalString parseDecimal parseDecimal exVersion"
  unfolding cleanVersion_def exVersion_def
  by (simp add: ex_cleanManufacturer ex_cleanProductLine ex_cleanProduct ex_cleanAddons) (simp add: exProduct_def exLock_def exAddon_def)

lemma exVersion_fields:
  "manufacturers exVersion = [\<lparr>m_id = ''m1'', m_name = ''Andersen, Inc''\<rparr>]"
  "productLines exVersion = [\<lparr>pl_id = ''l1'', pl_manufacturerId = ''m1'', pl_name = ''400 Series''\<rparr>]"
  "products exVersion = [exProduct]" "addons exVersion = [exLock, exAddon]"
  by (simp_all add: exVersion_def)

lemma kept_examples:
  "keptProduct exProduct = exProduct\<lparr>p_allowedAddons := None\<rparr>"
  "keptAddon exLock = exLock" "keptAddon exAddon = exAddon"
  "p_id exProduct = ''p1''" "a_id exLock = ''lock''" "a_id exAddon = ''grid''"
  by (simp_all add: keptProduct_def keptAddon_def keptNum_def keptList_def truthyStr_def
        orZero_def exProduct_def exLock_def exAddon_def)

theorem csv_round_trip_witness:
  "cleanVersion decimalString parseDecimal parseDecimal exVersion
   \<and> (case importFromCSV parseDecimal parseDecimal (exportAsCSV decimalString exVersion) of
         Inl e \<Rightarrow> False
       | Inr d \<Rightarrow>
           own (d_manufacturers d) ''m1'' = Some \<lparr>m_id = ''m1'', m_name = ''Andersen, Inc''\<rparr>
           \<and> own (d_productLines d) ''l1'' =
               Some \<lparr>pl_id = ''l1'', pl_manufacturerId = ''m1'', pl_name = ''400 Series''\<rparr>
           \<and> own (d_products d) ''p1'' = Some (exProduct\<lparr>p_allowedAddons := None\<rparr>)
           \<and> own (d_addons d) ''lock'' = Some exLock
           \<and> own (d_addons d) ''grid'' = Some exAddon
           \<and> dom (own (d_addons d)) = {''lock'', ''grid''}
           \<and> proto (d_addons d) = None)"
proof -
  from csv_round_trip [OF ex_cleanVersion] obtain d where
    d: "importFromCSV parseDecimal parseDecimal (exportAsCSV decimalString exVersion) = Inr d
     \<and> (\<forall>m \<in> set (manufacturers exVersion). own (d_manufacturers d) (m_id m) = Some m)
     \<and> dom (own (d_manufacturers d)) = m_id ` set (manufacturers exVersion)
     \<and> (\<forall>pl \<in> set (productLines exVersion). own (d_productLines d) (pl_id pl) = Some pl)
     \<and> dom (own (d_productLines d)) = pl_id ` set (productLines exVersion)
     \<and> (\<forall>p \<in> set (products exVersion). own (d_products d) (p_id p) = Some (keptProduct p))
     \<and> dom (own (d_products d)) = p_id ` set (products exVersion)
     \<and> (\<forall>a \<in> set (addons exVersion). own (d_addons d) (a_id a) = Some (keptAddon a))
     \<and> dom (own (d_addons d)) = a_id ` set (addons exVersion)
     \<and> proto (d_manufacturers d) = None \<and> proto (d_productLines d) = None
     \<and> proto (d_products d) = None \<and> proto (d_addons d) = None" ..
  note run = d [THEN conjunct1]
  note m = d [THEN conjunct2, THEN conjunct1]
  note l = d [THEN conjunct2, THEN conjunct2, THEN conjunct2, THEN conjunct1]
  note p = d [THEN conjunct2, THEN conjunct2, THEN conjunct2, THEN conjunct2, THEN conjunct2,
              THEN conjunct1]
  note a = d [THEN conjunct2, THEN conjunct2, THEN conjunct2, THEN conjunct2, THEN conjunct2,
              THEN conjunct2, THEN conjunct2, THEN conjunct1]
  note da = d [THEN conjunct2, THEN conjunct2, THEN conjunct2, THEN conjunct2, THEN conjunct2,
              THEN conjunct2, THEN conjunct2, THEN conjunct2, THEN conjunct1]
  note pa = d [THEN conjunct2, THEN conjunct2, THEN conjunct2, THEN conjunct2, THEN conjunct2,
              THEN conjunct2, THEN conjunct2, THEN conjunct2, THEN conjunct2, THEN conjunct2,
              THEN conjunct2, THEN conjunct2]
  have 1: "own (d_manufacturers d) ''m1'' = Some \<lparr>m_id = ''m1'', m_name = ''Andersen, Inc''\<rparr>"
    using m unfolding exVersion_fields by simp
  have 2: "own (d_productLines d) ''l1'' = Some \<lparr>pl_id = ''l1'', pl_manufacturerId = ''m1'', pl_name = ''400 Series''\<rparr>"
    using l unfolding exVersion_fields by simp
  have 3: "own (d_products d) ''p1'' = Some (exProduct\<lparr>p_allowedAddons := None\<rparr>)"
    using p unfolding exVersion_fields by (simp add: kept_examples)
  have 4: "own (d_addons d) ''lock'' = Some exLock" "own (d_addons d) ''grid'' = Some exAddon"
    using a unfolding exVersion_fields by (simp_all add: kept_examples)
  have 5: "dom (own (d_addons d)) = {''lock'', ''grid''}"
    using da unfolding exVersion_fields by (simp add: kept_examples)
  show ?thesis unfolding run using ex_cleanVersion 1 2 3 4 5 pa by simp
qed

lemma import_data_line:
  assumes "trim raw = line" "line \<noteq> ''MANUFACTURERS''" "line \<noteq> ''PRODUCT LINES''"
    "line \<noteq> ''PRODUCTS''" "line \<noteq> ''ADDONS''" "line \<noteq> []"
  shows "importLines pf pint sec d (raw # rest) =
           (case importRow pf pint sec (parseCSVLine line) d of
              Inl e \<Rightarrow> Inl e
            | Inr d' \<Rightarrow> importLines pf pint sec d' rest)"
  using assms by simp

theorem csv_round_trip_counterexample:
  "importFromCSV parseDecimal parseDecimal (exportAsCSV decimalString exQuoted) =
     Inr \<lparr>d_manufacturers =
            \<lparr>own = [''m1'' \<mapsto> \<lparr>m_id = ''m1'', m_name = ''Acme Pro''\<rparr>], proto = None\<rparr>,
          d_productLines = emptyObject, d_products = emptyObject, d_addons = emptyObject\<rparr>
   \<and> manufacturers exQuoted = [\<lparr>m_id = ''m1'', m_name = ''Acme '' @ [dquote] @ ''Pro'' @ [dquote]\<rparr>]
   \<and> ''Acme Pro'' \<noteq> ''Acme '' @ [dquote] @ ''Pro'' @ [dquote]"
proof -
  define row where "row = rowLine [''m1'', ''Acme '' @ quoted ''Pro'']"
  have lines: "exportLines decimalString exQuoted =
      [''MANUFACTURERS'', manufacturerTitles, row, [],
       ''PRODUCT LINES'', productLineTitles, [],
       ''PRODUCTS'', productTitles, [],
       ''ADDONS'', addonTitles]"
    by (simp add: exportLines_def exQuoted_def manufacturerCols_def row_def)
  have row: "row = quoted ''m1'' @ '','' @ quoted (''Acme '' @ quoted ''Pro'')"
    by (simp add: row_def rowLine_def)
  have nl: "newline \<notin> set row"
    by (simp add: row quoted_def dquote_def newline_def)
  have split: "splitOn newline (trim (exportAsCSV decimalString exQuoted))
                 = exportLines decimalString exQuoted"
    unfolding export_unlines
  proof (rule split_trim_unlines)
    show "exportLines decimalString exQuoted \<noteq> []" by (simp add: lines)
    show "hd (exportLines decimalString exQuoted) \<noteq> []" by (simp add: lines)
    show "\<not> isSpace (hd (hd (exportLines decimalString exQuoted)))"
      by (simp add: lines isSpace_def)
    show "last (exportLines decimalString exQuoted) \<noteq> []"
      by (simp add: lines addonTitles_def)
    show "\<not> isSpace (last (last (exportLines decimalString exQuoted)))"
      by (simp add: lines addonTitles_def isSpace_def)
    show "\<forall>l \<in> set (exportLines decimalString exQuoted). newline \<notin> set l"
      using nl titles_no_newline by (simp add: lines)
  qed
  have t: "trim row = row"
    unfolding row_def by (rule rowLine_trim) simp
  have nh: "row \<noteq> ''MANUFACTURERS''" "row \<noteq> ''PRODUCT LINES''"
    "row \<noteq> ''PRODUCTS''" "row \<noteq> ''ADDONS''" "row \<noteq> []"
    by (simp_all add: row quoted_def dquote_def)
  have parse: "parseCSVLine row = [''m1'', ''Acme Pro'']"
    by (simp add: row quoted_def parseCSVLine_def dquote_def trim_def isSpace_def)
  have step: "importLines parseDecimal parseDecimal (Some InManufacturers) emptyData (row # rest)
      = importLines parseDecimal parseDecimal (Some InManufacturers)
          (emptyData\<lparr>d_manufacturers :=
             \<lparr>own = [''m1'' \<mapsto> \<lparr>m_id = ''m1'', m_name = ''Acme Pro''\<rparr>], proto = None\<rparr>\<rparr>) rest"
    for rest
    using import_data_line [of row row parseDecimal parseDecimal "Some InManufacturers" emptyData rest]
      t nh parse
    by (simp add: importRow_def emptyData_def assign_def emptyObject_def)
  have "importLines parseDecimal parseDecimal None emptyData (exportLines decimalString exQuoted) =
     Inr (emptyData\<lparr>d_manufacturers :=
            \<lparr>own = [''m1'' \<mapsto> \<lparr>m_id = ''m1'', m_name = ''Acme Pro''\<rparr>], proto = None\<rparr>\<rparr>)"
    unfolding lines
    by (simp only: import_header import_blank step importLines.simps(1))
  then have imp: "importLines parseDecimal parseDecimal None emptyData (exportLines decimalString exQuoted) =
     Inr \<lparr>d_manufacturers =
            \<lparr>own = [''m1'' \<mapsto> \<lparr>m_id = ''m1'', m_name = ''Acme Pro''\<rparr>], proto = None\<rparr>,
          d_productLines = emptyObject, d_products = emptyObject, d_addons = emptyObject\<rparr>"
    by (simp add: emptyData_def)
  have run: "importFromCSV parseDecimal parseDecimal (exportAsCSV decimalString exQuoted) =
     Inr \<lparr>d_manufacturers =
            \<lparr>own = [''m1'' \<mapsto> \<lparr>m_id = ''m1'', m_name = ''Acme Pro''\<rparr>], proto = None\<rparr>,
          d_productLines = emptyObject, d_products = emptyObject, d_addons = emptyObject\<rparr>"
    unfolding importFromCSV_def split by (rule imp)
  have m: "manufacturers exQuoted = [\<lparr>m_id = ''m1'', m_name = ''Acme '' @ [dquote] @ ''Pro'' @ [dquote]\<rparr>]"
    by (simp add: exQuoted_def quoted_def)
  have ne: "''Acme Pro'' \<noteq> ''Acme '' @ [dquote] @ ''Pro'' @ [dquote]"
    by (simp add: dquote_def)
  show ?thesis using run m ne by (intro conjI)
qed

end
